(* ===== verification/Husker_Prelude.thy ===== *)
theory Husker_Prelude
  imports Main "HOL-Library.Word" "HOL-Library.Char_ord" "HOL-Library.List_Lexorder"
    "HOL-Library.Option_ord"
begin

text \<open>
  Shared vocabulary of the development.

  \<^item> Machine integers: Rust's \<open>u16\<close>, \<open>u32\<close>, \<open>u64\<close> and the 128-bit value of a
    \<open>Uuid\<close> are words; SQLite integer columns are unbounded \<open>int\<close>s and every read of one
    into a Rust integer is an explicit, fallible conversion. A \<open>DateTime<Utc>\<close> is the
    number of nanoseconds since the epoch.
  \<^item> Effects: an operation of the store is a function from the state to a result (an error
    or a value) and the next state. An error does not by itself undo anything: only
    \<open>transaction\<close> restores the state, as dropping an uncommitted SQLite transaction does.
  \<^item> \<open>within R m\<close>: every run of \<open>m\<close>, successful or not, relates its start and end state
    by \<open>R\<close>. Invariants, frames and immutability facts of whole operations are composed from
    those of their statements by the rules collected in \<open>within_intros\<close>.
  \<^item> Tables: lists of rows in insertion order, with \<open>find\<close> for a one-row query and the
    row-wise \<open>update_rows\<close>, \<open>delete_rows\<close> and \<open>count_rows\<close>.
\<close>

named_theorems op_simps \<open>unfolding of the operation combinators\<close>
named_theorems within_intros \<open>composition rules for relations kept by operations\<close>
named_theorems table_simps \<open>row-wise facts about tables\<close>

type_synonym u16 = "16 word"
type_synonym u32 = "32 word"
type_synonym u64 = "64 word"
type_synonym Uuid = "128 word"
type_synonym DateTime = int
type_synonym bytes = "8 word list"

subsection \<open>Time\<close>

text \<open>\<open>DateTime::timestamp\<close>: whole seconds, rounded towards minus infinity.\<close>

definition timestamp :: "DateTime \<Rightarrow> int" where
  "timestamp t = t div 1000000000"

definition days :: "int \<Rightarrow> int" where
  "days n = n * 86400 * 1000000000"

lemma timestamp_mono: "s \<le> t \<Longrightarrow> timestamp s \<le> timestamp t"
  by (simp add: timestamp_def zdiv_mono1)

lemma timestamp_less: "timestamp s < timestamp t \<Longrightarrow> s < t"
  by (meson not_le timestamp_mono)

subsection \<open>Integer conversions\<close>

definition try_u32 :: "int \<Rightarrow> u32 option" where
  "try_u32 v = (if 0 \<le> v \<and> v < 2 ^ 32 then Some (word_of_int v) else None)"

definition try_i64 :: "u64 \<Rightarrow> int option" where
  "try_i64 v = (if uint v < 2 ^ 63 then Some (uint v) else None)"

definition try_u64 :: "int \<Rightarrow> u64 option" where
  "try_u64 v = (if 0 \<le> v \<and> v < 2 ^ 64 then Some (word_of_int v) else None)"

text \<open>The two's complement casts \<open>v as i64\<close> and \<open>v as u64\<close>.\<close>

definition as_i64 :: "u64 \<Rightarrow> int" where
  "as_i64 v = sint v"

definition as_u64 :: "int \<Rightarrow> u64" where
  "as_u64 v = word_of_int v"

lemma uint_u32: "0 \<le> c \<Longrightarrow> c < 4294967296 \<Longrightarrow> uint (word_of_int c :: u32) = c"
  by (simp add: uint_word_of_int)

lemma try_u32_uint [simp]: "try_u32 (uint (w :: u32)) = Some w"
  using uint_lt2p [of w] by (simp add: try_u32_def)

lemma try_u32_SomeD: "try_u32 v = Some w \<Longrightarrow> uint w = v"
  by (auto simp: try_u32_def uint_word_of_int split: if_splits)

lemma try_u64_try_i64: "try_i64 w = Some v \<Longrightarrow> try_u64 v = Some w"
  using uint_lt2p [of w] by (auto simp: try_u64_def try_i64_def split: if_splits)

lemma as_u64_as_i64 [simp]: "as_u64 (as_i64 v) = v"
  by (simp add: as_u64_def as_i64_def)

text \<open>\<open>checked_add\<close> and \<open>checked_mul\<close> on \<open>u64\<close>.\<close>

definition checked_add :: "u64 \<Rightarrow> u64 \<Rightarrow> u64 option" where
  "checked_add a b = (if uint a + uint b < 2 ^ 64 then Some (a + b) else None)"

definition checked_mul :: "u64 \<Rightarrow> u64 \<Rightarrow> u64 option" where
  "checked_mul a b = (if uint a * uint b < 2 ^ 64 then Some (a * b) else None)"

lemma checked_add_SomeD: "checked_add a b = Some c \<Longrightarrow> uint c = uint a + uint b"
  by (auto simp: checked_add_def uint_word_ariths split: if_splits)

lemma checked_add_Some: "checked_add a b = Some c \<longleftrightarrow> uint c = uint a + uint b"
  using checked_add_SomeD [of a b c] uint_lt2p [of c]
  by (auto simp: checked_add_def uint_word_ariths intro!: word_uint_eqI)

lemma checked_mul_SomeD: "checked_mul a b = Some c \<Longrightarrow> uint c = uint a * uint b"
  by (auto simp: checked_mul_def uint_word_ariths split: if_splits)

lemma checked_mul_Some: "checked_mul a b = Some c \<longleftrightarrow> uint c = uint a * uint b"
  using checked_mul_SomeD [of a b c] uint_lt2p [of c]
  by (auto simp: checked_mul_def uint_word_ariths intro!: word_uint_eqI)

subsection \<open>Text\<close>

text \<open>A Rust string is its UTF-8 bytes: \<open>len\<close> counts them.\<close>

fun starts_with :: "string \<Rightarrow> string \<Rightarrow> bool" where
  "starts_with xs [] = True"
| "starts_with [] (p # ps) = False"
| "starts_with (x # xs) (p # ps) = (x = p \<and> starts_with xs ps)"

fun contains :: "string \<Rightarrow> string \<Rightarrow> bool" where
  "contains [] p = (p = [])"
| "contains (x # xs) p = (starts_with (x # xs) p \<or> contains xs p)"

text \<open>
  \<open>chars().any(char::is_control)\<close>: the code points of category Cc are 0 to 31, 127 and 128 to
  159, the last range being the byte pairs 194 128 to 194 159 in UTF-8.
\<close>

fun any_control :: "string \<Rightarrow> bool" where
  "any_control [] = False"
| "any_control (x # xs) =
     (of_char x < (32 :: nat) \<or> of_char x = (127 :: nat)
      \<or> (of_char x = (194 :: nat) \<and> xs \<noteq> [] \<and> 128 \<le> (of_char (hd xs) :: nat)
          \<and> (of_char (hd xs) :: nat) \<le> 159)
      \<or> any_control xs)"

text \<open>\<open>str::split\<close> on one character.\<close>

fun split_on :: "char \<Rightarrow> string \<Rightarrow> string list" where
  "split_on c [] = [[]]"
| "split_on c (x # xs) =
     (if x = c then [] # split_on c xs
      else case split_on c xs of [] \<Rightarrow> [[x]] | p # ps \<Rightarrow> (x # p) # ps)"

lemma split_on_nonempty: "split_on c xs \<noteq> []"
  by (induction xs) (auto split: list.splits)

text \<open>\<open>str::strip_prefix\<close>.\<close>

definition strip_prefix :: "string \<Rightarrow> string \<Rightarrow> string option" where
  "strip_prefix s p = (if starts_with s p then Some (drop (length p) s) else None)"

text \<open>The decimal text of a number.\<close>

fun decimal :: "nat \<Rightarrow> string" where
  "decimal n = (if n < 10 then [char_of (48 + n)] else decimal (n div 10) @ [char_of (48 + n mod 10)])"

declare decimal.simps [simp del]

subsection \<open>Fallible values\<close>

text \<open>\<open>?\<close> on a value of type \<open>Result\<close>.\<close>

definition and_then :: "'e + 'a \<Rightarrow> ('a \<Rightarrow> 'e + 'b) \<Rightarrow> 'e + 'b" where
  "and_then r f = (case r of Inl e \<Rightarrow> Inl e | Inr x \<Rightarrow> f x)"

lemma and_then_simps [simp]: "and_then (Inl e) f = Inl e" "and_then (Inr x) f = f x"
  by (simp_all add: and_then_def)

text \<open>\<open>ok_or\<close>, and \<open>map(f).transpose()\<close> on an optional fallible value.\<close>

definition ok_or :: "'e \<Rightarrow> 'a option \<Rightarrow> 'e + 'a" where
  "ok_or e x = (case x of None \<Rightarrow> Inl e | Some y \<Rightarrow> Inr y)"

definition traverse_option :: "('a \<Rightarrow> 'e + 'b) \<Rightarrow> 'a option \<Rightarrow> 'e + 'b option" where
  "traverse_option f x =
     (case x of None \<Rightarrow> Inr None | Some y \<Rightarrow> and_then (f y) (\<lambda>z. Inr (Some z)))"

fun collect_results :: "('e + 'a) list \<Rightarrow> 'e + 'a list" where
  "collect_results [] = Inr []"
| "collect_results (r # rs) = and_then r (\<lambda>x. and_then (collect_results rs) (\<lambda>xs. Inr (x # xs)))"

lemma ok_or_simps [simp]: "ok_or e (Some x) = Inr x" "ok_or e None = Inl e"
  by (simp_all add: ok_or_def)

lemma traverse_option_map:
  "(\<And>x. f (g x) = Inr x) \<Longrightarrow> traverse_option f (map_option g y) = Inr y"
  by (cases y) (auto simp: traverse_option_def)

lemma collect_results_map:
  "(\<And>x. x \<in> set xs \<Longrightarrow> f (g x) = Inr x) \<Longrightarrow> collect_results (map f (map g xs)) = Inr xs"
  by (induction xs) auto

lemma and_then_Inr: "and_then r f = Inr y \<longleftrightarrow> (\<exists>x. r = Inr x \<and> f x = Inr y)"
  by (cases r) auto

lemma ok_or_Inr: "ok_or e x = Inr y \<longleftrightarrow> x = Some y"
  by (cases x) auto

lemma map_sum_Inr: "map_sum f id x = Inr y \<longleftrightarrow> x = Inr y"
  by (cases x) auto

text \<open>\<open>if !c { return Err(e) }\<close>, and \<open>Option::is_some_and\<close>.\<close>

definition ensure :: "bool \<Rightarrow> 'e \<Rightarrow> 'e + unit" where
  "ensure c e = (if c then Inr () else Inl e)"

lemma ensure_Inr [simp]: "ensure c e = Inr u \<longleftrightarrow> c"
  by (simp add: ensure_def)

definition is_some_and :: "('a \<Rightarrow> bool) \<Rightarrow> 'a option \<Rightarrow> bool" where
  "is_some_and P x = (case x of None \<Rightarrow> False | Some y \<Rightarrow> P y)"

lemma is_some_and_simps [simp]: "is_some_and P None = False" "is_some_and P (Some y) = P y"
  by (simp_all add: is_some_and_def)

subsection \<open>Operations on a state\<close>

type_synonym ('s, 'e, 'a) op = "'s \<Rightarrow> ('e + 'a) \<times> 's"

definition ok :: "'a \<Rightarrow> ('s, 'e, 'a) op" where
  [op_simps]: "ok x = (\<lambda>s. (Inr x, s))"

definition err :: "'e \<Rightarrow> ('s, 'e, 'a) op" where
  [op_simps]: "err e = (\<lambda>s. (Inl e, s))"

definition bind_op :: "('s, 'e, 'a) op \<Rightarrow> ('a \<Rightarrow> ('s, 'e, 'b) op) \<Rightarrow> ('s, 'e, 'b) op" where
  [op_simps]: "bind_op m f =
     (\<lambda>s. case m s of (r, s') \<Rightarrow> (case r of Inl e \<Rightarrow> (Inl e, s') | Inr x \<Rightarrow> f x s'))"

definition query :: "('s \<Rightarrow> 'a) \<Rightarrow> ('s, 'e, 'a) op" where
  [op_simps]: "query f = (\<lambda>s. (Inr (f s), s))"

definition lift_result :: "'e + 'a \<Rightarrow> ('s, 'e, 'a) op" where
  [op_simps]: "lift_result r = (\<lambda>s. (r, s))"

definition require :: "bool \<Rightarrow> 'e \<Rightarrow> ('s, 'e, unit) op" where
  [op_simps]: "require b e = (if b then ok () else err e)"

definition map_err :: "('e \<Rightarrow> 'f) \<Rightarrow> ('s, 'e, 'a) op \<Rightarrow> ('s, 'f, 'a) op" where
  [op_simps]: "map_err g m =
     (\<lambda>s. case m s of (r, s') \<Rightarrow> (case r of Inl e \<Rightarrow> (Inl (g e), s') | Inr x \<Rightarrow> (Inr x, s')))"

text \<open>A \<open>match\<close> on the error of a call, with a handler that may itself act on the state.\<close>

definition or_else :: "('s, 'e, 'a) op \<Rightarrow> ('e \<Rightarrow> ('s, 'f, 'a) op) \<Rightarrow> ('s, 'f, 'a) op" where
  [op_simps]: "or_else m h =
     (\<lambda>s. case m s of (r, s') \<Rightarrow> (case r of Inl e \<Rightarrow> h e s' | Inr x \<Rightarrow> (Inr x, s')))"

text \<open>
  A transaction that is dropped before \<open>commit\<close>, which is what every early error return
  does, rolls back.
\<close>

definition transaction :: "('s, 'e, 'a) op \<Rightarrow> ('s, 'e, 'a) op" where
  [op_simps]: "transaction m =
     (\<lambda>s. case m s of (r, s') \<Rightarrow> (case r of Inl e \<Rightarrow> (Inl e, s) | Inr x \<Rightarrow> (Inr x, s')))"

definition for_each :: "('a \<Rightarrow> ('s, 'e, unit) op) \<Rightarrow> 'a list \<Rightarrow> ('s, 'e, unit) op" where
  "for_each f xs = foldr (\<lambda>x rest. bind_op (f x) (\<lambda>_. rest)) xs (ok ())"

lemma for_each_Nil [simp]: "for_each f [] = ok ()"
  by (simp add: for_each_def)

lemma for_each_Cons [simp]:
  "for_each f (x # xs) = bind_op (f x) (\<lambda>_. for_each f xs)"
  by (simp add: for_each_def)

lemma bind_op_assoc: "bind_op (bind_op m f) g = bind_op m (\<lambda>x. bind_op (f x) g)"
  by (auto simp: bind_op_def fun_eq_iff split: sum.splits prod.splits)

lemma bind_op_ok [simp]: "bind_op (ok x) f = f x"
  by (simp add: op_simps)

lemma bind_query [simp]: "bind_op (query f) g s = g (f s) s"
  by (simp add: op_simps)

lemma bind_op_Inr:
  assumes "bind_op m f s = (Inr y, s')"
  obtains x s1 where "m s = (Inr x, s1)" "f x s1 = (Inr y, s')"
  using assms by (auto simp: bind_op_def split: prod.splits sum.splits)

lemma transaction_Inr: "transaction m s = (Inr x, s') \<longleftrightarrow> m s = (Inr x, s')"
  by (auto simp: transaction_def split: prod.splits sum.splits)

lemma map_err_Inr: "map_err g m s = (Inr x, s') \<longleftrightarrow> m s = (Inr x, s')"
  by (auto simp: map_err_def split: prod.splits sum.splits)

subsection \<open>Relations kept by an operation\<close>

definition within :: "('s \<Rightarrow> 's \<Rightarrow> bool) \<Rightarrow> ('s, 'e, 'a) op \<Rightarrow> bool" where
  "within R m \<longleftrightarrow> (\<forall>s. R s (snd (m s)))"

abbreviation keeps :: "('s \<Rightarrow> bool) \<Rightarrow> ('s, 'e, 'a) op \<Rightarrow> bool" where
  "keeps P \<equiv> within (\<lambda>s t. P s \<longrightarrow> P t)"

text \<open>A relation that is reflexive and transitive composes along every combinator.\<close>

definition preorder_on_states :: "('s \<Rightarrow> 's \<Rightarrow> bool) \<Rightarrow> bool" where
  "preorder_on_states R \<longleftrightarrow> (\<forall>s. R s s) \<and> (\<forall>s t u. R s t \<longrightarrow> R t u \<longrightarrow> R s u)"

lemma preorder_keeps [simp]: "preorder_on_states (\<lambda>s t. P s \<longrightarrow> P t)"
  by (auto simp: preorder_on_states_def)

lemma preorder_eq_on [simp]: "preorder_on_states (\<lambda>s t. f t = f s)"
  by (auto simp: preorder_on_states_def)

lemma preorder_under_inv:
  assumes "\<And>s. R s s" "\<And>s t u. R s t \<Longrightarrow> R t u \<Longrightarrow> R s u"
  shows "preorder_on_states (\<lambda>s t. I s \<longrightarrow> (I t \<and> R s t))"
  using assms unfolding preorder_on_states_def by blast

lemma withinD: "within R m \<Longrightarrow> m s = (r, t) \<Longrightarrow> R s t"
  unfolding within_def by (metis snd_conv)

lemma within_ok [within_intros]: "preorder_on_states R \<Longrightarrow> within R (ok x)"
  by (simp add: within_def preorder_on_states_def op_simps)

lemma within_err [within_intros]: "preorder_on_states R \<Longrightarrow> within R (err e)"
  by (simp add: within_def preorder_on_states_def op_simps)

lemma within_query [within_intros]: "preorder_on_states R \<Longrightarrow> within R (query f)"
  by (simp add: within_def preorder_on_states_def op_simps)

lemma within_lift_result [within_intros]: "preorder_on_states R \<Longrightarrow> within R (lift_result r)"
  by (simp add: within_def preorder_on_states_def op_simps)

lemma within_require [within_intros]: "preorder_on_states R \<Longrightarrow> within R (require b e)"
  by (simp add: within_def preorder_on_states_def op_simps)

lemma within_bind [within_intros]:
  assumes R: "preorder_on_states R" and m: "within R m" and f: "\<And>x. within R (f x)"
  shows "within R (bind_op m f)"
  unfolding within_def
proof
  fix s
  obtain r s' where ms: "m s = (r, s')" by (cases "m s")
  then have 1: "R s s'" using m withinD by fastforce
  have 2: "R s' (snd (f x s'))" for x using f unfolding within_def by blast
  show "R s (snd (bind_op m f s))"
    using R 1 2 ms unfolding preorder_on_states_def bind_op_def
    by (cases r) auto
qed

lemma within_map_err [within_intros]: "within R m \<Longrightarrow> within R (map_err g m)"
  by (auto simp: within_def op_simps split: prod.splits sum.splits) (metis snd_conv)+

lemma within_or_else [within_intros]:
  assumes R: "preorder_on_states R" and m: "within R m" and h: "\<And>e. within R (h e)"
  shows "within R (or_else m h)"
  unfolding within_def
proof
  fix s
  obtain r s' where ms: "m s = (r, s')" by (cases "m s")
  then have 1: "R s s'" using m withinD by fastforce
  have 2: "R s' (snd (h e s'))" for e using h unfolding within_def by blast
  show "R s (snd (or_else m h s))"
    using R 1 2 ms unfolding preorder_on_states_def or_else_def
    by (cases r) auto
qed

lemma within_transaction [within_intros]:
  assumes "preorder_on_states R" "within R m"
  shows "within R (transaction m)"
  unfolding within_def
proof
  fix s
  obtain r s' where ms: "m s = (r, s')" by (cases "m s")
  then have "R s s'" using assms(2) withinD by fastforce
  then show "R s (snd (transaction m s))"
    using assms(1) ms by (cases r) (auto simp: op_simps preorder_on_states_def)
qed

lemma within_if [within_intros]:
  "(b \<Longrightarrow> within R m) \<Longrightarrow> (\<not> b \<Longrightarrow> within R n) \<Longrightarrow> within R (if b then m else n)"
  by simp

lemma within_case_option [within_intros]:
  "(x = None \<Longrightarrow> within R m) \<Longrightarrow> (\<And>y. x = Some y \<Longrightarrow> within R (f y)) \<Longrightarrow>
    within R (case x of None \<Rightarrow> m | Some y \<Rightarrow> f y)"
  by (cases x) auto

lemma within_case_prod [within_intros]:
  "(\<And>a b. x = (a, b) \<Longrightarrow> within R (f a b)) \<Longrightarrow> within R (case x of (a, b) \<Rightarrow> f a b)"
  by (cases x) auto

lemma within_Let [within_intros]: "(\<And>y. y = x \<Longrightarrow> within R (f y)) \<Longrightarrow> within R (let y = x in f y)"
  by simp

lemma within_for_each [within_intros]:
  "preorder_on_states R \<Longrightarrow> (\<And>x. within R (f x)) \<Longrightarrow> within R (for_each f xs)"
  by (induction xs) (auto intro!: within_intros)

subsection \<open>All-or-nothing operations\<close>

definition all_or_nothing :: "('s, 'e, 'a) op \<Rightarrow> bool" where
  "all_or_nothing m \<longleftrightarrow> (\<forall>s e s'. m s = (Inl e, s') \<longrightarrow> s' = s)"

lemma transaction_all_or_nothing: "all_or_nothing (transaction m)"
  by (auto simp: all_or_nothing_def op_simps split: prod.splits sum.splits)

lemma all_or_nothing_err: "all_or_nothing (err e)"
  by (simp add: all_or_nothing_def err_def)

lemma all_or_nothing_if:
  "all_or_nothing m \<Longrightarrow> all_or_nothing n \<Longrightarrow> all_or_nothing (if b then m else n)"
  by simp

subsection \<open>Tables\<close>

definition update_rows :: "('r \<Rightarrow> bool) \<Rightarrow> ('r \<Rightarrow> 'r) \<Rightarrow> 'r list \<Rightarrow> 'r list" where
  "update_rows P f t = map (\<lambda>r. if P r then f r else r) t"

definition delete_rows :: "('r \<Rightarrow> bool) \<Rightarrow> 'r list \<Rightarrow> 'r list" where
  "delete_rows P t = filter (\<lambda>r. \<not> P r) t"

definition count_rows :: "('r \<Rightarrow> bool) \<Rightarrow> 'r list \<Rightarrow> nat" where
  "count_rows P t = length (filter P t)"

text \<open>Two rows of a table agree on a key only if they are the same row.\<close>

definition unique_on :: "('r \<Rightarrow> 'k) \<Rightarrow> 'r list \<Rightarrow> bool" where
  "unique_on key t \<longleftrightarrow> distinct (map key t)"

text \<open>A partial unique index covers only the rows that have a key.\<close>

definition unique_some :: "('r \<Rightarrow> 'k option) \<Rightarrow> 'r list \<Rightarrow> bool" where
  "unique_some key t \<longleftrightarrow> distinct (map key (filter (\<lambda>r. key r \<noteq> None) t))"

lemma set_update_rows [table_simps]:
  "set (update_rows P f t) = {r \<in> set t. \<not> P r} \<union> f ` {r \<in> set t. P r}"
  by (auto simp: update_rows_def)

lemma set_delete_rows [table_simps]: "set (delete_rows P t) = {r \<in> set t. \<not> P r}"
  by (auto simp: delete_rows_def)

lemma count_rows_0 [table_simps]: "count_rows P t = 0 \<longleftrightarrow> (\<forall>r \<in> set t. \<not> P r)"
  by (simp add: count_rows_def filter_empty_conv)

lemma count_rows_pos [table_simps]: "0 < count_rows P t \<longleftrightarrow> (\<exists>r \<in> set t. P r)"
  by (simp add: count_rows_def filter_empty_conv)

lemma map_update_rows:
  "(\<And>r. r \<in> set t \<Longrightarrow> P r \<Longrightarrow> g (f r) = g r) \<Longrightarrow> map g (update_rows P f t) = map g t"
  by (simp add: update_rows_def)

lemma find_update_rows:
  "(\<And>r. r \<in> set t \<Longrightarrow> P r \<Longrightarrow> Q (f r) = Q r) \<Longrightarrow>
    find Q (update_rows P f t) = map_option (\<lambda>r. if P r then f r else r) (find Q t)"
  by (induction t) (auto simp: update_rows_def)

lemma unique_on_update:
  "unique_on key t \<Longrightarrow> (\<And>r. r \<in> set t \<Longrightarrow> P r \<Longrightarrow> key (f r) = key r) \<Longrightarrow>
    unique_on key (update_rows P f t)"
  by (simp add: unique_on_def map_update_rows)

lemma unique_on_delete: "unique_on key t \<Longrightarrow> unique_on key (delete_rows P t)"
  by (simp add: unique_on_def delete_rows_def distinct_map_filter)

lemma unique_on_append:
  "unique_on key (t @ [r]) \<longleftrightarrow> unique_on key t \<and> (\<forall>q \<in> set t. key q \<noteq> key r)"
  by (auto simp: unique_on_def image_iff)

lemma unique_onD:
  "unique_on key t \<Longrightarrow> r \<in> set t \<Longrightarrow> q \<in> set t \<Longrightarrow> key r = key q \<Longrightarrow> r = q"
  by (simp add: unique_on_def distinct_map inj_on_def)

lemma unique_some_iff:
  "unique_some key t \<longleftrightarrow> unique_on key (filter (\<lambda>r. key r \<noteq> None) t)"
  by (simp add: unique_some_def unique_on_def)

lemma unique_someD:
  "unique_some key t \<Longrightarrow> r \<in> set t \<Longrightarrow> q \<in> set t \<Longrightarrow> key r = Some k \<Longrightarrow> key q = Some k \<Longrightarrow> r = q"
  unfolding unique_some_iff
  by (rule unique_onD [where key = key and t = "filter (\<lambda>r. key r \<noteq> None) t"]) auto

lemma unique_some_append:
  "unique_some key (t @ [r]) \<longleftrightarrow>
    unique_some key t \<and> (key r \<noteq> None \<longrightarrow> (\<forall>q \<in> set t. key q \<noteq> key r))"
  by (force simp: unique_some_def image_iff)

lemma unique_some_delete:
  assumes "unique_some key t"
  shows "unique_some key (delete_rows P t)"
proof -
  have "filter (\<lambda>r. key r \<noteq> None) (delete_rows P t)
      = filter (\<lambda>r. \<not> P r) (filter (\<lambda>r. key r \<noteq> None) t)"
    by (simp add: delete_rows_def conj_commute)
  then show ?thesis using assms unfolding unique_some_def by (metis distinct_map_filter)
qed

lemma unique_some_update:
  assumes "unique_some key t" "\<And>r. r \<in> set t \<Longrightarrow> P r \<Longrightarrow> key (f r) = key r"
  shows "unique_some key (update_rows P f t)"
proof -
  have "map key (filter (\<lambda>r. key r \<noteq> None) (update_rows P f t))
      = map key (filter (\<lambda>r. key r \<noteq> None) t)"
    using assms(2) by (induction t) (auto simp: update_rows_def)
  then show ?thesis using assms(1) by (simp add: unique_some_def)
qed

lemma find_Some_iff_unique:
  assumes "unique_on key t"
  shows "find (\<lambda>r. key r = k) t = Some r \<longleftrightarrow> r \<in> set t \<and> key r = k"
proof -
  have "find (\<lambda>r. key r = k) t = Some r \<longleftrightarrow> r \<in> set t \<and> key r = k"
    if "distinct (map key t)"
    using that by (induction t) (auto simp: image_iff)
  then show ?thesis using assms by (simp add: unique_on_def)
qed

lemma find_SomeD: "find P t = Some r \<Longrightarrow> r \<in> set t \<and> P r"
  by (auto simp: find_Some_iff)

lemma find_Some_only:
  assumes "r \<in> set t" "P r" "\<And>q. q \<in> set t \<Longrightarrow> P q \<Longrightarrow> q = r"
  shows "find P t = Some r"
proof (cases "find P t")
  case None
  then show ?thesis using assms(1,2) unfolding find_None_iff by blast
next
  case (Some q)
  then show ?thesis using assms(3) find_SomeD [OF Some] by metis
qed

lemma find_append_new:
  "find P (t @ [r]) = (case find P t of None \<Rightarrow> if P r then Some r else None | Some q \<Rightarrow> Some q)"
  by (induction t) auto

lemma find_delete_rows:
  "(\<And>r. P r \<Longrightarrow> \<not> Q r) \<Longrightarrow> find Q (delete_rows P t) = find Q t"
  by (induction t) (auto simp: delete_rows_def)

lemma count_rows_update_keep:
  "(\<And>r. r \<in> set t \<Longrightarrow> P r \<Longrightarrow> Q (f r) = Q r) \<Longrightarrow>
    count_rows Q (update_rows P f t) = count_rows Q t"
  by (induction t) (auto simp: update_rows_def count_rows_def)

lemma filter_unique_found:
  assumes "unique_on key t" "find (\<lambda>q. key q = k) t = Some r"
  shows "filter (\<lambda>q. key q = k \<and> Q q) t = (if Q r then [r] else [])"
proof -
  have "filter (\<lambda>q. key q = k \<and> Q q) t = (if Q r then [r] else [])"
    if "distinct (map key t)"
    using that assms(2)
  proof (induction t)
    case Nil
    then show ?case by simp
  next
    case (Cons x t)
    show ?case
    proof (cases "key x = k")
      case True
      moreover from True Cons.prems(1) have "filter (\<lambda>q. key q = k \<and> Q q) t = []"
        by (auto simp: filter_empty_conv image_iff)
      ultimately show ?thesis using Cons.prems(2) by auto
    next
      case False
      then show ?thesis using Cons by simp
    qed
  qed
  then show ?thesis using assms(1) by (simp add: unique_on_def)
qed

lemma filter_missing:
  "find (\<lambda>q. key q = k) t = None \<Longrightarrow> filter (\<lambda>q. key q = k \<and> Q q) t = []"
  by (auto simp: find_None_iff filter_empty_conv)

lemma update_rows_none: "filter P t = [] \<Longrightarrow> update_rows P f t = t"
  by (auto simp: update_rows_def filter_empty_conv intro: map_idI)

lemma delete_rows_none: "filter P t = [] \<Longrightarrow> delete_rows P t = t"
  by (auto simp: delete_rows_def filter_empty_conv filter_id_conv)

lemma update_rows_cong:
  "(\<And>r. r \<in> set t \<Longrightarrow> P r = Q r) \<Longrightarrow> update_rows P f t = update_rows Q f t"
  by (simp add: update_rows_def)

end
