(* ===== verification/Husker_Types.thy ===== *)
theory Husker_Types
  imports Husker_Prelude
begin

text \<open>
  The domain vocabulary of \<open>crates/husker-types/src/lib.rs\<close> and the lifecycle states of
  \<open>crates/husker-state/src/lib.rs\<close>: the enumerations that cross the database, API and
  CLI boundaries as text, with their printers \<open>as_str\<close> and parsers \<open>from_str\<close>.

  The locale \<open>wire_enum\<close> states what the layers rely on: every value has one stable text,
  and exactly those texts parse. It is interpreted on each enumeration.
\<close>

subsection \<open>Enumerations\<close>

datatype BackendKind = Firecracker | Qemu | AppleVz

datatype BootKind = DirectKernel | Uefi | Efi | MacOs

datatype ImageKind = Rootfs | CloudImage

datatype UserdataStatus =
  UdPending | UdRunning | UdCompleted | UdFailed | UdInterrupted

datatype NetworkMode = Nat | Bridged | Isolated

datatype VmLifecycleState =
  Creating | Running | Paused | Stopped | Failed | Suspending | Suspended

text \<open>\<open>ALL\<close> of each type.\<close>

definition BackendKind_ALL :: "BackendKind list" where
  "BackendKind_ALL = [Firecracker, Qemu, AppleVz]"

definition BootKind_ALL :: "BootKind list" where
  "BootKind_ALL = [DirectKernel, Uefi, Efi, MacOs]"

definition ImageKind_ALL :: "ImageKind list" where
  "ImageKind_ALL = [Rootfs, CloudImage]"

definition UserdataStatus_ALL :: "UserdataStatus list" where
  "UserdataStatus_ALL = [UdPending, UdRunning, UdCompleted, UdFailed, UdInterrupted]"

definition NetworkMode_ALL :: "NetworkMode list" where
  "NetworkMode_ALL = [Nat, Bridged, Isolated]"

definition VmLifecycleState_ALL :: "VmLifecycleState list" where
  "VmLifecycleState_ALL =
     [Creating, Running, Paused, Stopped, Failed, Suspending, Suspended]"

subsection \<open>Text forms\<close>

fun backend_as_str :: "BackendKind \<Rightarrow> string" where
  "backend_as_str Firecracker = ''firecracker''"
| "backend_as_str Qemu = ''qemu''"
| "backend_as_str AppleVz = ''apple_vz''"

fun boot_as_str :: "BootKind \<Rightarrow> string" where
  "boot_as_str DirectKernel = ''direct''"
| "boot_as_str Uefi = ''uefi''"
| "boot_as_str Efi = ''efi''"
| "boot_as_str MacOs = ''macos''"

fun image_kind_as_str :: "ImageKind \<Rightarrow> string" where
  "image_kind_as_str Rootfs = ''rootfs''"
| "image_kind_as_str CloudImage = ''cloud-image''"

fun userdata_as_str :: "UserdataStatus \<Rightarrow> string" where
  "userdata_as_str UdPending = ''pending''"
| "userdata_as_str UdRunning = ''running''"
| "userdata_as_str UdCompleted = ''completed''"
| "userdata_as_str UdFailed = ''failed''"
| "userdata_as_str UdInterrupted = ''interrupted''"

fun network_as_str :: "NetworkMode \<Rightarrow> string" where
  "network_as_str Nat = ''nat''"
| "network_as_str Bridged = ''bridged''"
| "network_as_str Isolated = ''none''"

fun lifecycle_as_str :: "VmLifecycleState \<Rightarrow> string" where
  "lifecycle_as_str Creating = ''creating''"
| "lifecycle_as_str Running = ''running''"
| "lifecycle_as_str Paused = ''paused''"
| "lifecycle_as_str Stopped = ''stopped''"
| "lifecycle_as_str Failed = ''failed''"
| "lifecycle_as_str Suspending = ''suspending''"
| "lifecycle_as_str Suspended = ''suspended''"

text \<open>The parsers return the offending text on failure, as the \<open>Invalid...\<close> errors do.\<close>

definition backend_from_str :: "string \<Rightarrow> string + BackendKind" where
  "backend_from_str v =
     (if v = ''firecracker'' then Inr Firecracker
      else if v = ''qemu'' then Inr Qemu
      else if v = ''apple_vz'' then Inr AppleVz
      else Inl v)"

definition boot_from_str :: "string \<Rightarrow> string + BootKind" where
  "boot_from_str v =
     (if v = ''direct'' then Inr DirectKernel
      else if v = ''uefi'' then Inr Uefi
      else if v = ''efi'' then Inr Efi
      else if v = ''macos'' then Inr MacOs
      else Inl v)"

definition image_kind_from_str :: "string \<Rightarrow> string + ImageKind" where
  "image_kind_from_str v =
     (if v = ''rootfs'' then Inr Rootfs
      else if v = ''cloud-image'' then Inr CloudImage
      else Inl v)"

definition userdata_from_str :: "string \<Rightarrow> string + UserdataStatus" where
  "userdata_from_str v =
     (if v = ''pending'' then Inr UdPending
      else if v = ''running'' then Inr UdRunning
      else if v = ''completed'' then Inr UdCompleted
      else if v = ''failed'' then Inr UdFailed
      else if v = ''interrupted'' then Inr UdInterrupted
      else Inl v)"

definition network_from_str :: "string \<Rightarrow> string + NetworkMode" where
  "network_from_str v =
     (if v = ''nat'' then Inr Nat
      else if v = ''bridged'' then Inr Bridged
      else if v = ''none'' then Inr Isolated
      else Inl v)"

definition lifecycle_from_str :: "string \<Rightarrow> string + VmLifecycleState" where
  "lifecycle_from_str v =
     (if v = ''creating'' then Inr Creating
      else if v = ''running'' then Inr Running
      else if v = ''paused'' then Inr Paused
      else if v = ''stopped'' then Inr Stopped
      else if v = ''failed'' then Inr Failed
      else if v = ''suspending'' then Inr Suspending
      else if v = ''suspended'' then Inr Suspended
      else Inl v)"

subsection \<open>Classification\<close>

fun uses_firmware :: "BootKind \<Rightarrow> bool" where
  "uses_firmware Uefi = True"
| "uses_firmware Efi = True"
| "uses_firmware MacOs = True"
| "uses_firmware DirectKernel = False"

fun learns_guest_ip_from_agent :: "BootKind \<Rightarrow> bool" where
  "learns_guest_ip_from_agent Efi = True"
| "learns_guest_ip_from_agent MacOs = True"
| "learns_guest_ip_from_agent _ = False"

fun is_live :: "VmLifecycleState \<Rightarrow> bool" where
  "is_live Running = True"
| "is_live Paused = True"
| "is_live _ = False"

fun is_terminal :: "VmLifecycleState \<Rightarrow> bool" where
  "is_terminal Stopped = True"
| "is_terminal Failed = True"
| "is_terminal _ = False"

subsection \<open>The wire contract\<close>

locale wire_enum =
  fixes all_values :: "'a list"
    and as_str :: "'a \<Rightarrow> string"
    and from_str :: "string \<Rightarrow> string + 'a"
  assumes all_complete: "x \<in> set all_values"
    and parse_print: "from_str (as_str x) = Inr x"
    and print_parse: "from_str v = Inr x \<Longrightarrow> v = as_str x"
    and parse_error: "from_str v = Inl e \<Longrightarrow> e = v"
begin

lemma as_str_inj: "as_str x = as_str y \<longleftrightarrow> x = y"
  by (metis parse_print sum.inject(2))

lemma from_str_iff: "from_str v = Inr x \<longleftrightarrow> v = as_str x"
  using parse_print print_parse by blast

lemma known_iff: "(\<exists>x. from_str v = Inr x) \<longleftrightarrow> v \<in> as_str ` set all_values"
  using all_complete from_str_iff by (auto simp: image_iff)

lemma unknown_iff: "from_str v = Inl v \<longleftrightarrow> v \<notin> as_str ` set all_values"
  using known_iff parse_error by (metis sum.exhaust_sel sum.disc(2) sum.collapse(1) isl_def)

end

interpretation backend: wire_enum BackendKind_ALL backend_as_str backend_from_str
proof
  show "x \<in> set BackendKind_ALL" for x by (cases x) (auto simp: BackendKind_ALL_def)
  show "backend_from_str (backend_as_str x) = Inr x" for x
    by (cases x) (auto simp: backend_from_str_def)
qed (auto simp: backend_from_str_def split: if_splits)

interpretation boot: wire_enum BootKind_ALL boot_as_str boot_from_str
proof
  show "x \<in> set BootKind_ALL" for x by (cases x) (auto simp: BootKind_ALL_def)
  show "boot_from_str (boot_as_str x) = Inr x" for x
    by (cases x) (auto simp: boot_from_str_def)
qed (auto simp: boot_from_str_def split: if_splits)

interpretation image_kind: wire_enum ImageKind_ALL image_kind_as_str image_kind_from_str
proof
  show "x \<in> set ImageKind_ALL" for x by (cases x) (auto simp: ImageKind_ALL_def)
  show "image_kind_from_str (image_kind_as_str x) = Inr x" for x
    by (cases x) (auto simp: image_kind_from_str_def)
qed (auto simp: image_kind_from_str_def split: if_splits)

interpretation userdata: wire_enum UserdataStatus_ALL userdata_as_str userdata_from_str
proof
  show "x \<in> set UserdataStatus_ALL" for x by (cases x) (auto simp: UserdataStatus_ALL_def)
  show "userdata_from_str (userdata_as_str x) = Inr x" for x
    by (cases x) (auto simp: userdata_from_str_def)
qed (auto simp: userdata_from_str_def split: if_splits)

interpretation network: wire_enum NetworkMode_ALL network_as_str network_from_str
proof
  show "x \<in> set NetworkMode_ALL" for x by (cases x) (auto simp: NetworkMode_ALL_def)
  show "network_from_str (network_as_str x) = Inr x" for x
    by (cases x) (auto simp: network_from_str_def)
qed (auto simp: network_from_str_def split: if_splits)

interpretation lifecycle: wire_enum VmLifecycleState_ALL lifecycle_as_str lifecycle_from_str
proof
  show "x \<in> set VmLifecycleState_ALL" for x by (cases x) (auto simp: VmLifecycleState_ALL_def)
  show "lifecycle_from_str (lifecycle_as_str x) = Inr x" for x
    by (cases x) (auto simp: lifecycle_from_str_def)
qed (auto simp: lifecycle_from_str_def split: if_splits)

lemmas wire_round_trips [simp] =
  backend.parse_print boot.parse_print image_kind.parse_print userdata.parse_print
  network.parse_print lifecycle.parse_print

lemmas wire_inj [simp] =
  backend.as_str_inj boot.as_str_inj image_kind.as_str_inj userdata.as_str_inj
  network.as_str_inj lifecycle.as_str_inj

text \<open>Comparisons of a printed lifecycle state or userdata status with a literal.\<close>

lemma lifecycle_as_str_eq [simp]:
  "lifecycle_as_str s = ''creating'' \<longleftrightarrow> s = Creating"
  "lifecycle_as_str s = ''running'' \<longleftrightarrow> s = Running"
  "lifecycle_as_str s = ''paused'' \<longleftrightarrow> s = Paused"
  "lifecycle_as_str s = ''stopped'' \<longleftrightarrow> s = Stopped"
  "lifecycle_as_str s = ''failed'' \<longleftrightarrow> s = Failed"
  "lifecycle_as_str s = ''suspending'' \<longleftrightarrow> s = Suspending"
  "lifecycle_as_str s = ''suspended'' \<longleftrightarrow> s = Suspended"
  by (cases s; simp)+

lemma userdata_as_str_eq [simp]:
  "userdata_as_str s = ''pending'' \<longleftrightarrow> s = UdPending"
  "userdata_as_str s = ''running'' \<longleftrightarrow> s = UdRunning"
  "userdata_as_str s = ''completed'' \<longleftrightarrow> s = UdCompleted"
  "userdata_as_str s = ''failed'' \<longleftrightarrow> s = UdFailed"
  "userdata_as_str s = ''interrupted'' \<longleftrightarrow> s = UdInterrupted"
  by (cases s; simp)+

end
