(* ===== verification/Store_Schema.thy ===== *)
theory Store_Schema
  imports Husker_Types
begin

text \<open>
  The data of \<open>crates/husker-state/src/lib.rs\<close>: the records of the store, the error type, the
  tables with the column types SQLite gives them, and the conversions between records and rows.

  A record that is stored in another form than it is used in (text for an enumeration, a
  signed 64-bit integer for a \<open>u64\<close>) is one polymorphic \<open>record\<close> type, used at the Rust
  types for the record and at the column types for the row. The text forms of a UUID and of a
  timestamp are those of the \<open>uuid\<close> and \<open>chrono\<close> crates: such a column holds the value itself.
\<close>

subsection \<open>Errors\<close>

text \<open>
  The errors of \<open>rusqlite\<close> the code tells apart. A constraint failure carries SQLite's message,
  on which the code matches: \<open>UNIQUE constraint failed: table.column\<close>, the text of a trigger's
  \<open>RAISE(ABORT, ...)\<close>, and so on.
\<close>

datatype sql_error =
  ConstraintViolation string
| QueryReturnedNoRows
| IntegralValueOutOfRange nat int
| FromSqlConversionFailure nat
| InvalidColumnType nat
| InvalidQuery

datatype StateError =
  Database sql_error
| VmNotFound Uuid
| VmNotFoundByName string
| VmAlreadyExists string
| HostGroupNotFound Uuid
| HostGroupNotFoundByName string
| HostGroupAlreadyExists string
| ServiceNotFound Uuid
| ServiceNotFoundByName string
| ServiceAlreadyExists string
| PoolNotFoundByName string
| PoolNotFound Uuid
| PoolAlreadyExists string
| PoolTemplateUnavailable string Uuid
| PoolTemplateOwned Uuid string
| PoolTemplateMismatch Uuid Uuid
| SnapshotNotFound Uuid
| SnapshotNotFoundByName string
| SnapshotAlreadyExists string
| ImageNotFound Uuid
| ImageNotFoundByName string
| ImageAlreadyExists string
| SecretNotFound Uuid
| SecretNotFoundByName string
| SecretAlreadyExists string
| VolumeNotFound Uuid
| VolumeNotFoundByName string
| VolumeAlreadyExists string
| VolumeAttached string string
| PortAlreadyForwarded u16
| HostResourcesLeased string
| HostResourceLeaseNotFound Uuid
| HostResourceLeaseMismatch Uuid
| VmExpirationMismatch Uuid
| CorruptData string
| SchemaNewerThanBinary u32 u32

subsection \<open>Records\<close>

record ('state, 'userdata, 'vmm, 'boot, 'net, 'secs, 'w, 'flag, 'last) vm =
  vm_id :: Uuid
  vm_name :: string
  vm_state :: 'state
  vm_pid :: "'w option"
  vm_vcpu_count :: 'w
  vm_mem_size_mib :: 'w
  vm_vsock_cid :: 'w
  vm_tap_device :: "string option"
  vm_host_ip :: "string option"
  vm_guest_ip :: "string option"
  vm_kernel_path :: string
  vm_rootfs_path :: string
  vm_created_at :: DateTime
  vm_updated_at :: DateTime
  vm_userdata :: "string option"
  vm_userdata_status :: "'userdata option"
  vm_userdata_env :: "string option"
  vm_service_id :: "Uuid option"
  vm_service_ordinal :: "'w option"
  vm_vmm :: 'vmm
  vm_boot_mode :: 'boot
  vm_balloon :: 'flag
  vm_volume :: "string option"
  vm_network :: 'net
  vm_egress_policy :: "string option"
  vm_last_activity_at :: 'last
  vm_suspended_at :: "DateTime option"
  vm_idle_timeout_secs :: "'secs option"
  vm_suspend_ttl_secs :: "'secs option"
  vm_auto_resume :: 'flag
  vm_forked_from :: "Uuid option"

type_synonym VmRecord =
  "(VmLifecycleState, UserdataStatus, BackendKind, BootKind, NetworkMode, u64, u32, bool,
    DateTime) vm"

type_synonym vm_row =
  "(string, string, string, string, string, int, int, int, DateTime option) vm"

record 't expiration =
  exp_vm_id :: Uuid
  exp_owner :: "string option"
  exp_expires_at :: 't

type_synonym VmExpirationRecord = "DateTime expiration"
type_synonym expiration_row = "int expiration"

record 'port port_forward =
  pf_id :: int
  pf_vm_id :: Uuid
  pf_host_port :: 'port
  pf_guest_port :: 'port
  pf_protocol :: string
  pf_bind_addr :: "string option"
  pf_created_at :: DateTime

type_synonym PortForwardRecord = "u16 port_forward"
type_synonym port_forward_row = "int port_forward"

record VmCounts =
  total :: nat
  running :: nat

record 'w lease =
  lease_id :: Uuid
  lease_vm_name :: string
  lease_vsock_cid :: 'w
  lease_tap_device :: "string option"
  lease_guest_ip :: "string option"
  lease_created_at :: DateTime
  lease_vm_id :: "Uuid option"
  lease_backend_entered :: bool
  lease_vm_destroyed :: bool
  lease_allocation_aborted :: bool

type_synonym HostResourceLease = "u32 lease"
type_synonym lease_row = "int lease"

record HostGroupRecord =
  hg_id :: Uuid
  hg_name :: string
  hg_description :: "string option"
  hg_created_at :: DateTime
  hg_updated_at :: DateTime

record ('w, 'size, 'flag) service =
  svc_id :: Uuid
  svc_name :: string
  svc_host_group_id :: "Uuid option"
  svc_desired_instances :: 'w
  svc_image :: "string option"
  svc_kernel_path :: string
  svc_rootfs_path :: string
  svc_initrd_path :: "string option"
  svc_vcpu_count :: "'w option"
  svc_mem_size_mib :: "'w option"
  svc_userdata :: "string option"
  svc_userdata_env :: "string option"
  svc_created_at :: DateTime
  svc_updated_at :: DateTime
  svc_cloud_image :: "string option"
  svc_disk_size :: "'size option"
  svc_balloon :: 'flag
  svc_volume :: "string option"

type_synonym ServiceRecord = "(u32, u64, bool) service"
type_synonym service_row = "(int, int, int) service"

record 'w pool =
  pool_id :: Uuid
  pool_name :: string
  pool_template_vm_id :: Uuid
  pool_rootfs_path :: string
  pool_kernel_path :: string
  pool_initrd_path :: "string option"
  pool_vcpu_count :: "'w option"
  pool_mem_size_mib :: "'w option"
  pool_created_at :: DateTime
  pool_updated_at :: DateTime

type_synonym PoolRecord = "u32 pool"
type_synonym pool_row = "int pool"

record SnapshotRecord =
  snap_id :: Uuid
  snap_name :: string
  snap_source_vm_name :: string
  snap_file_path :: string
  snap_created_at :: DateTime

record ('kind, 'size) image =
  img_id :: Uuid
  img_name :: string
  img_source_path :: string
  img_file_path :: string
  img_format :: string
  img_kind :: 'kind
  img_boot_init :: "string option"
  img_content_digest :: "string option"
  img_parent_image :: "string option"
  img_size_bytes :: 'size
  img_created_at :: DateTime

type_synonym ImageRecord = "(ImageKind, u64) image"
type_synonym image_row = "(string, int) image"

record SecretRecord =
  sec_id :: Uuid
  sec_name :: string
  sec_ciphertext :: bytes
  sec_nonce :: bytes
  sec_created_at :: DateTime
  sec_updated_at :: DateTime

record 'size volume =
  vol_id :: Uuid
  vol_name :: string
  vol_file_path :: string
  vol_size_bytes :: 'size
  vol_created_at :: DateTime

type_synonym VolumeRecord = "u64 volume"
type_synonym volume_row = "int volume"

record boot_epoch_row =
  epoch_lease_id :: Uuid
  epoch_host_id :: Uuid
  epoch_boot_id :: Uuid
  epoch_confirmed :: bool

text \<open>
  The three tables of the execution journal (\<open>crates/husker-state/src/jobs.rs\<close>). The
  \<open>state\<close> column also holds \<open>deleted\<close>, the tombstone, which is no \<open>JobState\<close>.
\<close>

record job_row =
  job_id :: Uuid
  job_submission_key :: string
  job_spec_digest :: string
  job_specification :: "string option"
  job_state :: string
  job_created_at :: int
  job_deadline :: int
  job_retention_until :: int
  job_vm_id :: "Uuid option"
  job_vm_name :: "string option"
  job_session_id :: Uuid
  job_capture_cursor :: nat
  job_retained_bytes :: nat
  job_output_truncated :: bool
  job_collection :: string
  job_manifest :: "string option"
  job_cleanup_pending :: bool
  job_vm_destroyed :: bool
  job_vm_allocation_aborted :: bool

record event_row =
  ev_job_id :: Uuid
  ev_sequence :: nat
  ev_stream :: string
  ev_digest :: string
  ev_data :: "bytes option"

record artifact_row =
  art_job_id :: Uuid
  art_index :: nat
  art_path :: string
  art_digest :: string
  art_data :: bytes

subsection \<open>The database\<close>

text \<open>
  One field per table, rows in insertion order. \<open>cid_allocator\<close> has the single row that
  \<open>migrate\<close> creates; \<open>ordinal_index\<close> says whether \<open>create_service_ordinal_index\<close> has run.
\<close>

record db =
  vms :: "vm_row list"
  next_cid :: int
  freed_cids :: "int list"
  port_forwards :: "port_forward_row list"
  next_port_forward_id :: int
  host_groups :: "HostGroupRecord list"
  services :: "service_row list"
  pools :: "pool_row list"
  snapshots :: "SnapshotRecord list"
  images :: "image_row list"
  secrets :: "SecretRecord list"
  volumes :: "volume_row list"
  leases :: "lease_row list"
  expirations :: "expiration_row list"
  boot_epochs :: "boot_epoch_row list"
  jobs :: "job_row list"
  job_events :: "event_row list"
  job_artifacts :: "artifact_row list"
  ordinal_index :: bool

definition fresh_db :: db where
  "fresh_db = \<lparr>vms = [], next_cid = 3, freed_cids = [], port_forwards = [],
     next_port_forward_id = 1, host_groups = [], services = [], pools = [], snapshots = [],
     images = [], secrets = [], volumes = [], leases = [], expirations = [], boot_epochs = [],
     jobs = [], job_events = [], job_artifacts = [], ordinal_index = False\<rparr>"

lemma fresh_db_simps [simp]:
  "vms fresh_db = []" "next_cid fresh_db = 3" "freed_cids fresh_db = []"
  "port_forwards fresh_db = []" "next_port_forward_id fresh_db = 1" "host_groups fresh_db = []"
  "services fresh_db = []" "pools fresh_db = []" "snapshots fresh_db = []"
  "images fresh_db = []" "secrets fresh_db = []" "volumes fresh_db = []" "leases fresh_db = []"
  "expirations fresh_db = []" "boot_epochs fresh_db = []" "jobs fresh_db = []"
  "job_events fresh_db = []" "job_artifacts fresh_db = []" "ordinal_index fresh_db = False"
  by (simp_all add: fresh_db_def)

subsection \<open>Records to rows and back\<close>

definition int_of_bool :: "bool \<Rightarrow> int" where
  "int_of_bool b = (if b then 1 else 0)"

lemma int_of_bool_neq_0 [simp]: "int_of_bool b \<noteq> 0 \<longleftrightarrow> b"
  by (simp add: int_of_bool_def)

lemma map_as_u64_as_i64 [simp]: "map_option as_u64 (map_option as_i64 x) = x"
  by (cases x) simp_all

text \<open>\<open>row.get::<_, u32>(i)\<close> and \<open>u64::try_from\<close> on a column value.\<close>

definition get_u32 :: "nat \<Rightarrow> int \<Rightarrow> sql_error + u32" where
  "get_u32 i v = ok_or (IntegralValueOutOfRange i v) (try_u32 v)"

definition get_u64 :: "nat \<Rightarrow> int \<Rightarrow> sql_error + u64" where
  "get_u64 i v = ok_or (IntegralValueOutOfRange i v) (try_u64 v)"

lemma get_u32_uint [simp]: "get_u32 i (uint w) = Inr w"
  by (simp add: get_u32_def)

lemma traverse_get_u32 [simp]: "traverse_option (get_u32 i) (map_option uint w) = Inr w"
  by (rule traverse_option_map) simp

definition vm_to_row :: "VmRecord \<Rightarrow> vm_row" where
  "vm_to_row r =
    \<lparr>vm_id = vm_id r, vm_name = vm_name r, vm_state = lifecycle_as_str (vm_state r),
     vm_pid = map_option uint (vm_pid r), vm_vcpu_count = uint (vm_vcpu_count r),
     vm_mem_size_mib = uint (vm_mem_size_mib r), vm_vsock_cid = uint (vm_vsock_cid r),
     vm_tap_device = vm_tap_device r, vm_host_ip = vm_host_ip r, vm_guest_ip = vm_guest_ip r,
     vm_kernel_path = vm_kernel_path r, vm_rootfs_path = vm_rootfs_path r,
     vm_created_at = vm_created_at r, vm_updated_at = vm_updated_at r,
     vm_userdata = vm_userdata r,
     vm_userdata_status = map_option userdata_as_str (vm_userdata_status r),
     vm_userdata_env = vm_userdata_env r, vm_service_id = vm_service_id r,
     vm_service_ordinal = map_option uint (vm_service_ordinal r),
     vm_vmm = backend_as_str (vm_vmm r), vm_boot_mode = boot_as_str (vm_boot_mode r),
     vm_balloon = int_of_bool (vm_balloon r), vm_volume = vm_volume r,
     vm_network = network_as_str (vm_network r), vm_egress_policy = vm_egress_policy r,
     vm_last_activity_at = Some (vm_last_activity_at r), vm_suspended_at = vm_suspended_at r,
     vm_idle_timeout_secs = map_option as_i64 (vm_idle_timeout_secs r),
     vm_suspend_ttl_secs = map_option as_i64 (vm_suspend_ttl_secs r),
     vm_auto_resume = int_of_bool (vm_auto_resume r), vm_forked_from = vm_forked_from r\<rparr>"

text \<open>A text column parsed by \<open>from_str\<close>; the error names the column.\<close>

definition get_enum :: "nat \<Rightarrow> (string \<Rightarrow> string + 'a) \<Rightarrow> string \<Rightarrow> sql_error + 'a" where
  "get_enum i parse v =
     (case parse v of Inl _ \<Rightarrow> Inl (FromSqlConversionFailure i) | Inr x \<Rightarrow> Inr x)"

definition parse_backend_kind :: "string \<Rightarrow> sql_error + BackendKind" where
  "parse_backend_kind = get_enum 19 backend_from_str"

definition parse_network_mode :: "string \<Rightarrow> sql_error + NetworkMode" where
  "parse_network_mode = get_enum 23 network_from_str"

definition parse_boot_kind :: "string \<Rightarrow> sql_error + BootKind" where
  "parse_boot_kind = get_enum 20 boot_from_str"

definition parse_userdata_status :: "string \<Rightarrow> sql_error + UserdataStatus" where
  "parse_userdata_status = get_enum 15 userdata_from_str"

definition row_to_vm_record :: "vm_row \<Rightarrow> sql_error + VmRecord" where
  "row_to_vm_record row =
    and_then (get_enum 2 lifecycle_from_str (vm_state row)) (\<lambda>state.
    and_then (traverse_option (get_u32 3) (vm_pid row)) (\<lambda>pid.
    and_then (get_u32 4 (vm_vcpu_count row)) (\<lambda>vcpus.
    and_then (get_u32 5 (vm_mem_size_mib row)) (\<lambda>mem.
    and_then (get_u32 6 (vm_vsock_cid row)) (\<lambda>cid.
    and_then (traverse_option parse_userdata_status (vm_userdata_status row)) (\<lambda>status.
    and_then (traverse_option
        (\<lambda>v. ok_or (FromSqlConversionFailure 18) (try_u32 v)) (vm_service_ordinal row)) (\<lambda>ordinal.
    and_then (parse_backend_kind (vm_vmm row)) (\<lambda>vmm.
    and_then (parse_boot_kind (vm_boot_mode row)) (\<lambda>boot.
    and_then (parse_network_mode (vm_network row)) (\<lambda>net.
    Inr \<lparr>vm_id = vm_id row, vm_name = vm_name row, vm_state = state, vm_pid = pid,
      vm_vcpu_count = vcpus, vm_mem_size_mib = mem, vm_vsock_cid = cid,
      vm_tap_device = vm_tap_device row, vm_host_ip = vm_host_ip row,
      vm_guest_ip = vm_guest_ip row, vm_kernel_path = vm_kernel_path row,
      vm_rootfs_path = vm_rootfs_path row, vm_created_at = vm_created_at row,
      vm_updated_at = vm_updated_at row, vm_userdata = vm_userdata row,
      vm_userdata_status = status, vm_userdata_env = vm_userdata_env row,
      vm_service_id = vm_service_id row, vm_service_ordinal = ordinal, vm_vmm = vmm,
      vm_boot_mode = boot, vm_balloon = (vm_balloon row \<noteq> 0), vm_volume = vm_volume row,
      vm_network = net, vm_egress_policy = vm_egress_policy row,
      vm_last_activity_at =
        (case vm_last_activity_at row of Some t \<Rightarrow> t | None \<Rightarrow> vm_created_at row),
      vm_suspended_at = vm_suspended_at row,
      vm_idle_timeout_secs = map_option as_u64 (vm_idle_timeout_secs row),
      vm_suspend_ttl_secs = map_option as_u64 (vm_suspend_ttl_secs row),
      vm_auto_resume = (vm_auto_resume row \<noteq> 0),
      vm_forked_from = vm_forked_from row\<rparr>))))))))))"

lemma row_to_vm_record_vm_to_row: "row_to_vm_record (vm_to_row r) = Inr r"
  by (cases r) (simp add: row_to_vm_record_def vm_to_row_def get_enum_def
      parse_userdata_status_def parse_backend_kind_def parse_boot_kind_def
      parse_network_mode_def traverse_option_map)

definition lease_to_row :: "HostResourceLease \<Rightarrow> lease_row" where
  "lease_to_row l =
    \<lparr>lease_id = lease_id l, lease_vm_name = lease_vm_name l,
     lease_vsock_cid = uint (lease_vsock_cid l), lease_tap_device = lease_tap_device l,
     lease_guest_ip = lease_guest_ip l, lease_created_at = lease_created_at l,
     lease_vm_id = lease_vm_id l, lease_backend_entered = lease_backend_entered l,
     lease_vm_destroyed = lease_vm_destroyed l,
     lease_allocation_aborted = lease_allocation_aborted l\<rparr>"

definition row_to_lease :: "lease_row \<Rightarrow> sql_error + HostResourceLease" where
  "row_to_lease row =
    and_then (get_u32 2 (lease_vsock_cid row)) (\<lambda>cid.
    Inr \<lparr>lease_id = lease_id row, lease_vm_name = lease_vm_name row, lease_vsock_cid = cid,
      lease_tap_device = lease_tap_device row, lease_guest_ip = lease_guest_ip row,
      lease_created_at = lease_created_at row, lease_vm_id = lease_vm_id row,
      lease_backend_entered = lease_backend_entered row,
      lease_vm_destroyed = lease_vm_destroyed row,
      lease_allocation_aborted = lease_allocation_aborted row\<rparr>)"

lemma row_to_lease_lease_to_row: "row_to_lease (lease_to_row l) = Inr l"
  by (simp add: row_to_lease_def lease_to_row_def)

end
