(* ===== verification/Store_Sql.thy ===== *)
theory Store_Sql
  imports Store_Schema
begin

text \<open>
  The SQL statements the store issues, with the schema's constraints and triggers in force at
  the supported version (\<open>MIGRATIONS\<close> and \<open>migrate\<close> in \<open>crates/husker-state/src/lib.rs\<close>, the
  \<open>SCHEMA\<close> constants of \<open>jobs.rs\<close> and \<open>boot_epoch.rs\<close>).

  A statement first evaluates its \<open>BEFORE\<close> triggers, then the uniqueness, foreign-key and
  \<open>CHECK\<close> constraints of the table it would leave; if any is violated it fails with a
  constraint error and changes nothing. Which violated constraint the error reports is the
  database engine's choice and a parameter, the \<open>reporter\<close>. Foreign-key actions (cascade, set
  null) run after the parent row is gone.

  \<open>store_ok\<close> is what the schema promises of every state; each statement keeps it.
\<close>

type_synonym reporter = "string list \<Rightarrow> string"

text \<open>All that is assumed of the engine's choice: it reports one of the violated constraints.\<close>

definition reports_violated :: "reporter \<Rightarrow> bool" where
  "reports_violated rep \<longleftrightarrow> (\<forall>bad. bad \<noteq> [] \<longrightarrow> rep bad \<in> set bad)"

type_synonym 'a stmt = "(db, sql_error, 'a) op"

definition raised :: "(bool \<times> string) list \<Rightarrow> string list" where
  "raised cs = map snd (filter fst cs)"

lemma raised_simps [simp]:
  "raised [] = []"
  "raised ((b, m) # cs) = (if b then m # raised cs else raised cs)"
  "raised (cs @ cs') = raised cs @ raised cs'"
  by (simp_all add: raised_def)

lemma raised_concat_Nil [simp]:
  "raised (concat css) = [] \<longleftrightarrow> (\<forall>cs \<in> set css. raised cs = [])"
  by (induction css) auto

definition statement ::
  "reporter \<Rightarrow> (db \<Rightarrow> (bool \<times> string) list) \<Rightarrow> (db \<Rightarrow> (bool \<times> string) list)
    \<Rightarrow> (db \<Rightarrow> 'a) \<Rightarrow> (db \<Rightarrow> db) \<Rightarrow> 'a stmt" where
  "statement rep triggers constraints result effect = (\<lambda>d.
     if raised (triggers d) \<noteq> []
       then (Inl (ConstraintViolation (rep (raised (triggers d)))), d)
     else if raised (constraints d) \<noteq> []
       then (Inl (ConstraintViolation (rep (raised (constraints d)))), d)
     else (Inr (result d), effect d))"

lemma within_statement:
  assumes "\<And>d. R d d"
    and "\<And>d. raised (triggers d) = [] \<Longrightarrow> raised (constraints d) = [] \<Longrightarrow> R d (effect d)"
  shows "within R (statement rep triggers constraints result effect)"
  using assms by (simp add: within_def statement_def)

lemma statement_Inr:
  "statement rep tr cs res eff d = (Inr x, d') \<longleftrightarrow>
    raised (tr d) = [] \<and> raised (cs d) = [] \<and> x = res d \<and> d' = eff d"
  by (auto simp: statement_def)

lemma statement_Inl:
  "statement rep tr cs res eff d = (Inl e, d') \<Longrightarrow> d' = d \<and> (\<exists>m. e = ConstraintViolation m)"
  by (auto simp: statement_def split: if_splits)

subsection \<open>SQL truth values\<close>

text \<open>A comparison with NULL is unknown; a trigger fires only when its condition is true.\<close>

type_synonym sql_bool = "bool option"

fun sql_not :: "sql_bool \<Rightarrow> sql_bool" where
  "sql_not None = None"
| "sql_not (Some b) = Some (\<not> b)"

fun sql_and :: "sql_bool \<Rightarrow> sql_bool \<Rightarrow> sql_bool" where
  "sql_and (Some False) _ = Some False"
| "sql_and _ (Some False) = Some False"
| "sql_and (Some True) (Some True) = Some True"
| "sql_and _ _ = None"

fun sql_or :: "sql_bool \<Rightarrow> sql_bool \<Rightarrow> sql_bool" where
  "sql_or (Some True) _ = Some True"
| "sql_or _ (Some True) = Some True"
| "sql_or (Some False) (Some False) = Some False"
| "sql_or _ _ = None"

definition sql_in :: "string option \<Rightarrow> string list \<Rightarrow> sql_bool" where
  "sql_in v vs = map_option (\<lambda>x. x \<in> set vs) v"

subsection \<open>Table \<open>vms\<close>\<close>

definition known_states :: "string list" where
  "known_states = [''creating'', ''running'', ''paused'', ''stopped'', ''failed'',
     ''suspending'', ''suspended'']"

definition known_backends :: "string list" where
  "known_backends = [''firecracker'', ''qemu'', ''apple_vz'']"

definition known_networks :: "string list" where
  "known_networks = [''nat'', ''bridged'', ''none'']"

definition known_boot_kinds :: "string list" where
  "known_boot_kinds = [''direct'', ''uefi'', ''efi'', ''macos'']"

definition known_userdata :: "string list" where
  "known_userdata = [''pending'', ''running'', ''completed'', ''failed'', ''interrupted'']"

definition userdata_unknown :: "string option \<Rightarrow> bool" where
  "userdata_unknown s = (case s of None \<Rightarrow> False | Some v \<Rightarrow> v \<notin> set known_userdata)"

definition volume_missing :: "volume_row list \<Rightarrow> string option \<Rightarrow> bool" where
  "volume_missing vols v =
     (case v of None \<Rightarrow> False | Some n \<Rightarrow> \<not> (\<exists>r \<in> set vols. vol_name r = n))"

definition vm_insert_triggers :: "db \<Rightarrow> vm_row \<Rightarrow> (bool \<times> string) list" where
  "vm_insert_triggers d r =
    [(volume_missing (volumes d) (vm_volume r), ''attached volume does not exist''),
     (vm_state r \<notin> set known_states, ''unknown VM lifecycle state''),
     (vm_vmm r \<notin> set known_backends, ''unknown VM backend kind''),
     (vm_network r \<notin> set known_networks, ''unknown VM network mode''),
     (userdata_unknown (vm_userdata_status r), ''unknown userdata status''),
     (vm_boot_mode r \<notin> set known_boot_kinds, ''unknown VM boot kind'')]"

text \<open>
  Migration 12's \<open>vm_userdata_status_transition_must_be_valid\<close>, in SQL's three-valued logic.
\<close>

definition userdata_transition_invalid :: "string option \<Rightarrow> string option \<Rightarrow> bool" where
  "userdata_transition_invalid old new =
     (sql_and (Some (new \<noteq> old))
       (sql_and (if new = None then Some True else sql_in new known_userdata)
       (sql_and (if old = None then Some True else sql_in old known_userdata)
         (sql_not (sql_or
            (sql_and (sql_in old [''pending'']) (sql_in new [''running'', ''interrupted'']))
            (sql_and (sql_in old [''running''])
               (sql_in new [''pending'', ''completed'', ''failed'', ''interrupted'']))))))
      = Some True)"

definition has_template :: "pool_row list \<Rightarrow> Uuid \<Rightarrow> bool" where
  "has_template ps i \<longleftrightarrow> (\<exists>p \<in> set ps. pool_template_vm_id p = i)"

text \<open>\<open>cols\<close> are the columns the statement's \<open>SET\<close> names, which decide the triggers that fire.\<close>

definition vm_update_triggers ::
  "string list \<Rightarrow> db \<Rightarrow> vm_row \<Rightarrow> vm_row \<Rightarrow> (bool \<times> string) list" where
  "vm_update_triggers cols d old new =
     (if ''volume'' \<in> set cols
      then [(volume_missing (volumes d) (vm_volume new), ''attached volume does not exist'')]
      else [])
   @ (if ''state'' \<in> set cols
      then [(vm_state new \<noteq> ''suspended'' \<and> has_template (pools d) (vm_id old),
               ''pool template state is immutable''),
            (vm_state new \<notin> set known_states, ''unknown VM lifecycle state'')]
      else [])
   @ (if ''vmm'' \<in> set cols
      then [(vm_vmm new \<notin> set known_backends, ''unknown VM backend kind'')] else [])
   @ (if ''network'' \<in> set cols
      then [(vm_network new \<notin> set known_networks, ''unknown VM network mode'')] else [])
   @ (if ''boot_mode'' \<in> set cols
      then [(vm_boot_mode new \<notin> set known_boot_kinds, ''unknown VM boot kind'')] else [])
   @ (if ''userdata_status'' \<in> set cols
      then [(userdata_unknown (vm_userdata_status new), ''unknown userdata status''),
            (userdata_transition_invalid (vm_userdata_status old) (vm_userdata_status new),
               ''invalid userdata status transition'')]
      else [])"

definition ordinal_key :: "vm_row \<Rightarrow> (Uuid \<times> int) option" where
  "ordinal_key r =
     (case vm_service_id r of None \<Rightarrow> None
      | Some s \<Rightarrow> map_option (Pair s) (vm_service_ordinal r))"

definition vms_constraints :: "bool \<Rightarrow> vm_row list \<Rightarrow> (bool \<times> string) list" where
  "vms_constraints ordinal t =
    [(\<not> unique_on vm_id t, ''UNIQUE constraint failed: vms.id''),
     (\<not> unique_on vm_name t, ''UNIQUE constraint failed: vms.name''),
     (\<not> unique_some vm_volume t, ''UNIQUE constraint failed: vms.volume''),
     (ordinal \<and> \<not> unique_some ordinal_key t,
        ''UNIQUE constraint failed: vms.service_id, vms.service_ordinal'')]"

definition sql_insert_vms :: "reporter \<Rightarrow> vm_row \<Rightarrow> unit stmt" where
  "sql_insert_vms rep r = statement rep
     (\<lambda>d. vm_insert_triggers d r)
     (\<lambda>d. vms_constraints (ordinal_index d) (vms d @ [r]))
     (\<lambda>_. ()) (\<lambda>d. d\<lparr>vms := vms d @ [r]\<rparr>)"

definition sql_update_vms ::
  "reporter \<Rightarrow> string list \<Rightarrow> (vm_row \<Rightarrow> bool) \<Rightarrow> (vm_row \<Rightarrow> vm_row) \<Rightarrow> nat stmt" where
  "sql_update_vms rep cols P f = statement rep
     (\<lambda>d. concat (map (\<lambda>r. vm_update_triggers cols d r (f r)) (filter P (vms d))))
     (\<lambda>d. vms_constraints (ordinal_index d) (update_rows P f (vms d)))
     (\<lambda>d. count_rows P (vms d)) (\<lambda>d. d\<lparr>vms := update_rows P f (vms d)\<rparr>)"

text \<open>\<open>port_forwards\<close> and \<open>vm_expirations\<close> cascade.\<close>

definition sql_delete_vms :: "reporter \<Rightarrow> (vm_row \<Rightarrow> bool) \<Rightarrow> nat stmt" where
  "sql_delete_vms rep P = statement rep
     (\<lambda>d. [(\<exists>r \<in> set (vms d). P r \<and> has_template (pools d) (vm_id r),
             ''pool template cannot be deleted'')])
     (\<lambda>_. [])
     (\<lambda>d. count_rows P (vms d))
     (\<lambda>d. let gone = vm_id ` set (filter P (vms d)) in
        d\<lparr>vms := delete_rows P (vms d),
          port_forwards := delete_rows (\<lambda>p. pf_vm_id p \<in> gone) (port_forwards d),
          expirations := delete_rows (\<lambda>e. exp_vm_id e \<in> gone) (expirations d)\<rparr>)"

definition sql_create_ordinal_index :: "reporter \<Rightarrow> unit stmt" where
  "sql_create_ordinal_index rep = statement rep (\<lambda>_. [])
     (\<lambda>d. [(\<not> ordinal_index d \<and> \<not> unique_some ordinal_key (vms d),
            ''UNIQUE constraint failed: vms.service_id, vms.service_ordinal'')])
     (\<lambda>_. ()) (\<lambda>d. d\<lparr>ordinal_index := True\<rparr>)"

definition sql_insert_expirations :: "reporter \<Rightarrow> expiration_row \<Rightarrow> unit stmt" where
  "sql_insert_expirations rep e = statement rep (\<lambda>_. [])
     (\<lambda>d. [(\<not> unique_on exp_vm_id (expirations d @ [e]),
              ''UNIQUE constraint failed: vm_expirations.vm_id''),
           (exp_vm_id e \<notin> vm_id ` set (vms d), ''FOREIGN KEY constraint failed'')])
     (\<lambda>_. ()) (\<lambda>d. d\<lparr>expirations := expirations d @ [e]\<rparr>)"

subsection \<open>Table \<open>port_forwards\<close>\<close>

text \<open>The key is assigned by \<open>AUTOINCREMENT\<close>.\<close>

definition sql_insert_port_forwards :: "reporter \<Rightarrow> port_forward_row \<Rightarrow> unit stmt" where
  "sql_insert_port_forwards rep p = statement rep (\<lambda>_. [])
     (\<lambda>d. [(\<not> unique_on pf_host_port (port_forwards d @ [p]),
              ''UNIQUE constraint failed: port_forwards.host_port''),
           (pf_vm_id p \<notin> vm_id ` set (vms d), ''FOREIGN KEY constraint failed'')])
     (\<lambda>_. ())
     (\<lambda>d. d\<lparr>port_forwards := port_forwards d @ [p\<lparr>pf_id := next_port_forward_id d\<rparr>],
            next_port_forward_id := next_port_forward_id d + 1\<rparr>)"

definition sql_delete_port_forwards :: "(port_forward_row \<Rightarrow> bool) \<Rightarrow> unit stmt" where
  "sql_delete_port_forwards P = (\<lambda>d. (Inr (), d\<lparr>port_forwards := delete_rows P (port_forwards d)\<rparr>))"

subsection \<open>Tables \<open>host_groups\<close> and \<open>services\<close>\<close>

definition sql_insert_host_groups :: "reporter \<Rightarrow> HostGroupRecord \<Rightarrow> unit stmt" where
  "sql_insert_host_groups rep r = statement rep (\<lambda>_. [])
     (\<lambda>d. [(\<not> unique_on hg_id (host_groups d @ [r]), ''UNIQUE constraint failed: host_groups.id''),
           (\<not> unique_on hg_name (host_groups d @ [r]), ''UNIQUE constraint failed: host_groups.name'')])
     (\<lambda>_. ()) (\<lambda>d. d\<lparr>host_groups := host_groups d @ [r]\<rparr>)"

text \<open>Deleting a host group sets the reference of its services to NULL.\<close>

definition sql_delete_host_groups :: "(HostGroupRecord \<Rightarrow> bool) \<Rightarrow> nat stmt" where
  "sql_delete_host_groups P = (\<lambda>d.
     let gone = hg_id ` set (filter P (host_groups d)) in
     (Inr (count_rows P (host_groups d)),
      d\<lparr>host_groups := delete_rows P (host_groups d),
        services := update_rows (\<lambda>s. \<exists>g. svc_host_group_id s = Some g \<and> g \<in> gone)
          (\<lambda>s. s\<lparr>svc_host_group_id := None\<rparr>) (services d)\<rparr>))"

definition sql_insert_services :: "reporter \<Rightarrow> service_row \<Rightarrow> unit stmt" where
  "sql_insert_services rep r = statement rep (\<lambda>_. [])
     (\<lambda>d. [(\<not> unique_on svc_id (services d @ [r]), ''UNIQUE constraint failed: services.id''),
           (\<not> unique_on svc_name (services d @ [r]), ''UNIQUE constraint failed: services.name''),
           (\<not> set_option (svc_host_group_id r) \<subseteq> hg_id ` set (host_groups d),
              ''FOREIGN KEY constraint failed'')])
     (\<lambda>_. ()) (\<lambda>d. d\<lparr>services := services d @ [r]\<rparr>)"

text \<open>The one update of a service sets no constrained column.\<close>

definition sql_update_services :: "(service_row \<Rightarrow> bool) \<Rightarrow> (service_row \<Rightarrow> service_row) \<Rightarrow> nat stmt" where
  "sql_update_services P f = (\<lambda>d.
     (Inr (count_rows P (services d)), d\<lparr>services := update_rows P f (services d)\<rparr>))"

definition sql_delete_services :: "(service_row \<Rightarrow> bool) \<Rightarrow> nat stmt" where
  "sql_delete_services P = (\<lambda>d.
     (Inr (count_rows P (services d)), d\<lparr>services := delete_rows P (services d)\<rparr>))"

subsection \<open>Tables \<open>snapshots\<close>, \<open>images\<close> and \<open>secrets\<close>\<close>

definition sql_insert_snapshots :: "reporter \<Rightarrow> SnapshotRecord \<Rightarrow> unit stmt" where
  "sql_insert_snapshots rep r = statement rep (\<lambda>_. [])
     (\<lambda>d. [(\<not> unique_on snap_id (snapshots d @ [r]), ''UNIQUE constraint failed: snapshots.id''),
           (\<not> unique_on snap_name (snapshots d @ [r]), ''UNIQUE constraint failed: snapshots.name'')])
     (\<lambda>_. ()) (\<lambda>d. d\<lparr>snapshots := snapshots d @ [r]\<rparr>)"

definition sql_delete_snapshots :: "(SnapshotRecord \<Rightarrow> bool) \<Rightarrow> nat stmt" where
  "sql_delete_snapshots P = (\<lambda>d.
     (Inr (count_rows P (snapshots d)), d\<lparr>snapshots := delete_rows P (snapshots d)\<rparr>))"

definition known_image_kinds :: "string list" where
  "known_image_kinds = [''rootfs'', ''cloud-image'']"

definition sql_insert_images :: "reporter \<Rightarrow> image_row \<Rightarrow> unit stmt" where
  "sql_insert_images rep r = statement rep
     (\<lambda>_. [(img_kind r \<notin> set known_image_kinds, ''unknown image kind'')])
     (\<lambda>d. [(\<not> unique_on img_id (images d @ [r]), ''UNIQUE constraint failed: images.id''),
           (\<not> unique_on img_name (images d @ [r]), ''UNIQUE constraint failed: images.name'')])
     (\<lambda>_. ()) (\<lambda>d. d\<lparr>images := images d @ [r]\<rparr>)"

definition sql_delete_images :: "(image_row \<Rightarrow> bool) \<Rightarrow> nat stmt" where
  "sql_delete_images P = (\<lambda>d.
     (Inr (count_rows P (images d)), d\<lparr>images := delete_rows P (images d)\<rparr>))"

definition sql_insert_secrets :: "reporter \<Rightarrow> SecretRecord \<Rightarrow> unit stmt" where
  "sql_insert_secrets rep r = statement rep (\<lambda>_. [])
     (\<lambda>d. [(\<not> unique_on sec_id (secrets d @ [r]), ''UNIQUE constraint failed: secrets.id''),
           (\<not> unique_on sec_name (secrets d @ [r]), ''UNIQUE constraint failed: secrets.name'')])
     (\<lambda>_. ()) (\<lambda>d. d\<lparr>secrets := secrets d @ [r]\<rparr>)"

definition sql_update_secrets :: "(SecretRecord \<Rightarrow> bool) \<Rightarrow> (SecretRecord \<Rightarrow> SecretRecord) \<Rightarrow> nat stmt" where
  "sql_update_secrets P f = (\<lambda>d.
     (Inr (count_rows P (secrets d)), d\<lparr>secrets := update_rows P f (secrets d)\<rparr>))"

definition sql_delete_secrets :: "(SecretRecord \<Rightarrow> bool) \<Rightarrow> nat stmt" where
  "sql_delete_secrets P = (\<lambda>d.
     (Inr (count_rows P (secrets d)), d\<lparr>secrets := delete_rows P (secrets d)\<rparr>))"

subsection \<open>Tables \<open>volumes\<close> and \<open>pools\<close>\<close>

definition sql_insert_volumes :: "reporter \<Rightarrow> volume_row \<Rightarrow> unit stmt" where
  "sql_insert_volumes rep r = statement rep (\<lambda>_. [])
     (\<lambda>d. [(\<not> unique_on vol_id (volumes d @ [r]), ''UNIQUE constraint failed: volumes.id''),
           (\<not> unique_on vol_name (volumes d @ [r]), ''UNIQUE constraint failed: volumes.name'')])
     (\<lambda>_. ()) (\<lambda>d. d\<lparr>volumes := volumes d @ [r]\<rparr>)"

definition sql_delete_volumes :: "reporter \<Rightarrow> (volume_row \<Rightarrow> bool) \<Rightarrow> nat stmt" where
  "sql_delete_volumes rep P = statement rep
     (\<lambda>d. [(\<exists>v \<in> set (volumes d). P v \<and> (\<exists>r \<in> set (vms d). vm_volume r = Some (vol_name v)),
             ''volume is attached'')])
     (\<lambda>_. []) (\<lambda>d. count_rows P (volumes d))
     (\<lambda>d. d\<lparr>volumes := delete_rows P (volumes d)\<rparr>)"

definition suspended_vm :: "vm_row list \<Rightarrow> Uuid \<Rightarrow> bool" where
  "suspended_vm t i \<longleftrightarrow> (\<exists>r \<in> set t. vm_id r = i \<and> vm_state r = ''suspended'')"

definition sql_insert_pools :: "reporter \<Rightarrow> pool_row \<Rightarrow> unit stmt" where
  "sql_insert_pools rep p = statement rep
     (\<lambda>d. [(\<not> suspended_vm (vms d) (pool_template_vm_id p),
            ''pool template is unavailable or not suspended'')])
     (\<lambda>d. [(\<not> unique_on pool_id (pools d @ [p]), ''UNIQUE constraint failed: pools.id''),
           (\<not> unique_on pool_name (pools d @ [p]), ''UNIQUE constraint failed: pools.name''),
           (\<not> unique_on pool_template_vm_id (pools d @ [p]),
              ''UNIQUE constraint failed: pools.template_vm_id'')])
     (\<lambda>_. ()) (\<lambda>d. d\<lparr>pools := pools d @ [p]\<rparr>)"

definition sql_delete_pools :: "(pool_row \<Rightarrow> bool) \<Rightarrow> nat stmt" where
  "sql_delete_pools P = (\<lambda>d.
     (Inr (count_rows P (pools d)), d\<lparr>pools := delete_rows P (pools d)\<rparr>))"

subsection \<open>Tables \<open>cid_allocator\<close> and \<open>freed_cids\<close>\<close>

definition sql_update_next_cid :: "(int \<Rightarrow> int) \<Rightarrow> unit stmt" where
  "sql_update_next_cid f = (\<lambda>d. (Inr (), d\<lparr>next_cid := f (next_cid d)\<rparr>))"

definition sql_insert_or_ignore_freed_cids :: "int \<Rightarrow> unit stmt" where
  "sql_insert_or_ignore_freed_cids c = (\<lambda>d.
     (Inr (), if c \<in> set (freed_cids d) then d else d\<lparr>freed_cids := freed_cids d @ [c]\<rparr>))"

definition sql_delete_freed_cids :: "(int \<Rightarrow> bool) \<Rightarrow> unit stmt" where
  "sql_delete_freed_cids P = (\<lambda>d. (Inr (), d\<lparr>freed_cids := delete_rows P (freed_cids d)\<rparr>))"

text \<open>\<open>SELECT cid FROM freed_cids ORDER BY cid LIMIT 1\<close>.\<close>

definition lowest_freed :: "db \<Rightarrow> int option" where
  "lowest_freed d = (case freed_cids d of [] \<Rightarrow> None | c # cs \<Rightarrow> Some (fold min cs c))"

subsection \<open>Table \<open>host_resource_leases\<close>\<close>

definition sets_any :: "string list \<Rightarrow> string list \<Rightarrow> bool" where
  "sets_any cols watched \<longleftrightarrow> (\<exists>c \<in> set cols. c \<in> set watched)"

text \<open>Migration 21, \<open>creation_lease_identity_is_immutable\<close>.\<close>

definition lease_identity_violation :: "lease_row \<Rightarrow> lease_row \<Rightarrow> bool" where
  "lease_identity_violation old new \<longleftrightarrow>
     (lease_backend_entered old \<and>
       (lease_vm_id new \<noteq> lease_vm_id old \<or> \<not> lease_backend_entered new
        \<or> lease_vm_name new \<noteq> lease_vm_name old \<or> lease_vsock_cid new \<noteq> lease_vsock_cid old
        \<or> lease_tap_device new \<noteq> lease_tap_device old \<or> lease_guest_ip new \<noteq> lease_guest_ip old))
     \<or> (lease_vm_destroyed old \<and> \<not> lease_vm_destroyed new)
     \<or> (lease_vm_destroyed new \<and> (\<not> lease_backend_entered new \<or> lease_vm_id new = None))"

text \<open>Migration 22, \<open>creation_lease_planned_identity_is_immutable\<close>.\<close>

definition lease_plan_violation :: "lease_row \<Rightarrow> lease_row \<Rightarrow> bool" where
  "lease_plan_violation old new \<longleftrightarrow>
     (lease_vm_id old \<noteq> None \<and> lease_vm_id new \<noteq> lease_vm_id old)
     \<or> (lease_allocation_aborted old \<and>
          (\<not> lease_allocation_aborted new \<or> lease_backend_entered new
           \<or> lease_vm_name new \<noteq> lease_vm_name old \<or> lease_vsock_cid new \<noteq> lease_vsock_cid old
           \<or> lease_tap_device new \<noteq> lease_tap_device old
           \<or> lease_guest_ip new \<noteq> lease_guest_ip old))
     \<or> (lease_allocation_aborted new \<and> (lease_backend_entered new \<or> lease_vm_id new = None))"

definition reboot_confirmed :: "boot_epoch_row list \<Rightarrow> Uuid \<Rightarrow> bool" where
  "reboot_confirmed es i \<longleftrightarrow> (\<exists>e \<in> set es. epoch_lease_id e = i \<and> epoch_confirmed e)"

definition lease_update_triggers ::
  "string list \<Rightarrow> db \<Rightarrow> lease_row \<Rightarrow> lease_row \<Rightarrow> (bool \<times> string) list" where
  "lease_update_triggers cols d old new =
     [(sets_any cols [''vm_id'', ''backend_entered'', ''vm_destroyed'', ''vm_name'', ''vsock_cid'',
          ''tap_device'', ''guest_ip''] \<and> lease_identity_violation old new,
         ''invalid creation lease identity transition''),
      (sets_any cols [''vm_id'', ''backend_entered'', ''allocation_aborted'', ''vm_name'',
          ''vsock_cid'', ''tap_device'', ''guest_ip''] \<and> lease_plan_violation old new,
         ''invalid planned creation lease transition''),
      (sets_any cols [''backend_entered''] \<and> lease_backend_entered new
          \<and> \<not> lease_backend_entered old \<and> reboot_confirmed (boot_epochs d) (lease_id old),
         ''creation lease already has a host reboot receipt'')]"

definition leases_constraints :: "lease_row list \<Rightarrow> (bool \<times> string) list" where
  "leases_constraints t =
    [(\<not> unique_on lease_id t, ''UNIQUE constraint failed: host_resource_leases.id''),
     (\<not> unique_on lease_vm_name t, ''UNIQUE constraint failed: host_resource_leases.vm_name''),
     (\<not> unique_on lease_vsock_cid t, ''UNIQUE constraint failed: host_resource_leases.vsock_cid'')]"

definition sql_insert_leases :: "reporter \<Rightarrow> lease_row \<Rightarrow> unit stmt" where
  "sql_insert_leases rep r = statement rep (\<lambda>_. [])
     (\<lambda>d. leases_constraints (leases d @ [r]))
     (\<lambda>_. ()) (\<lambda>d. d\<lparr>leases := leases d @ [r]\<rparr>)"

definition sql_update_leases ::
  "reporter \<Rightarrow> string list \<Rightarrow> (lease_row \<Rightarrow> bool) \<Rightarrow> (lease_row \<Rightarrow> lease_row) \<Rightarrow> nat stmt" where
  "sql_update_leases rep cols P f = statement rep
     (\<lambda>d. concat (map (\<lambda>r. lease_update_triggers cols d r (f r)) (filter P (leases d))))
     (\<lambda>d. leases_constraints (update_rows P f (leases d)))
     (\<lambda>d. count_rows P (leases d)) (\<lambda>d. d\<lparr>leases := update_rows P f (leases d)\<rparr>)"

text \<open>
  Migration 23's \<open>creation_lease_release_requires_proof\<close>: an entered lease leaves only with a
  destruction receipt, the VM record that took its identity over, or a confirmed host reboot.
\<close>

definition lease_released_without_proof :: "db \<Rightarrow> lease_row \<Rightarrow> bool" where
  "lease_released_without_proof d l \<longleftrightarrow>
     lease_backend_entered l \<and> \<not> lease_vm_destroyed l
     \<and> \<not> (\<exists>r \<in> set (vms d). Some (vm_id r) = lease_vm_id l \<and> vm_name r = lease_vm_name l
            \<and> vm_vsock_cid r = lease_vsock_cid l)
     \<and> \<not> reboot_confirmed (boot_epochs d) (lease_id l)"

text \<open>
  Boot epochs cascade. Their own delete trigger looks for the lease, which is already gone.
\<close>

definition sql_delete_leases :: "reporter \<Rightarrow> (lease_row \<Rightarrow> bool) \<Rightarrow> nat stmt" where
  "sql_delete_leases rep P = statement rep
     (\<lambda>d. [(\<exists>l \<in> set (leases d). P l \<and> lease_released_without_proof d l,
            ''creation lease destruction is unconfirmed'')])
     (\<lambda>_. []) (\<lambda>d. count_rows P (leases d))
     (\<lambda>d. let gone = lease_id ` set (filter P (leases d)) in
        d\<lparr>leases := delete_rows P (leases d),
          boot_epochs := delete_rows (\<lambda>e. epoch_lease_id e \<in> gone) (boot_epochs d)\<rparr>)"

subsection \<open>Table \<open>creation_lease_boot_epochs\<close>\<close>

definition epoch_insert_triggers :: "db \<Rightarrow> boot_epoch_row \<Rightarrow> (bool \<times> string) list" where
  "epoch_insert_triggers d new =
     [(\<exists>e \<in> set (boot_epochs d). \<exists>l \<in> set (leases d).
         lease_id l = epoch_lease_id e \<and> epoch_lease_id e = epoch_lease_id new
         \<and> (lease_backend_entered l \<or> epoch_confirmed e),
       ''entered creation lease boot evidence cannot be replaced'')]"

definition sql_insert_boot_epochs :: "reporter \<Rightarrow> boot_epoch_row \<Rightarrow> unit stmt" where
  "sql_insert_boot_epochs rep e = statement rep
     (\<lambda>d. epoch_insert_triggers d e)
     (\<lambda>d. [(\<not> unique_on epoch_lease_id (boot_epochs d @ [e]),
              ''UNIQUE constraint failed: creation_lease_boot_epochs.lease_id''),
           (epoch_lease_id e \<notin> lease_id ` set (leases d), ''FOREIGN KEY constraint failed'')])
     (\<lambda>_. ()) (\<lambda>d. d\<lparr>boot_epochs := boot_epochs d @ [e]\<rparr>)"

text \<open>\<open>OR IGNORE\<close> skips a row that would break uniqueness; triggers and foreign keys still abort.\<close>

definition sql_insert_or_ignore_boot_epochs :: "reporter \<Rightarrow> boot_epoch_row \<Rightarrow> unit stmt" where
  "sql_insert_or_ignore_boot_epochs rep e = statement rep
     (\<lambda>d. epoch_insert_triggers d e)
     (\<lambda>d. [(epoch_lease_id e \<notin> epoch_lease_id ` set (boot_epochs d)
              \<and> epoch_lease_id e \<notin> lease_id ` set (leases d), ''FOREIGN KEY constraint failed'')])
     (\<lambda>_. ())
     (\<lambda>d. if epoch_lease_id e \<in> epoch_lease_id ` set (boot_epochs d) then d
          else d\<lparr>boot_epochs := boot_epochs d @ [e]\<rparr>)"

definition sql_update_boot_epochs ::
  "reporter \<Rightarrow> (boot_epoch_row \<Rightarrow> bool) \<Rightarrow> (boot_epoch_row \<Rightarrow> boot_epoch_row) \<Rightarrow> nat stmt" where
  "sql_update_boot_epochs rep P f = statement rep
     (\<lambda>d. [(\<exists>e \<in> set (boot_epochs d). P e \<and>
             (epoch_lease_id (f e) \<noteq> epoch_lease_id e \<or> epoch_host_id (f e) \<noteq> epoch_host_id e
              \<or> epoch_boot_id (f e) \<noteq> epoch_boot_id e
              \<or> (epoch_confirmed e \<and> \<not> epoch_confirmed (f e))),
            ''invalid creation lease boot proof transition'')])
     (\<lambda>_. []) (\<lambda>d. count_rows P (boot_epochs d))
     (\<lambda>d. d\<lparr>boot_epochs := update_rows P f (boot_epochs d)\<rparr>)"

definition sql_delete_boot_epochs :: "reporter \<Rightarrow> (boot_epoch_row \<Rightarrow> bool) \<Rightarrow> nat stmt" where
  "sql_delete_boot_epochs rep P = statement rep
     (\<lambda>d. [(\<exists>e \<in> set (boot_epochs d). P e \<and> (\<exists>l \<in> set (leases d).
             lease_id l = epoch_lease_id e \<and> (lease_backend_entered l \<or> epoch_confirmed e)),
            ''entered creation lease boot evidence cannot be forgotten'')])
     (\<lambda>_. []) (\<lambda>d. count_rows P (boot_epochs d))
     (\<lambda>d. d\<lparr>boot_epochs := delete_rows P (boot_epochs d)\<rparr>)"

subsection \<open>Tables of the execution journal\<close>

definition job_pending_name :: "job_row \<Rightarrow> string option" where
  "job_pending_name j = (if job_cleanup_pending j then job_vm_name j else None)"

definition known_job_states :: "string list" where
  "known_job_states = [''accepted'', ''preparing'', ''running'', ''completed'', ''command_failed'',
     ''infrastructure_failed'', ''interrupted'', ''cancelled'', ''timed_out'', ''unknown'',
     ''deleted'']"

definition known_collections :: "string list" where
  "known_collections = [''pending'', ''complete'', ''truncated'', ''failed'']"

definition too_long :: "nat \<Rightarrow> 'a list option \<Rightarrow> bool" where
  "too_long n v = (case v of None \<Rightarrow> False | Some x \<Rightarrow> n < length x)"

definition job_checks :: "job_row \<Rightarrow> (bool \<times> string) list" where
  "job_checks j =
    [(too_long 65536 (job_specification j), ''CHECK constraint failed: specification''),
     (job_state j \<notin> set known_job_states, ''CHECK constraint failed: state''),
     (4096 < job_capture_cursor j, ''CHECK constraint failed: capture_cursor''),
     (4194304 < job_retained_bytes j, ''CHECK constraint failed: retained_bytes''),
     (job_collection j \<notin> set known_collections, ''CHECK constraint failed: collection''),
     (too_long 65536 (job_manifest j), ''CHECK constraint failed: manifest''),
     (job_vm_allocation_aborted j \<and>
        (job_vm_destroyed j \<or> job_vm_id j = None
         \<or> job_state j \<in> {''accepted'', ''running'', ''completed'', ''command_failed''}),
        ''CHECK constraint failed: vm_allocation_aborted'')]"

definition jobs_constraints :: "job_row list \<Rightarrow> (bool \<times> string) list" where
  "jobs_constraints t =
    [(\<not> unique_on job_id t, ''UNIQUE constraint failed: execution_jobs.id''),
     (\<not> unique_on job_submission_key t, ''UNIQUE constraint failed: execution_jobs.submission_key''),
     (\<not> unique_on job_session_id t, ''UNIQUE constraint failed: execution_jobs.session_id''),
     (\<not> unique_some job_vm_id t, ''UNIQUE constraint failed: execution_jobs.vm_id''),
     (\<not> unique_some job_pending_name t, ''UNIQUE constraint failed: execution_jobs.vm_name'')]
    @ concat (map job_checks t)"

definition job_update_triggers ::
  "string list \<Rightarrow> job_row \<Rightarrow> job_row \<Rightarrow> (bool \<times> string) list" where
  "job_update_triggers cols old new =
    [(sets_any cols [''id'', ''submission_key'', ''spec_digest'', ''deadline'', ''session_id''],
        ''execution job identity is immutable''),
     (sets_any cols [''vm_id'', ''vm_name''] \<and> job_vm_id old \<noteq> None
        \<and> (job_vm_id new \<noteq> job_vm_id old \<or> job_vm_name new \<noteq> job_vm_name old),
        ''execution VM generation is immutable''),
     (sets_any cols [''specification''] \<and> job_specification new \<noteq> job_specification old
        \<and> \<not> (job_specification new = None \<and> job_state new = ''deleted''),
        ''execution job specification is immutable''),
     (sets_any cols [''vm_name''] \<and> job_vm_name old \<noteq> None \<and> job_vm_name new \<noteq> job_vm_name old,
        ''execution VM name is immutable''),
     (sets_any cols [''vm_destroyed''] \<and> job_vm_destroyed old \<and> \<not> job_vm_destroyed new,
        ''confirmed VM destruction is immutable''),
     (sets_any cols [''vm_allocation_aborted''] \<and> job_vm_allocation_aborted old
        \<and> \<not> job_vm_allocation_aborted new,
        ''confirmed allocation abort is immutable'')]"

definition sql_insert_jobs :: "reporter \<Rightarrow> job_row \<Rightarrow> unit stmt" where
  "sql_insert_jobs rep j = statement rep (\<lambda>_. [])
     (\<lambda>d. jobs_constraints (jobs d @ [j]))
     (\<lambda>_. ()) (\<lambda>d. d\<lparr>jobs := jobs d @ [j]\<rparr>)"

definition sql_update_jobs ::
  "reporter \<Rightarrow> string list \<Rightarrow> (job_row \<Rightarrow> bool) \<Rightarrow> (job_row \<Rightarrow> job_row) \<Rightarrow> nat stmt" where
  "sql_update_jobs rep cols P f = statement rep
     (\<lambda>d. concat (map (\<lambda>j. job_update_triggers cols j (f j)) (filter P (jobs d))))
     (\<lambda>d. jobs_constraints (update_rows P f (jobs d)))
     (\<lambda>d. count_rows P (jobs d)) (\<lambda>d. d\<lparr>jobs := update_rows P f (jobs d)\<rparr>)"

text \<open>Events and artifacts cascade.\<close>

definition sql_delete_jobs :: "(job_row \<Rightarrow> bool) \<Rightarrow> nat stmt" where
  "sql_delete_jobs P = (\<lambda>d.
     let gone = job_id ` set (filter P (jobs d)) in
     (Inr (count_rows P (jobs d)),
      d\<lparr>jobs := delete_rows P (jobs d),
        job_events := delete_rows (\<lambda>e. ev_job_id e \<in> gone) (job_events d),
        job_artifacts := delete_rows (\<lambda>a. art_job_id a \<in> gone) (job_artifacts d)\<rparr>))"

definition event_key :: "event_row \<Rightarrow> Uuid \<times> nat" where
  "event_key e = (ev_job_id e, ev_sequence e)"

definition sql_insert_job_events :: "reporter \<Rightarrow> event_row \<Rightarrow> unit stmt" where
  "sql_insert_job_events rep e = statement rep (\<lambda>_. [])
     (\<lambda>d. [(\<not> unique_on event_key (job_events d @ [e]),
              ''UNIQUE constraint failed: execution_job_events.job_id, execution_job_events.sequence''),
           (ev_job_id e \<notin> job_id ` set (jobs d), ''FOREIGN KEY constraint failed''),
           (\<not> (1 \<le> ev_sequence e \<and> ev_sequence e \<le> 4096), ''CHECK constraint failed: sequence''),
           (ev_stream e \<notin> {''stdout'', ''stderr''}, ''CHECK constraint failed: stream''),
           (too_long 8192 (ev_data e), ''CHECK constraint failed: data'')])
     (\<lambda>_. ()) (\<lambda>d. d\<lparr>job_events := job_events d @ [e]\<rparr>)"

definition sql_delete_job_events :: "(event_row \<Rightarrow> bool) \<Rightarrow> unit stmt" where
  "sql_delete_job_events P = (\<lambda>d. (Inr (), d\<lparr>job_events := delete_rows P (job_events d)\<rparr>))"

definition artifact_key :: "artifact_row \<Rightarrow> Uuid \<times> nat" where
  "artifact_key a = (art_job_id a, art_index a)"

definition artifact_path_key :: "artifact_row \<Rightarrow> Uuid \<times> string" where
  "artifact_path_key a = (art_job_id a, art_path a)"

definition sql_insert_job_artifacts :: "reporter \<Rightarrow> artifact_row \<Rightarrow> unit stmt" where
  "sql_insert_job_artifacts rep a = statement rep (\<lambda>_. [])
     (\<lambda>d. [(\<not> unique_on artifact_key (job_artifacts d @ [a]),
              ''UNIQUE constraint failed: execution_job_artifacts.job_id, execution_job_artifacts.artifact_index''),
           (\<not> unique_on artifact_path_key (job_artifacts d @ [a]),
              ''UNIQUE constraint failed: execution_job_artifacts.job_id, execution_job_artifacts.path''),
           (art_job_id a \<notin> job_id ` set (jobs d), ''FOREIGN KEY constraint failed''),
           (15 < art_index a, ''CHECK constraint failed: artifact_index''),
           (\<not> (1 \<le> length (art_path a) \<and> length (art_path a) \<le> 255), ''CHECK constraint failed: path''),
           (4194304 < length (art_data a), ''CHECK constraint failed: data'')])
     (\<lambda>_. ()) (\<lambda>d. d\<lparr>job_artifacts := job_artifacts d @ [a]\<rparr>)"

definition sql_delete_job_artifacts :: "(artifact_row \<Rightarrow> bool) \<Rightarrow> unit stmt" where
  "sql_delete_job_artifacts P =
     (\<lambda>d. (Inr (), d\<lparr>job_artifacts := delete_rows P (job_artifacts d)\<rparr>))"

end
