(* ===== verification/Store_Invariant.thy ===== *)
theory Store_Invariant
  imports Store_Sql
begin

text \<open>
  What the schema promises of every state of the store, table by table, and that each
  statement keeps it. Since every operation is a sequence of such statements, the promise
  holds after every operation and, the statements being atomic, under every interleaving of
  the statements of concurrent connections.
\<close>

named_theorems keeps_store_ok \<open>statements and operations that keep the schema invariant\<close>

subsection \<open>The invariant\<close>

definition vm_row_ok :: "volume_row list \<Rightarrow> vm_row \<Rightarrow> bool" where
  "vm_row_ok vols r \<longleftrightarrow>
     \<not> volume_missing vols (vm_volume r)
     \<and> vm_state r \<in> set known_states \<and> vm_vmm r \<in> set known_backends
     \<and> vm_network r \<in> set known_networks \<and> vm_boot_mode r \<in> set known_boot_kinds
     \<and> \<not> userdata_unknown (vm_userdata_status r)"

definition vms_ok :: "bool \<Rightarrow> volume_row list \<Rightarrow> vm_row list \<Rightarrow> bool" where
  "vms_ok ordinal vols t \<longleftrightarrow>
     unique_on vm_id t \<and> unique_on vm_name t \<and> unique_some vm_volume t
     \<and> (ordinal \<longrightarrow> unique_some ordinal_key t) \<and> (\<forall>r \<in> set t. vm_row_ok vols r)"

definition pools_ok :: "vm_row list \<Rightarrow> pool_row list \<Rightarrow> bool" where
  "pools_ok t ps \<longleftrightarrow>
     unique_on pool_id ps \<and> unique_on pool_name ps \<and> unique_on pool_template_vm_id ps
     \<and> (\<forall>p \<in> set ps. suspended_vm t (pool_template_vm_id p))"

definition vm_refs_ok :: "vm_row list \<Rightarrow> port_forward_row list \<Rightarrow> expiration_row list \<Rightarrow> bool" where
  "vm_refs_ok t pfs es \<longleftrightarrow>
     unique_on pf_host_port pfs \<and> (\<forall>p \<in> set pfs. pf_vm_id p \<in> vm_id ` set t)
     \<and> unique_on exp_vm_id es \<and> (\<forall>e \<in> set es. exp_vm_id e \<in> vm_id ` set t)"

definition services_ok :: "HostGroupRecord list \<Rightarrow> service_row list \<Rightarrow> bool" where
  "services_ok gs ss \<longleftrightarrow>
     unique_on hg_id gs \<and> unique_on hg_name gs \<and> unique_on svc_id ss \<and> unique_on svc_name ss
     \<and> (\<forall>s \<in> set ss. set_option (svc_host_group_id s) \<subseteq> hg_id ` set gs)"

definition catalogs_ok ::
  "SnapshotRecord list \<Rightarrow> image_row list \<Rightarrow> SecretRecord list \<Rightarrow> volume_row list \<Rightarrow> bool" where
  "catalogs_ok ss is cs vs \<longleftrightarrow>
     unique_on snap_id ss \<and> unique_on snap_name ss
     \<and> unique_on img_id is \<and> unique_on img_name is \<and> (\<forall>i \<in> set is. img_kind i \<in> set known_image_kinds)
     \<and> unique_on sec_id cs \<and> unique_on sec_name cs
     \<and> unique_on vol_id vs \<and> unique_on vol_name vs"

definition lease_flags_ok :: "lease_row \<Rightarrow> bool" where
  "lease_flags_ok l \<longleftrightarrow>
     (lease_vm_destroyed l \<longrightarrow> lease_backend_entered l \<and> lease_vm_id l \<noteq> None)
     \<and> (lease_allocation_aborted l \<longrightarrow> \<not> lease_backend_entered l \<and> lease_vm_id l \<noteq> None)"

definition leases_ok :: "lease_row list \<Rightarrow> boot_epoch_row list \<Rightarrow> bool" where
  "leases_ok t es \<longleftrightarrow>
     unique_on lease_id t \<and> unique_on lease_vm_name t \<and> unique_on lease_vsock_cid t
     \<and> (\<forall>l \<in> set t. lease_flags_ok l)
     \<and> unique_on epoch_lease_id es \<and> (\<forall>e \<in> set es. epoch_lease_id e \<in> lease_id ` set t)"

definition journal_ok :: "job_row list \<Rightarrow> event_row list \<Rightarrow> artifact_row list \<Rightarrow> bool" where
  "journal_ok js es as \<longleftrightarrow>
     unique_on job_id js \<and> unique_on job_submission_key js \<and> unique_on job_session_id js
     \<and> unique_some job_vm_id js \<and> unique_some job_pending_name js
     \<and> (\<forall>j \<in> set js. raised (job_checks j) = [])
     \<and> unique_on event_key es
     \<and> (\<forall>e \<in> set es. ev_job_id e \<in> job_id ` set js \<and> 1 \<le> ev_sequence e \<and> ev_sequence e \<le> 4096
          \<and> ev_stream e \<in> {''stdout'', ''stderr''} \<and> \<not> too_long 8192 (ev_data e))
     \<and> unique_on artifact_key as \<and> unique_on artifact_path_key as
     \<and> (\<forall>a \<in> set as. art_job_id a \<in> job_id ` set js \<and> art_index a \<le> 15
          \<and> art_path a \<noteq> [] \<and> length (art_path a) \<le> 255 \<and> length (art_data a) \<le> 4194304)"

definition store_ok :: "db \<Rightarrow> bool" where
  "store_ok d \<longleftrightarrow>
     vms_ok (ordinal_index d) (volumes d) (vms d) \<and> pools_ok (vms d) (pools d)
     \<and> vm_refs_ok (vms d) (port_forwards d) (expirations d)
     \<and> services_ok (host_groups d) (services d)
     \<and> catalogs_ok (snapshots d) (images d) (secrets d) (volumes d)
     \<and> leases_ok (leases d) (boot_epochs d)
     \<and> journal_ok (jobs d) (job_events d) (job_artifacts d)
     \<and> distinct (freed_cids d)"

lemma store_ok_fresh: "store_ok fresh_db"
  by (simp add: store_ok_def fresh_db_def vms_ok_def pools_ok_def vm_refs_ok_def services_ok_def
      catalogs_ok_def leases_ok_def journal_ok_def unique_on_def unique_some_def)

lemma keeps_statement:
  assumes "\<And>d. store_ok d \<Longrightarrow> raised (triggers d) = [] \<Longrightarrow> raised (constraints d) = [] \<Longrightarrow>
    store_ok (effect d)"
  shows "keeps store_ok (statement rep triggers constraints result effect)"
  by (rule within_statement) (use assms in auto)

lemma keeps_plain:
  assumes "\<And>d. store_ok d \<Longrightarrow> store_ok (effect d)"
  shows "keeps store_ok (\<lambda>d. (Inr (result d), effect d))"
  using assms by (simp add: within_def)

subsection \<open>Statements on \<open>vms\<close>\<close>

text \<open>A row update that changes only the columns its \<open>SET\<close> names, never the key.\<close>

definition vm_frame :: "string list \<Rightarrow> (vm_row \<Rightarrow> vm_row) \<Rightarrow> bool" where
  "vm_frame cols f \<longleftrightarrow> (\<forall>r. vm_id (f r) = vm_id r
     \<and> (''volume'' \<notin> set cols \<longrightarrow> vm_volume (f r) = vm_volume r)
     \<and> (''state'' \<notin> set cols \<longrightarrow> vm_state (f r) = vm_state r)
     \<and> (''vmm'' \<notin> set cols \<longrightarrow> vm_vmm (f r) = vm_vmm r)
     \<and> (''network'' \<notin> set cols \<longrightarrow> vm_network (f r) = vm_network r)
     \<and> (''boot_mode'' \<notin> set cols \<longrightarrow> vm_boot_mode (f r) = vm_boot_mode r)
     \<and> (''userdata_status'' \<notin> set cols \<longrightarrow> vm_userdata_status (f r) = vm_userdata_status r))"

lemma vms_ok_iff_constraints:
  "vms_ok ordinal vols t \<longleftrightarrow>
     raised (vms_constraints ordinal t) = [] \<and> (\<forall>r \<in> set t. vm_row_ok vols r)"
  by (simp add: vms_ok_def vms_constraints_def)

lemma suspended_vm_append: "suspended_vm t i \<Longrightarrow> suspended_vm (t @ [r]) i"
  by (auto simp: suspended_vm_def)

lemma keeps_insert_vms [keeps_store_ok]: "keeps store_ok (sql_insert_vms rep r)"
  unfolding sql_insert_vms_def
proof (rule keeps_statement)
  fix d :: db assume ok: "store_ok d" and tr: "raised (vm_insert_triggers d r) = []"
    and cs: "raised (vms_constraints (ordinal_index d) (vms d @ [r])) = []"
  from ok tr cs have "vms_ok (ordinal_index d) (volumes d) (vms d @ [r])"
    by (simp add: vms_ok_iff_constraints vm_row_ok_def store_ok_def vm_insert_triggers_def
        split: if_splits)
  moreover from ok have "pools_ok (vms d @ [r]) (pools d)"
    by (auto simp: store_ok_def pools_ok_def intro: suspended_vm_append)
  moreover from ok have "vm_refs_ok (vms d @ [r]) (port_forwards d) (expirations d)"
    by (auto simp: store_ok_def vm_refs_ok_def)
  ultimately show "store_ok (d\<lparr>vms := vms d @ [r]\<rparr>)"
    using ok by (simp add: store_ok_def)
qed

lemma vm_update_triggers_pass:
  assumes "raised (vm_update_triggers cols d old new) = []"
  shows "''volume'' \<in> set cols \<Longrightarrow> \<not> volume_missing (volumes d) (vm_volume new)"
    and "''state'' \<in> set cols \<Longrightarrow>
      vm_state new = ''suspended'' \<or> \<not> has_template (pools d) (vm_id old)"
    and "''state'' \<in> set cols \<Longrightarrow> vm_state new \<in> set known_states"
    and "''vmm'' \<in> set cols \<Longrightarrow> vm_vmm new \<in> set known_backends"
    and "''network'' \<in> set cols \<Longrightarrow> vm_network new \<in> set known_networks"
    and "''boot_mode'' \<in> set cols \<Longrightarrow> vm_boot_mode new \<in> set known_boot_kinds"
    and "''userdata_status'' \<in> set cols \<Longrightarrow> \<not> userdata_unknown (vm_userdata_status new)"
    and "''userdata_status'' \<in> set cols \<Longrightarrow>
      \<not> userdata_transition_invalid (vm_userdata_status old) (vm_userdata_status new)"
  using assms unfolding vm_update_triggers_def raised_simps append_is_Nil_conv
  by (simp_all split: if_splits)

lemma vm_row_ok_update:
  assumes f: "vm_frame cols f" and ok: "vm_row_ok (volumes d) r"
    and tr: "raised (vm_update_triggers cols d r (f r)) = []"
  shows "vm_row_ok (volumes d) (f r)"
proof -
  note pass = vm_update_triggers_pass [OF tr]
  have "\<not> volume_missing (volumes d) (vm_volume (f r))"
    using pass(1) f ok by (cases "''volume'' \<in> set cols") (simp_all add: vm_frame_def vm_row_ok_def)
  moreover have "vm_state (f r) \<in> set known_states"
    using pass(3) f ok by (cases "''state'' \<in> set cols") (simp_all add: vm_frame_def vm_row_ok_def)
  moreover have "vm_vmm (f r) \<in> set known_backends"
    using pass(4) f ok by (cases "''vmm'' \<in> set cols") (simp_all add: vm_frame_def vm_row_ok_def)
  moreover have "vm_network (f r) \<in> set known_networks"
    using pass(5) f ok by (cases "''network'' \<in> set cols") (simp_all add: vm_frame_def vm_row_ok_def)
  moreover have "vm_boot_mode (f r) \<in> set known_boot_kinds"
    using pass(6) f ok by (cases "''boot_mode'' \<in> set cols") (simp_all add: vm_frame_def vm_row_ok_def)
  moreover have "\<not> userdata_unknown (vm_userdata_status (f r))"
    using pass(7) f ok
    by (cases "''userdata_status'' \<in> set cols") (simp_all add: vm_frame_def vm_row_ok_def)
  ultimately show ?thesis by (simp add: vm_row_ok_def)
qed

lemma suspended_template_update:
  assumes f: "vm_frame cols f" and t: "has_template (pools d) (vm_id r)"
    and s: "vm_state r = ''suspended''" and tr: "raised (vm_update_triggers cols d r (f r)) = []"
  shows "vm_state (f r) = ''suspended''"
  using vm_update_triggers_pass(2) [OF tr] f s t
  by (cases "''state'' \<in> set cols") (simp_all add: vm_frame_def)

lemma image_update_rows:
  assumes "\<And>r. g (f r) = g r"
  shows "g ` set (update_rows P f t) = g ` set t"
  using map_update_rows [of t P g f] assms by (metis list.set_map)

lemma keeps_update_vms:
  assumes f: "vm_frame cols f"
  shows "keeps store_ok (sql_update_vms rep cols P f)"
  unfolding sql_update_vms_def
proof (rule keeps_statement)
  fix d :: db
  let ?t = "update_rows P f (vms d)"
  assume ok: "store_ok d"
    and tr: "raised (concat (map (\<lambda>r. vm_update_triggers cols d r (f r)) (filter P (vms d)))) = []"
    and cs: "raised (vms_constraints (ordinal_index d) ?t) = []"
  have tr': "raised (vm_update_triggers cols d r (f r)) = []" if "r \<in> set (vms d)" "P r" for r
    using tr that by simp
  have "vm_row_ok (volumes d) q" if "q \<in> set ?t" for q
    using that ok vm_row_ok_update [OF f] tr' unfolding set_update_rows store_ok_def vms_ok_def
    by blast
  then have "vms_ok (ordinal_index d) (volumes d) ?t"
    using cs unfolding vms_ok_iff_constraints by blast
  moreover have "suspended_vm ?t (pool_template_vm_id p)" if p: "p \<in> set (pools d)" for p
  proof -
    from ok p obtain r where r: "r \<in> set (vms d)" "vm_id r = pool_template_vm_id p"
        "vm_state r = ''suspended''"
      unfolding store_ok_def pools_ok_def suspended_vm_def by blast
    then have "P r \<Longrightarrow> vm_state (f r) = ''suspended''"
      using suspended_template_update [OF f _ r(3) tr'] p unfolding has_template_def by metis
    moreover have "vm_id (f r) = vm_id r" using f by (simp add: vm_frame_def)
    moreover have "(if P r then f r else r) \<in> set ?t" using r(1) by (auto simp: table_simps)
    ultimately show ?thesis
      using r unfolding suspended_vm_def by (metis (full_types))
  qed
  then have "pools_ok ?t (pools d)"
    using ok by (simp add: store_ok_def pools_ok_def)
  moreover have "vm_id ` set ?t = vm_id ` set (vms d)"
    using f by (intro image_update_rows) (simp add: vm_frame_def)
  then have "vm_refs_ok ?t (port_forwards d) (expirations d)"
    using ok by (simp add: store_ok_def vm_refs_ok_def)
  ultimately show "store_ok (d\<lparr>vms := ?t\<rparr>)"
    using ok by (simp add: store_ok_def)
qed

lemma keeps_delete_vms [keeps_store_ok]: "keeps store_ok (sql_delete_vms rep P)"
  unfolding sql_delete_vms_def
proof (rule keeps_statement)
  fix d :: db
  let ?t = "delete_rows P (vms d)" and ?gone = "vm_id ` set (filter P (vms d))"
  assume ok: "store_ok d"
    and tr: "raised [(\<exists>r \<in> set (vms d). P r \<and> has_template (pools d) (vm_id r),
      ''pool template cannot be deleted'')] = []"
  have "vms_ok (ordinal_index d) (volumes d) ?t"
    using ok by (auto simp: store_ok_def vms_ok_def unique_on_delete unique_some_delete table_simps)
  moreover have "pools_ok ?t (pools d)"
    using ok tr unfolding store_ok_def pools_ok_def suspended_vm_def has_template_def
    by (auto simp: table_simps split: if_splits) metis
  moreover have "x \<in> vm_id ` set ?t" if "x \<in> vm_id ` set (vms d)" "x \<notin> ?gone" for x
    using that by (auto simp: table_simps)
  then have "vm_refs_ok ?t (delete_rows (\<lambda>p. pf_vm_id p \<in> ?gone) (port_forwards d))
      (delete_rows (\<lambda>e. exp_vm_id e \<in> ?gone) (expirations d))"
    using ok unfolding store_ok_def vm_refs_ok_def set_delete_rows by (simp add: unique_on_delete)
  ultimately show "store_ok (let gone = ?gone in
      d\<lparr>vms := ?t, port_forwards := delete_rows (\<lambda>p. pf_vm_id p \<in> gone) (port_forwards d),
        expirations := delete_rows (\<lambda>e. exp_vm_id e \<in> gone) (expirations d)\<rparr>)"
    using ok by (simp add: store_ok_def Let_def)
qed

lemma keeps_create_ordinal_index [keeps_store_ok]: "keeps store_ok (sql_create_ordinal_index rep)"
  unfolding sql_create_ordinal_index_def
  by (rule keeps_statement) (auto simp: store_ok_def vms_ok_def split: if_splits)

lemma keeps_insert_expirations [keeps_store_ok]: "keeps store_ok (sql_insert_expirations rep e)"
  unfolding sql_insert_expirations_def
  by (rule keeps_statement) (auto simp: store_ok_def vm_refs_ok_def split: if_splits)

subsection \<open>Statements on the catalogs\<close>

lemma keeps_insert_port_forwards [keeps_store_ok]: "keeps store_ok (sql_insert_port_forwards rep p)"
  unfolding sql_insert_port_forwards_def
  by (rule keeps_statement)
    (auto simp: store_ok_def vm_refs_ok_def unique_on_append split: if_splits)

lemma keeps_delete_port_forwards [keeps_store_ok]: "keeps store_ok (sql_delete_port_forwards P)"
  unfolding sql_delete_port_forwards_def
  by (rule keeps_plain) (auto simp: store_ok_def vm_refs_ok_def unique_on_delete table_simps)

lemma keeps_insert_host_groups [keeps_store_ok]: "keeps store_ok (sql_insert_host_groups rep r)"
  unfolding sql_insert_host_groups_def
  by (rule keeps_statement) (auto simp: store_ok_def services_ok_def split: if_splits)

lemma keeps_delete_host_groups [keeps_store_ok]: "keeps store_ok (sql_delete_host_groups P)"
  unfolding sql_delete_host_groups_def Let_def
proof (rule keeps_plain)
  fix d :: db
  let ?gone = "hg_id ` set (filter P (host_groups d))"
  let ?orphan = "\<lambda>s :: service_row. \<exists>g. svc_host_group_id s = Some g \<and> g \<in> ?gone"
  let ?ss = "update_rows ?orphan (\<lambda>s. s\<lparr>svc_host_group_id := None\<rparr>) (services d)"
  assume ok: "store_ok d"
  have "set_option (svc_host_group_id s) \<subseteq> hg_id ` set (delete_rows P (host_groups d))"
    if s: "s \<in> set ?ss" for s
    using s ok unfolding set_update_rows set_delete_rows store_ok_def services_ok_def
    by (fastforce simp: image_iff)
  then show "store_ok (d\<lparr>host_groups := delete_rows P (host_groups d), services := ?ss\<rparr>)"
    using ok by (simp add: store_ok_def services_ok_def unique_on_delete unique_on_update)
qed

lemma keeps_insert_services [keeps_store_ok]: "keeps store_ok (sql_insert_services rep r)"
  unfolding sql_insert_services_def
  by (rule keeps_statement) (auto simp: store_ok_def services_ok_def split: if_splits)

lemma keeps_update_services:
  assumes "\<And>s. svc_id (f s) = svc_id s" "\<And>s. svc_name (f s) = svc_name s"
    "\<And>s. svc_host_group_id (f s) = svc_host_group_id s"
  shows "keeps store_ok (sql_update_services P f)"
  unfolding sql_update_services_def
  by (rule keeps_plain)
    (use assms in \<open>auto simp: store_ok_def services_ok_def unique_on_update table_simps\<close>)

lemma keeps_delete_services [keeps_store_ok]: "keeps store_ok (sql_delete_services P)"
  unfolding sql_delete_services_def
  by (rule keeps_plain) (auto simp: store_ok_def services_ok_def unique_on_delete table_simps)

lemma keeps_insert_snapshots [keeps_store_ok]: "keeps store_ok (sql_insert_snapshots rep r)"
  unfolding sql_insert_snapshots_def
  by (rule keeps_statement) (auto simp: store_ok_def catalogs_ok_def split: if_splits)

lemma keeps_delete_snapshots [keeps_store_ok]: "keeps store_ok (sql_delete_snapshots P)"
  unfolding sql_delete_snapshots_def
  by (rule keeps_plain) (auto simp: store_ok_def catalogs_ok_def unique_on_delete)

lemma keeps_insert_images [keeps_store_ok]: "keeps store_ok (sql_insert_images rep r)"
  unfolding sql_insert_images_def
  by (rule keeps_statement) (auto simp: store_ok_def catalogs_ok_def split: if_splits)

lemma keeps_delete_images [keeps_store_ok]: "keeps store_ok (sql_delete_images P)"
  unfolding sql_delete_images_def
  by (rule keeps_plain) (auto simp: store_ok_def catalogs_ok_def unique_on_delete table_simps)

lemma keeps_insert_secrets [keeps_store_ok]: "keeps store_ok (sql_insert_secrets rep r)"
  unfolding sql_insert_secrets_def
  by (rule keeps_statement) (auto simp: store_ok_def catalogs_ok_def split: if_splits)

lemma keeps_update_secrets:
  assumes "\<And>s. sec_id (f s) = sec_id s" "\<And>s. sec_name (f s) = sec_name s"
  shows "keeps store_ok (sql_update_secrets P f)"
  unfolding sql_update_secrets_def
  by (rule keeps_plain) (use assms in \<open>auto simp: store_ok_def catalogs_ok_def unique_on_update\<close>)

lemma keeps_delete_secrets [keeps_store_ok]: "keeps store_ok (sql_delete_secrets P)"
  unfolding sql_delete_secrets_def
  by (rule keeps_plain) (auto simp: store_ok_def catalogs_ok_def unique_on_delete)

lemma vm_row_ok_volumes:
  "vm_row_ok vols r \<Longrightarrow> \<not> volume_missing vols' (vm_volume r) \<Longrightarrow> vm_row_ok vols' r"
  by (simp add: vm_row_ok_def)

lemma volume_missing_append: "\<not> volume_missing vols v \<Longrightarrow> \<not> volume_missing (vols @ [r]) v"
  by (auto simp: volume_missing_def split: option.splits)

lemma keeps_insert_volumes [keeps_store_ok]: "keeps store_ok (sql_insert_volumes rep r)"
  unfolding sql_insert_volumes_def
proof (rule keeps_statement)
  fix d :: db
  let ?vs = "volumes d @ [r]"
  assume ok: "store_ok d"
    and cs: "raised [(\<not> unique_on vol_id ?vs, ''UNIQUE constraint failed: volumes.id''),
      (\<not> unique_on vol_name ?vs, ''UNIQUE constraint failed: volumes.name'')] = []"
  have "vm_row_ok ?vs q" if "q \<in> set (vms d)" for q
  proof (rule vm_row_ok_volumes [of "volumes d"])
    show "vm_row_ok (volumes d) q" using ok that by (simp add: store_ok_def vms_ok_def)
    then show "\<not> volume_missing ?vs (vm_volume q)"
      by (simp add: vm_row_ok_def volume_missing_append)
  qed
  then show "store_ok (d\<lparr>volumes := ?vs\<rparr>)"
    using ok cs by (simp add: store_ok_def vms_ok_def catalogs_ok_def split: if_splits)
qed

lemma keeps_delete_volumes [keeps_store_ok]: "keeps store_ok (sql_delete_volumes rep P)"
  unfolding sql_delete_volumes_def
proof (rule keeps_statement)
  fix d :: db
  assume ok: "store_ok d" and tr: "raised [(\<exists>v \<in> set (volumes d). P v \<and>
      (\<exists>r \<in> set (vms d). vm_volume r = Some (vol_name v)), ''volume is attached'')] = []"
  have "vm_row_ok (delete_rows P (volumes d)) q" if "q \<in> set (vms d)" for q
  proof (rule vm_row_ok_volumes [of "volumes d"])
    show "vm_row_ok (volumes d) q" using ok that by (simp add: store_ok_def vms_ok_def)
    then show "\<not> volume_missing (delete_rows P (volumes d)) (vm_volume q)"
      using tr that unfolding vm_row_ok_def volume_missing_def set_delete_rows
      by (fastforce split: option.splits if_splits)
  qed
  then show "store_ok (d\<lparr>volumes := delete_rows P (volumes d)\<rparr>)"
    using ok by (simp add: store_ok_def vms_ok_def catalogs_ok_def unique_on_delete)
qed

lemma keeps_insert_pools [keeps_store_ok]: "keeps store_ok (sql_insert_pools rep r)"
  unfolding sql_insert_pools_def
  by (rule keeps_statement) (auto simp: store_ok_def pools_ok_def split: if_splits)

lemma keeps_delete_pools [keeps_store_ok]: "keeps store_ok (sql_delete_pools P)"
  unfolding sql_delete_pools_def
  by (rule keeps_plain) (auto simp: store_ok_def pools_ok_def unique_on_delete table_simps)

lemma keeps_update_next_cid [keeps_store_ok]: "keeps store_ok (sql_update_next_cid f)"
  unfolding sql_update_next_cid_def by (rule keeps_plain) (simp add: store_ok_def)

lemma keeps_insert_or_ignore_freed_cids [keeps_store_ok]:
  "keeps store_ok (sql_insert_or_ignore_freed_cids c)"
  unfolding sql_insert_or_ignore_freed_cids_def by (rule keeps_plain) (simp add: store_ok_def)

lemma keeps_delete_freed_cids [keeps_store_ok]: "keeps store_ok (sql_delete_freed_cids P)"
  unfolding sql_delete_freed_cids_def
  by (rule keeps_plain) (simp add: store_ok_def delete_rows_def)

subsection \<open>Statements on leases and boot epochs\<close>

lemma keeps_insert_leases:
  assumes "\<not> lease_vm_destroyed r" "\<not> lease_allocation_aborted r"
  shows "keeps store_ok (sql_insert_leases rep r)"
  unfolding sql_insert_leases_def leases_constraints_def
  by (rule keeps_statement)
    (use assms in \<open>auto simp: store_ok_def leases_ok_def lease_flags_ok_def split: if_splits\<close>)

definition lease_frame :: "string list \<Rightarrow> (lease_row \<Rightarrow> lease_row) \<Rightarrow> bool" where
  "lease_frame cols f \<longleftrightarrow> (\<forall>r. lease_id (f r) = lease_id r
     \<and> (''vm_id'' \<notin> set cols \<longrightarrow> lease_vm_id (f r) = lease_vm_id r)
     \<and> (''backend_entered'' \<notin> set cols \<longrightarrow> lease_backend_entered (f r) = lease_backend_entered r)
     \<and> (''vm_destroyed'' \<notin> set cols \<longrightarrow> lease_vm_destroyed (f r) = lease_vm_destroyed r)
     \<and> (''allocation_aborted'' \<notin> set cols \<longrightarrow>
          lease_allocation_aborted (f r) = lease_allocation_aborted r)
     \<and> (''vm_name'' \<notin> set cols \<longrightarrow> lease_vm_name (f r) = lease_vm_name r)
     \<and> (''vsock_cid'' \<notin> set cols \<longrightarrow> lease_vsock_cid (f r) = lease_vsock_cid r)
     \<and> (''tap_device'' \<notin> set cols \<longrightarrow> lease_tap_device (f r) = lease_tap_device r)
     \<and> (''guest_ip'' \<notin> set cols \<longrightarrow> lease_guest_ip (f r) = lease_guest_ip r))"

lemma sets_any_iff: "sets_any cols watched \<longleftrightarrow> (\<exists>w \<in> set watched. w \<in> set cols)"
  by (auto simp: sets_any_def)

lemma lease_update_triggers_pass:
  "raised (lease_update_triggers cols d old new) = [] \<longleftrightarrow>
     (sets_any cols [''vm_id'', ''backend_entered'', ''vm_destroyed'', ''vm_name'', ''vsock_cid'',
          ''tap_device'', ''guest_ip''] \<longrightarrow> \<not> lease_identity_violation old new)
     \<and> (sets_any cols [''vm_id'', ''backend_entered'', ''allocation_aborted'', ''vm_name'',
          ''vsock_cid'', ''tap_device'', ''guest_ip''] \<longrightarrow> \<not> lease_plan_violation old new)
     \<and> (sets_any cols [''backend_entered''] \<longrightarrow> \<not> (lease_backend_entered new
          \<and> \<not> lease_backend_entered old \<and> reboot_confirmed (boot_epochs d) (lease_id old)))"
  unfolding lease_update_triggers_def by simp

lemma lease_update_flags_ok:
  assumes "lease_frame cols f" "lease_flags_ok l"
    and "raised (lease_update_triggers cols d l (f l)) = []"
  shows "lease_flags_ok (f l)"
proof -
  have identity: "sets_any cols [''vm_id'', ''backend_entered'', ''vm_destroyed'', ''vm_name'',
      ''vsock_cid'', ''tap_device'', ''guest_ip''] \<Longrightarrow> \<not> lease_identity_violation l (f l)"
    and plan: "sets_any cols [''vm_id'', ''backend_entered'', ''allocation_aborted'', ''vm_name'',
      ''vsock_cid'', ''tap_device'', ''guest_ip''] \<Longrightarrow> \<not> lease_plan_violation l (f l)"
    using assms(3) unfolding lease_update_triggers_pass by blast+
  have "lease_vm_destroyed (f l) \<longrightarrow> lease_backend_entered (f l) \<and> lease_vm_id (f l) \<noteq> None"
  proof (cases "sets_any cols [''vm_id'', ''backend_entered'', ''vm_destroyed'', ''vm_name'',
      ''vsock_cid'', ''tap_device'', ''guest_ip'']")
    case True
    with identity show ?thesis by (auto simp: lease_identity_violation_def)
  next
    case False
    with assms(1,2) show ?thesis by (simp add: sets_any_iff lease_frame_def lease_flags_ok_def)
  qed
  moreover have "lease_allocation_aborted (f l) \<longrightarrow>
      \<not> lease_backend_entered (f l) \<and> lease_vm_id (f l) \<noteq> None"
  proof (cases "sets_any cols [''vm_id'', ''backend_entered'', ''allocation_aborted'', ''vm_name'',
      ''vsock_cid'', ''tap_device'', ''guest_ip'']")
    case True
    with plan show ?thesis by (auto simp: lease_plan_violation_def)
  next
    case False
    with assms(1,2) show ?thesis by (simp add: sets_any_iff lease_frame_def lease_flags_ok_def)
  qed
  ultimately show ?thesis by (simp add: lease_flags_ok_def)
qed

lemma keeps_update_leases:
  assumes f: "lease_frame cols f"
  shows "keeps store_ok (sql_update_leases rep cols P f)"
  unfolding sql_update_leases_def
proof (rule keeps_statement)
  fix d :: db
  let ?t = "update_rows P f (leases d)"
  assume ok: "store_ok d" and cs: "raised (leases_constraints ?t) = []"
    and tr: "raised (concat (map (\<lambda>r. lease_update_triggers cols d r (f r)) (filter P (leases d)))) = []"
  have tr': "raised (lease_update_triggers cols d l (f l)) = []" if "l \<in> set (leases d)" "P l" for l
    using tr that by simp
  have "lease_flags_ok q" if "q \<in> set ?t" for q
    using that ok lease_update_flags_ok [OF f] tr' unfolding set_update_rows store_ok_def leases_ok_def
    by blast
  moreover have "lease_id ` set ?t = lease_id ` set (leases d)"
    using f by (intro image_update_rows) (simp add: lease_frame_def)
  moreover have "unique_on lease_id ?t \<and> unique_on lease_vm_name ?t \<and> unique_on lease_vsock_cid ?t"
    using cs by (simp add: leases_constraints_def split: if_splits)
  ultimately have "leases_ok ?t (boot_epochs d)"
    using ok unfolding store_ok_def leases_ok_def by simp
  then show "store_ok (d\<lparr>leases := ?t\<rparr>)"
    using ok by (simp add: store_ok_def)
qed

lemma keeps_delete_leases [keeps_store_ok]: "keeps store_ok (sql_delete_leases rep P)"
  unfolding sql_delete_leases_def
proof (rule keeps_statement)
  fix d :: db
  let ?t = "delete_rows P (leases d)" and ?gone = "lease_id ` set (filter P (leases d))"
  assume ok: "store_ok d"
  have "x \<in> lease_id ` set ?t" if "x \<in> lease_id ` set (leases d)" "x \<notin> ?gone" for x
    using that by (auto simp: table_simps)
  then have "leases_ok ?t (delete_rows (\<lambda>e. epoch_lease_id e \<in> ?gone) (boot_epochs d))"
    using ok unfolding store_ok_def leases_ok_def
    by (simp add: set_delete_rows unique_on_delete)
  then show "store_ok (let gone = ?gone in d\<lparr>leases := ?t,
      boot_epochs := delete_rows (\<lambda>e. epoch_lease_id e \<in> gone) (boot_epochs d)\<rparr>)"
    using ok by (simp add: store_ok_def Let_def)
qed

lemma keeps_insert_boot_epochs [keeps_store_ok]: "keeps store_ok (sql_insert_boot_epochs rep e)"
  unfolding sql_insert_boot_epochs_def
  by (rule keeps_statement) (auto simp: store_ok_def leases_ok_def split: if_splits)

lemma keeps_insert_or_ignore_boot_epochs [keeps_store_ok]:
  "keeps store_ok (sql_insert_or_ignore_boot_epochs rep e)"
  unfolding sql_insert_or_ignore_boot_epochs_def
  by (rule keeps_statement)
    (auto simp: store_ok_def leases_ok_def unique_on_append image_iff split: if_splits)

lemma keeps_update_boot_epochs [keeps_store_ok]: "keeps store_ok (sql_update_boot_epochs rep P f)"
  unfolding sql_update_boot_epochs_def
  by (rule keeps_statement)
    (auto simp: store_ok_def leases_ok_def table_simps split: if_splits intro!: unique_on_update)

lemma keeps_delete_boot_epochs [keeps_store_ok]: "keeps store_ok (sql_delete_boot_epochs rep P)"
  unfolding sql_delete_boot_epochs_def
  by (rule keeps_statement) (auto simp: store_ok_def leases_ok_def unique_on_delete table_simps)

subsection \<open>Statements on the journal\<close>

lemma raised_jobs_constraints:
  "raised (jobs_constraints t) = [] \<longleftrightarrow>
     unique_on job_id t \<and> unique_on job_submission_key t \<and> unique_on job_session_id t
     \<and> unique_some job_vm_id t \<and> unique_some job_pending_name t
     \<and> (\<forall>j \<in> set t. raised (job_checks j) = [])"
  by (auto simp: jobs_constraints_def)

lemma keeps_insert_jobs [keeps_store_ok]: "keeps store_ok (sql_insert_jobs rep j)"
  unfolding sql_insert_jobs_def
  by (rule keeps_statement) (auto simp: store_ok_def journal_ok_def raised_jobs_constraints)

lemma keeps_update_jobs:
  assumes f: "\<And>j. job_id (f j) = job_id j"
  shows "keeps store_ok (sql_update_jobs rep cols P f)"
  unfolding sql_update_jobs_def
proof (rule keeps_statement)
  fix d :: db
  let ?t = "update_rows P f (jobs d)"
  assume ok: "store_ok d" and cs: "raised (jobs_constraints ?t) = []"
  have "job_id ` set ?t = job_id ` set (jobs d)"
    using f by (intro image_update_rows)
  then have "journal_ok ?t (job_events d) (job_artifacts d)"
    using ok cs unfolding store_ok_def journal_ok_def raised_jobs_constraints by simp
  then show "store_ok (d\<lparr>jobs := ?t\<rparr>)"
    using ok by (simp add: store_ok_def)
qed

lemma keeps_delete_jobs [keeps_store_ok]: "keeps store_ok (sql_delete_jobs P)"
  unfolding sql_delete_jobs_def Let_def
proof (rule keeps_plain)
  fix d :: db
  let ?t = "delete_rows P (jobs d)" and ?gone = "job_id ` set (filter P (jobs d))"
  assume ok: "store_ok d"
  have "x \<in> job_id ` set ?t" if "x \<in> job_id ` set (jobs d)" "x \<notin> ?gone" for x
    using that by (auto simp: table_simps)
  then have "journal_ok ?t (delete_rows (\<lambda>e. ev_job_id e \<in> ?gone) (job_events d))
      (delete_rows (\<lambda>a. art_job_id a \<in> ?gone) (job_artifacts d))"
    using ok unfolding store_ok_def journal_ok_def
    by (simp add: set_delete_rows unique_on_delete unique_some_delete)
  then show "store_ok (d\<lparr>jobs := ?t,
      job_events := delete_rows (\<lambda>e. ev_job_id e \<in> ?gone) (job_events d),
      job_artifacts := delete_rows (\<lambda>a. art_job_id a \<in> ?gone) (job_artifacts d)\<rparr>)"
    using ok by (simp add: store_ok_def)
qed

lemma keeps_insert_job_events [keeps_store_ok]: "keeps store_ok (sql_insert_job_events rep e)"
  unfolding sql_insert_job_events_def
  by (rule keeps_statement) (auto simp: store_ok_def journal_ok_def split: if_splits)

lemma keeps_delete_job_events [keeps_store_ok]: "keeps store_ok (sql_delete_job_events P)"
  unfolding sql_delete_job_events_def
  by (rule keeps_plain) (auto simp: store_ok_def journal_ok_def unique_on_delete table_simps)

lemma keeps_insert_job_artifacts [keeps_store_ok]:
  "keeps store_ok (sql_insert_job_artifacts rep a)"
  unfolding sql_insert_job_artifacts_def
  by (rule keeps_statement) (auto simp: store_ok_def journal_ok_def split: if_splits)

lemma keeps_delete_job_artifacts [keeps_store_ok]: "keeps store_ok (sql_delete_job_artifacts P)"
  unfolding sql_delete_job_artifacts_def
  by (rule keeps_plain) (auto simp: store_ok_def journal_ok_def unique_on_delete table_simps)

end
