(* ===== verification/Cid_Allocator.thy ===== *)
theory Cid_Allocator
  imports Store_Invariant
begin

text \<open>
  The vsock CID allocator of \<open>crates/husker-state/src/lib.rs\<close> (\<open>allocate_cid\<close>,
  \<open>ensure_cid_base\<close>, \<open>release_cid\<close>): released CIDs are reused lowest first, and a counter
  supplies new ones.

  \<open>available\<close> is the abstract view: the CIDs a later allocation may return. The locale
  \<open>identity_source\<close> is the contract the users of the allocator rely on (a CID that is taken
  stays taken until it is put back) and it is interpreted on the three operations.
\<close>

subsection \<open>Statement results as store results\<close>

text \<open>\<open>?\<close> turns a \<open>rusqlite\<close> error into \<open>StateError::Database\<close>.\<close>

definition db_op :: "'a stmt \<Rightarrow> (db, StateError, 'a) op" where
  [op_simps]: "db_op m = map_err Database m"

definition db_val :: "sql_error + 'a \<Rightarrow> (db, StateError, 'a) op" where
  [op_simps]: "db_val r = lift_result (map_sum Database id r)"

lemma within_db_op [within_intros]: "within R m \<Longrightarrow> within R (db_op m)"
  by (simp add: db_op_def within_map_err)

lemma within_db_val [within_intros]: "preorder_on_states R \<Longrightarrow> within R (db_val r)"
  by (simp add: db_val_def within_lift_result)

text \<open>The check on the number of rows an \<open>execute\<close> changed.\<close>

definition affected :: "StateError \<Rightarrow> nat \<Rightarrow> (db, StateError, unit) op" where
  [op_simps]: "affected e n = (if n = 0 then err e else ok ())"

lemma within_affected [within_intros]: "preorder_on_states R \<Longrightarrow> within R (affected e n)"
  by (simp add: affected_def within_err within_ok)

subsection \<open>Operations\<close>

definition allocate_cid :: "(db, StateError, u32) op" where
  "allocate_cid = transaction (
     bind_op (query (\<lambda>d. Option.bind (lowest_freed d) try_u32)) (\<lambda>freed.
     case freed of
       Some cid \<Rightarrow> bind_op (db_op (sql_delete_freed_cids (\<lambda>c. c = uint cid))) (\<lambda>_. ok cid)
     | None \<Rightarrow>
         bind_op (query next_cid) (\<lambda>n.
         bind_op (db_val (get_u32 0 n)) (\<lambda>cid.
         bind_op (db_op (sql_update_next_cid (\<lambda>n. n + 1))) (\<lambda>_. ok cid)))))"

definition ensure_cid_base :: "u32 \<Rightarrow> (db, StateError, unit) op" where
  "ensure_cid_base base0 =
     (let base = max base0 3 in
      bind_op (db_op (sql_delete_freed_cids (\<lambda>c. c < uint base))) (\<lambda>_.
      db_op (sql_update_next_cid (\<lambda>n. max n (uint base)))))"

definition release_cid :: "u32 \<Rightarrow> (db, StateError, unit) op" where
  "release_cid cid = db_op (sql_insert_or_ignore_freed_cids (uint cid))"

lemma keeps_cid_operations [keeps_store_ok]:
  "keeps store_ok allocate_cid"
  "keeps store_ok (ensure_cid_base b)"
  "keeps store_ok (release_cid c)"
  unfolding allocate_cid_def ensure_cid_base_def release_cid_def
  by (intro within_intros keeps_store_ok preorder_keeps)+

subsection \<open>The contract of an identity source\<close>

locale identity_source =
  fixes good :: "'s \<Rightarrow> bool"
    and free :: "'s \<Rightarrow> int set"
    and take :: "'s \<Rightarrow> (int \<times> 's) option"
    and put :: "int \<Rightarrow> 's \<Rightarrow> 's"
    and issued :: "'s \<Rightarrow> int \<Rightarrow> bool"
  assumes take_free: "good s \<Longrightarrow> take s = Some (c, t) \<Longrightarrow> c \<in> free s"
    and take_removes: "good s \<Longrightarrow> take s = Some (c, t) \<Longrightarrow> free t = free s - {c}"
    and take_good: "good s \<Longrightarrow> take s = Some (c, t) \<Longrightarrow> good t"
    and put_adds: "good s \<Longrightarrow> issued s c \<Longrightarrow> free (put c s) = insert c (free s)"
    and put_good: "good s \<Longrightarrow> issued s c \<Longrightarrow> good (put c s)"
begin

text \<open>Taking several identities in a row.\<close>

fun take_many :: "nat \<Rightarrow> 's \<Rightarrow> (int list \<times> 's) option" where
  "take_many 0 s = Some ([], s)"
| "take_many (Suc n) s =
     (case take s of None \<Rightarrow> None
      | Some (c, t) \<Rightarrow>
          (case take_many n t of None \<Rightarrow> None | Some (cs, u) \<Rightarrow> Some (c # cs, u)))"

lemma take_many_props:
  "good s \<Longrightarrow> take_many n s = Some (cs, t) \<Longrightarrow>
    good t \<and> distinct cs \<and> set cs \<subseteq> free s \<and> free t = free s - set cs \<and> length cs = n"
proof (induction n arbitrary: s cs)
  case 0
  then show ?case by simp
next
  case (Suc n)
  from Suc.prems(2) obtain c u ds where
    one: "take s = Some (c, u)" and rest: "take_many n u = Some (ds, t)" and cs: "cs = c # ds"
    by (auto split: option.splits prod.splits)
  note IH = Suc.IH [OF take_good [OF Suc.prems(1) one] rest]
  show ?case
    using IH take_free [OF Suc.prems(1) one] take_removes [OF Suc.prems(1) one] cs by auto
qed

lemma retake_after_put:
  "good s \<Longrightarrow> issued s c \<Longrightarrow> take (put c s) = Some (e, t) \<Longrightarrow> e = c \<or> e \<in> free s"
  using take_free [OF put_good] put_adds by blast

end

subsection \<open>The allocator meets the contract\<close>

definition available :: "db \<Rightarrow> int set" where
  "available d = set (freed_cids d) \<union> {c. next_cid d \<le> c}"

text \<open>Freed CIDs were issued before, and 0 to 2 are reserved by vsock.\<close>

definition cids_ok :: "db \<Rightarrow> bool" where
  "cids_ok d \<longleftrightarrow> 3 \<le> next_cid d \<and> distinct (freed_cids d)
     \<and> (\<forall>c \<in> set (freed_cids d). 3 \<le> c \<and> c < next_cid d \<and> c < 2 ^ 32)"

definition take_cid :: "db \<Rightarrow> (int \<times> db) option" where
  "take_cid d = (case allocate_cid d of (Inr c, d') \<Rightarrow> Some (uint c, d') | _ \<Rightarrow> None)"

definition put_cid :: "int \<Rightarrow> db \<Rightarrow> db" where
  "put_cid c d = snd (release_cid (word_of_int c) d)"

definition issued_cid :: "db \<Rightarrow> int \<Rightarrow> bool" where
  "issued_cid d c \<longleftrightarrow> 3 \<le> c \<and> c < next_cid d \<and> c < 2 ^ 32"

lemma fold_min_le: "fold min cs (c :: int) \<le> c \<and> (\<forall>x \<in> set cs. fold min cs c \<le> x)"
proof (induction cs arbitrary: c)
  case Nil
  then show ?case by simp
next
  case (Cons x cs)
  have "fold min cs (min x c) \<le> min x c" and "\<forall>y \<in> set cs. fold min cs (min x c) \<le> y"
    using Cons [of "min x c"] by blast+
  then show ?case by simp
qed

lemma fold_min_mem: "fold min cs (c :: int) \<in> insert c (set cs)"
proof (induction cs arbitrary: c)
  case Nil
  then show ?case by simp
next
  case (Cons x cs)
  then show ?case using Cons [of "min x c"] by (auto simp: min_def)
qed

lemma lowest_freed_Some:
  "lowest_freed d = Some c \<longleftrightarrow> c \<in> set (freed_cids d) \<and> (\<forall>x \<in> set (freed_cids d). c \<le> x)"
proof (cases "freed_cids d")
  case Nil
  then show ?thesis by (simp add: lowest_freed_def)
next
  case (Cons a as)
  have le: "fold min as a \<le> a" "\<And>x. x \<in> set as \<Longrightarrow> fold min as a \<le> x"
    and mem: "fold min as a \<in> insert a (set as)"
    using fold_min_le [of as a] fold_min_mem [of as a] by blast+
  show ?thesis
  proof
    assume "lowest_freed d = Some c"
    then show "c \<in> set (freed_cids d) \<and> (\<forall>x \<in> set (freed_cids d). c \<le> x)"
      using Cons le mem by (auto simp: lowest_freed_def)
  next
    assume c: "c \<in> set (freed_cids d) \<and> (\<forall>x \<in> set (freed_cids d). c \<le> x)"
    have "fold min as a = c"
      using c le mem Cons by (intro antisym) auto
    then show "lowest_freed d = Some c" using Cons by (simp add: lowest_freed_def)
  qed
qed

lemma lowest_freed_None: "lowest_freed d = None \<longleftrightarrow> freed_cids d = []"
  by (simp add: lowest_freed_def split: list.splits)

lemma insert_or_ignore_freed:
  obtains d0 where "sql_insert_or_ignore_freed_cids c d = (Inr (), d0)"
    "set (freed_cids d0) = insert c (set (freed_cids d))" "d0 = d\<lparr>freed_cids := freed_cids d0\<rparr>"
  by (cases "c \<in> set (freed_cids d)") (auto simp: sql_insert_or_ignore_freed_cids_def)

text \<open>Both branches of an allocation, spelled out.\<close>

lemma allocate_cid_freed:
  assumes "lowest_freed d = Some c" "0 \<le> c" "c < 2 ^ 32"
  shows "allocate_cid d =
    (Inr (word_of_int c), d\<lparr>freed_cids := delete_rows (\<lambda>x. x = c) (freed_cids d)\<rparr>)"
  using assms by (simp add: allocate_cid_def op_simps try_u32_def sql_delete_freed_cids_def
      uint_u32)

lemma allocate_cid_counter:
  assumes "lowest_freed d = None"
  shows "allocate_cid d =
    (if 0 \<le> next_cid d \<and> next_cid d < 2 ^ 32
     then (Inr (word_of_int (next_cid d)), d\<lparr>next_cid := next_cid d + 1\<rparr>)
     else (Inl (Database (IntegralValueOutOfRange 0 (next_cid d))), d))"
  using assms by (simp add: allocate_cid_def op_simps get_u32_def try_u32_def
      sql_update_next_cid_def ok_or_def)

lemma allocate_cid_cases:
  assumes "cids_ok d"
  obtains (freed) c where "lowest_freed d = Some c"
      "allocate_cid d =
        (Inr (word_of_int c), d\<lparr>freed_cids := delete_rows (\<lambda>x. x = c) (freed_cids d)\<rparr>)"
      "uint (word_of_int c :: u32) = c" "c \<in> set (freed_cids d)"
  | (counter) "freed_cids d = []" "next_cid d < 2 ^ 32"
      "allocate_cid d = (Inr (word_of_int (next_cid d)), d\<lparr>next_cid := next_cid d + 1\<rparr>)"
      "uint (word_of_int (next_cid d) :: u32) = next_cid d"
  | (exhausted) "freed_cids d = []" "2 ^ 32 \<le> next_cid d"
      "allocate_cid d = (Inl (Database (IntegralValueOutOfRange 0 (next_cid d))), d)"
proof (cases "lowest_freed d")
  case None
  then have "freed_cids d = []" by (simp add: lowest_freed_None)
  moreover have "3 \<le> next_cid d" using assms by (simp add: cids_ok_def)
  ultimately show thesis
    using allocate_cid_counter [OF None] counter exhausted
    by (cases "next_cid d < 2 ^ 32") (simp_all add: uint_u32)
next
  case (Some c)
  then have c: "c \<in> set (freed_cids d)" by (simp add: lowest_freed_Some)
  with assms have "3 \<le> c" "c < 2 ^ 32" by (auto simp: cids_ok_def)
  then show thesis
    using freed [OF Some] allocate_cid_freed [OF Some] c by (simp add: uint_u32)
qed

lemma allocate_cid_effect:
  assumes ok: "cids_ok d" and run: "allocate_cid d = (Inr c, d')"
  shows "uint c \<in> available d \<and> 3 \<le> uint c \<and> available d' = available d - {uint c}
    \<and> cids_ok d'"
  using ok
proof (cases rule: allocate_cid_cases)
  case (freed k)
  then show ?thesis using run ok
    by (auto simp: available_def cids_ok_def table_simps delete_rows_def)
next
  case counter
  then show ?thesis using run ok by (auto simp: available_def cids_ok_def)
next
  case exhausted
  then show ?thesis using run by simp
qed

lemma release_cid_effect:
  assumes "cids_ok d" "issued_cid d (uint c)" "release_cid c d = (r, d')"
  shows "r = Inr () \<and> available d' = insert (uint c) (available d) \<and> cids_ok d'"
  using assms
  by (auto simp: release_cid_def op_simps sql_insert_or_ignore_freed_cids_def available_def
      cids_ok_def issued_cid_def split: if_splits)

interpretation cid_source: identity_source cids_ok available take_cid put_cid issued_cid
proof
  fix s c t
  assume s: "cids_ok s"
  {
    assume "take_cid s = Some (c, t)"
    then obtain w where w: "allocate_cid s = (Inr w, t)" "c = uint w"
      by (auto simp: take_cid_def split: prod.splits sum.splits)
    note eff = allocate_cid_effect [OF s w(1)]
    show "c \<in> available s" "available t = available s - {c}" "cids_ok t"
      using eff w(2) by auto
  }
  {
    assume i: "issued_cid s c"
    then have u: "uint (word_of_int c :: u32) = c"
      by (simp add: issued_cid_def uint_u32)
    obtain r d where rd: "release_cid (word_of_int c) s = (r, d)"
      by (cases "release_cid (word_of_int c) s")
    have "available d = insert c (available s) \<and> cids_ok d"
      using release_cid_effect [OF s _ rd] i u by simp
    then show "available (put_cid c s) = insert c (available s)" "cids_ok (put_cid c s)"
      using rd by (simp_all add: put_cid_def)
  }
qed

subsection \<open>Disjoint ranges\<close>

lemma ensure_cid_base_effect:
  "ensure_cid_base b d =
    (Inr (), d\<lparr>freed_cids := delete_rows (\<lambda>c. c < uint (max b 3)) (freed_cids d),
               next_cid := max (next_cid d) (uint (max b 3))\<rparr>)"
  by (simp add: ensure_cid_base_def Let_def op_simps sql_delete_freed_cids_def sql_update_next_cid_def)

lemma ensure_cid_base_ok: "cids_ok d \<Longrightarrow> ensure_cid_base b d = (r, d') \<Longrightarrow> cids_ok d'"
  by (auto simp: ensure_cid_base_effect cids_ok_def delete_rows_def less_max_iff_disj)

lemma ensure_cid_base_floor:
  assumes "ensure_cid_base b d = (r, d')"
  shows "available d' \<subseteq> available d \<inter> {c. uint b \<le> c \<and> 3 \<le> c}"
proof -
  have "uint b \<le> uint (max b 3)" "uint (3 :: u32) \<le> uint (max b 3)"
    by (simp_all add: max_def word_le_def)
  then show ?thesis
    using assms by (auto simp: ensure_cid_base_effect available_def table_simps)
qed

end
