(* ===== verification/Named_Catalog.thy ===== *)
theory Named_Catalog
  imports Cid_Allocator
begin

text \<open>
  The contract shared by the tables of named records (VMs, host groups, services, snapshots,
  images, secrets, volumes): a record is inserted once, found by its id and by its name until
  it is deleted, and a failing call leaves the store as it was. The callers of the store rely
  on this contract only. Each table's theory interprets it on its own operations.
\<close>

subsection \<open>One-row queries\<close>

text \<open>\<open>query_row\<close> with \<open>QueryReturnedNoRows\<close> mapped to the given error.\<close>

definition one_row :: "StateError \<Rightarrow> ('r \<Rightarrow> sql_error + 'a) \<Rightarrow> 'r option \<Rightarrow> (db, StateError, 'a) op" where
  "one_row missing convert row =
     (case row of None \<Rightarrow> err missing | Some r \<Rightarrow> db_val (convert r))"

lemma one_row_simps [simp]:
  "one_row e c None = err e"
  "one_row e c (Some r) = db_val (c r)"
  by (simp_all add: one_row_def)

lemma within_one_row [within_intros]: "preorder_on_states R \<Longrightarrow> within R (one_row e c r)"
  by (auto simp: one_row_def intro!: within_intros split: option.splits)

text \<open>The answer of a one-row query on a table.\<close>

definition row_answer ::
  "('e) \<Rightarrow> ('w \<Rightarrow> 'e + 'r) \<Rightarrow> ('w \<Rightarrow> bool) \<Rightarrow> 'w list \<Rightarrow> 'e + 'r" where
  "row_answer missing decode P t =
     (case find P t of None \<Rightarrow> Inl missing | Some w \<Rightarrow> decode w)"

lemma query_one_row:
  "bind_op (query (\<lambda>d. find P (t d))) (one_row e c) d =
    (row_answer e (\<lambda>w. map_sum Database id (c w)) P (t d), d)"
  by (simp add: bind_op_def query_def row_answer_def op_simps split: option.splits)

subsection \<open>The contract\<close>

locale name_catalog =
  fixes good :: "'s \<Rightarrow> bool"
    and rows :: "'s \<Rightarrow> 'w list"
    and row_id :: "'w \<Rightarrow> Uuid"
    and row_name :: "'w \<Rightarrow> string"
    and encode :: "'r \<Rightarrow> 'w"
    and decode :: "'w \<Rightarrow> 'e + 'r"
    and not_found :: "Uuid \<Rightarrow> 'e"
    and not_found_by_name :: "string \<Rightarrow> 'e"
    and ins :: "'r \<Rightarrow> ('s, 'e, unit) op"
    and get_by_name :: "string \<Rightarrow> ('s, 'e, 'r) op"
    and del :: "Uuid \<Rightarrow> ('s, 'e, unit) op"
  assumes unique_ids: "good d \<Longrightarrow> unique_on row_id (rows d)"
    and unique_names: "good d \<Longrightarrow> unique_on row_name (rows d)"
    and insert_ok: "good d \<Longrightarrow> ins r d = (Inr (), d') \<Longrightarrow>
      good d' \<and> rows d' = rows d @ [encode r] \<and> decode (encode r) = Inr r"
    and insert_err: "ins r d = (Inl e, d') \<Longrightarrow> d' = d"
    and get_by_name_answer: "get_by_name n d =
      (row_answer (not_found_by_name n) decode (\<lambda>w. row_name w = n) (rows d), d)"
    and delete_ok: "good d \<Longrightarrow> del i d = (Inr (), d') \<Longrightarrow>
      good d' \<and> rows d' = delete_rows (\<lambda>w. row_id w = i) (rows d)"
    and delete_err: "del i d = (Inl e, d') \<Longrightarrow> d' = d"
    and delete_missing: "i \<notin> row_id ` set (rows d) \<Longrightarrow> del i d = (Inl (not_found i), d)"
begin

lemma inserted_is_new:
  assumes "good d" "ins r d = (Inr (), d')"
  shows "row_id (encode r) \<notin> row_id ` set (rows d) \<and> row_name (encode r) \<notin> row_name ` set (rows d)"
proof -
  from insert_ok [OF assms] have "good d'" "rows d' = rows d @ [encode r]" by auto
  with unique_ids [of d'] unique_names [of d'] show ?thesis
    by (force simp: unique_on_append)
qed

lemma get_named_inserted:
  assumes "good d" "ins r d = (Inr (), d')"
  shows "get_by_name (row_name (encode r)) d' = (Inr r, d')"
proof -
  from insert_ok [OF assms] have "rows d' = rows d @ [encode r]" "decode (encode r) = Inr r" by auto
  moreover from inserted_is_new [OF assms]
  have "find (\<lambda>w. row_name w = row_name (encode r)) (rows d) = None"
    by (auto simp: find_None_iff image_iff)
  ultimately show ?thesis
    by (simp add: get_by_name_answer row_answer_def find_append_new)
qed

lemma get_other_name_after_insert:
  assumes "good d" "ins r d = (Inr (), d')" "n \<noteq> row_name (encode r)"
  shows "fst (get_by_name n d') = fst (get_by_name n d)"
  using insert_ok [OF assms(1,2)] assms(3)
  by (auto simp: get_by_name_answer row_answer_def find_append_new split: option.splits)

lemma insert_clash_fails:
  assumes "good d" "row_id (encode q) \<in> row_id ` set (rows d) \<or> row_name (encode q) \<in> row_name ` set (rows d)"
  shows "\<exists>e. ins q d = (Inl e, d)"
proof -
  obtain x u where x: "ins q d = (x, u)" by (cases "ins q d")
  show ?thesis
  proof (cases x)
    case (Inl e)
    then show ?thesis using insert_err x by blast
  next
    case (Inr y)
    then have "ins q d = (Inr (), u)" using x by simp
    from inserted_is_new [OF assms(1) this] assms(2) show ?thesis by auto
  qed
qed

lemma insert_twice_fails:
  assumes "good d" "ins r d = (Inr (), d')"
    "row_id (encode q) = row_id (encode r) \<or> row_name (encode q) = row_name (encode r)"
  shows "\<exists>e. ins q d' = (Inl e, d')"
  by (rule insert_clash_fails) (use insert_ok [OF assms(1,2)] assms(3) in auto)

lemma get_named_deleted:
  assumes "good d" "del i d = (Inr (), d')" "w \<in> set (rows d)" "row_id w = i"
  shows "get_by_name (row_name w) d' = (Inl (not_found_by_name (row_name w)), d')"
proof -
  have "find (\<lambda>v. row_name v = row_name w) (rows d') = None"
    using delete_ok [OF assms(1,2)] unique_onD [OF unique_names [OF assms(1)] _ assms(3)] assms(4)
    by (auto simp: find_None_iff table_simps)
  then show ?thesis by (simp add: get_by_name_answer row_answer_def)
qed

lemma delete_undoes_insert:
  assumes "good d" "ins r d = (Inr (), d')" "del (row_id (encode r)) d' = (Inr (), d'')"
  shows "rows d'' = rows d"
proof -
  have "rows d'' = delete_rows (\<lambda>w. row_id w = row_id (encode r)) (rows d @ [encode r])"
    using insert_ok [OF assms(1,2)] delete_ok assms(3) by metis
  also have "\<dots> = filter (\<lambda>w. row_id w \<noteq> row_id (encode r)) (rows d)"
    by (simp add: delete_rows_def)
  also have "\<dots> = rows d"
    using inserted_is_new [OF assms(1,2)] by (auto simp: filter_id_conv image_iff)
  finally show ?thesis .
qed

lemma delete_twice_fails:
  assumes "good d" "del i d = (Inr (), d')"
  shows "del i d' = (Inl (not_found i), d')"
  by (rule delete_missing) (use delete_ok [OF assms] in \<open>auto simp: table_simps\<close>)

end

text \<open>Most of the tables also look a record up by its id.\<close>

locale named_catalog = name_catalog +
  fixes get
  assumes get_answer: "get i d =
      (row_answer (not_found i) decode (\<lambda>w. row_id w = i) (rows d), d)"
begin

lemma get_inserted:
  assumes "good d" "ins r d = (Inr (), d')"
  shows "get (row_id (encode r)) d' = (Inr r, d')"
proof -
  from insert_ok [OF assms] have "rows d' = rows d @ [encode r]" "decode (encode r) = Inr r" by auto
  moreover from inserted_is_new [OF assms]
  have "find (\<lambda>w. row_id w = row_id (encode r)) (rows d) = None"
    by (auto simp: find_None_iff image_iff)
  ultimately show ?thesis
    by (simp add: get_answer row_answer_def find_append_new)
qed

lemma get_other_after_insert:
  assumes "good d" "ins r d = (Inr (), d')" "i \<noteq> row_id (encode r)"
  shows "fst (get i d') = fst (get i d)"
  using insert_ok [OF assms(1,2)] assms(3)
  by (auto simp: get_answer row_answer_def find_append_new split: option.splits)

lemma get_deleted:
  assumes "good d" "del i d = (Inr (), d')"
  shows "get i d' = (Inl (not_found i), d')"
  using delete_ok [OF assms]
  by (auto simp: get_answer row_answer_def find_None_iff delete_rows_def split: option.splits
      dest!: find_SomeD)

lemma get_other_after_delete:
  assumes "good d" "del i d = (Inr (), d')" "j \<noteq> i"
  shows "fst (get j d') = fst (get j d)"
  using delete_ok [OF assms(1,2)] assms(3)
  by (simp add: get_answer row_answer_def find_delete_rows)

end

end
