(* ===== verification/Vm_Store.thy ===== *)
theory Vm_Store
  imports Named_Catalog
begin

text \<open>
  The VM records of \<open>crates/husker-state/src/lib.rs\<close>: insertion with its error classification,
  lookups, the column updates, deletion and retirement, hard lifetimes, port forwards, the
  userdata status machine and the start-up reconciliation \<open>mark_stale_vms_stopped\<close>.

  The clock reading \<open>Utc::now()\<close> is the argument \<open>now\<close>. An \<open>ORDER BY\<close> on a timestamp column
  sorts its RFC 3339 text, a parameter \<open>rfc3339\<close>.
\<close>

subsection \<open>Insertion\<close>

definition volume_exists :: "string \<Rightarrow> db \<Rightarrow> bool" where
  "volume_exists v d \<longleftrightarrow> (\<exists>r \<in> set (volumes d). vol_name r = v)"

definition volume_owner :: "string \<Rightarrow> db \<Rightarrow> string option" where
  "volume_owner v d = map_option vm_name (find (\<lambda>r. vm_volume r = Some v) (vms d))"

definition insert_vm_error :: "VmRecord \<Rightarrow> sql_error \<Rightarrow> (db, StateError, unit) op" where
  "insert_vm_error record error =
     (case error of
        ConstraintViolation message \<Rightarrow>
          if contains message ''vms.name'' then err (VmAlreadyExists (vm_name record))
          else if contains message ''vms.volume'' then
            (let volume = case_option [] id (vm_volume record) in
             bind_op (query (volume_owner volume)) (\<lambda>owner.
             bind_op (db_val (ok_or QueryReturnedNoRows owner)) (\<lambda>vm.
             err (VolumeAttached volume vm))))
          else if contains message ''attached volume does not exist''
            then err (VolumeNotFoundByName (case_option [] id (vm_volume record)))
          else err (Database error)
      | _ \<Rightarrow> err (Database error))"

definition insert_vm_on :: "reporter \<Rightarrow> VmRecord \<Rightarrow> (db, StateError, unit) op" where
  "insert_vm_on rep record =
     bind_op
       (case vm_volume record of None \<Rightarrow> ok ()
        | Some volume \<Rightarrow>
            bind_op (query (volume_exists volume)) (\<lambda>exists.
            if \<not> exists then err (VolumeNotFoundByName volume)
            else bind_op (query (volume_owner volume)) (\<lambda>owner.
              case owner of Some vm \<Rightarrow> err (VolumeAttached volume vm) | None \<Rightarrow> ok ())))
       (\<lambda>_. or_else (sql_insert_vms rep (vm_to_row record)) (insert_vm_error record))"

definition insert_vm :: "reporter \<Rightarrow> VmRecord \<Rightarrow> (db, StateError, unit) op" where
  "insert_vm rep record = insert_vm_on rep record"

definition insert_vm_expiration_on :: "reporter \<Rightarrow> VmExpirationRecord \<Rightarrow> (db, StateError, unit) op" where
  "insert_vm_expiration_on rep e =
     db_op (sql_insert_expirations rep
       \<lparr>exp_vm_id = exp_vm_id e, exp_owner = exp_owner e,
        exp_expires_at = timestamp (exp_expires_at e)\<rparr>)"

definition insert_vm_with_expiration ::
  "reporter \<Rightarrow> VmRecord \<Rightarrow> VmExpirationRecord option \<Rightarrow> (db, StateError, unit) op" where
  "insert_vm_with_expiration rep record expiration =
     (if \<exists>value. expiration = Some value \<and> exp_vm_id value \<noteq> vm_id record
      then err (VmExpirationMismatch (vm_id record))
      else transaction (
        bind_op (insert_vm_on rep record) (\<lambda>_.
        case expiration of None \<Rightarrow> ok () | Some e \<Rightarrow> insert_vm_expiration_on rep e)))"

subsection \<open>Hard lifetimes\<close>

text \<open>\<open>DateTime::from_timestamp\<close> of \<open>chrono\<close> is a parameter.\<close>

definition row_to_vm_expiration_record ::
  "(int \<Rightarrow> DateTime option) \<Rightarrow> expiration_row \<Rightarrow> sql_error + VmExpirationRecord" where
  "row_to_vm_expiration_record from_timestamp row =
     and_then (ok_or (FromSqlConversionFailure 2) (from_timestamp (exp_expires_at row))) (\<lambda>t.
     Inr \<lparr>exp_vm_id = exp_vm_id row, exp_owner = exp_owner row, exp_expires_at = t\<rparr>)"

definition get_vm_expiration ::
  "(int \<Rightarrow> DateTime option) \<Rightarrow> Uuid \<Rightarrow> (db, StateError, VmExpirationRecord option) op" where
  "get_vm_expiration from_timestamp vm =
     bind_op (query (\<lambda>d. find (\<lambda>e. exp_vm_id e = vm) (expirations d))) (\<lambda>row.
     db_val (traverse_option (row_to_vm_expiration_record from_timestamp) row))"

definition list_vm_expirations ::
  "(int \<Rightarrow> DateTime option) \<Rightarrow> (db, StateError, VmExpirationRecord list) op" where
  "list_vm_expirations from_timestamp =
     bind_op (query (\<lambda>d. sort_key exp_expires_at (expirations d))) (\<lambda>rows.
     db_val (collect_results (map (row_to_vm_expiration_record from_timestamp) rows)))"

definition list_expired_vm_ids :: "DateTime \<Rightarrow> (db, StateError, Uuid list) op" where
  "list_expired_vm_ids now =
     query (\<lambda>d. map exp_vm_id
       (sort_key exp_expires_at (filter (\<lambda>e. exp_expires_at e \<le> timestamp now) (expirations d))))"

subsection \<open>Lookups\<close>

definition get_vm :: "Uuid \<Rightarrow> (db, StateError, VmRecord) op" where
  "get_vm i = bind_op (query (\<lambda>d. find (\<lambda>r. vm_id r = i) (vms d)))
     (one_row (VmNotFound i) row_to_vm_record)"

definition get_vm_by_name :: "string \<Rightarrow> (db, StateError, VmRecord) op" where
  "get_vm_by_name n = bind_op (query (\<lambda>d. find (\<lambda>r. vm_name r = n) (vms d)))
     (one_row (VmNotFoundByName n) row_to_vm_record)"

definition list_vms :: "(DateTime \<Rightarrow> string) \<Rightarrow> (db, StateError, VmRecord list) op" where
  "list_vms rfc3339 =
     bind_op (query (\<lambda>d. sort_key (\<lambda>r. rfc3339 (vm_created_at r)) (vms d))) (\<lambda>rows.
     db_val (collect_results (map row_to_vm_record rows)))"

definition count_vms :: "(db, StateError, VmCounts) op" where
  "count_vms = query (\<lambda>d. \<lparr>total = length (vms d),
     running = count_rows (\<lambda>r. vm_state r = lifecycle_as_str Running) (vms d)\<rparr>)"

definition list_vms_for_service :: "Uuid \<Rightarrow> (db, StateError, VmRecord list) op" where
  "list_vms_for_service s =
     bind_op (query (\<lambda>d. sort_key vm_service_ordinal
       (filter (\<lambda>r. vm_service_id r = Some s) (vms d)))) (\<lambda>rows.
     db_val (collect_results (map row_to_vm_record rows)))"

definition sql_state_list :: "VmLifecycleState list \<Rightarrow> string list" where
  "sql_state_list = map lifecycle_as_str"

definition count_live_forks_of :: "Uuid \<Rightarrow> (db, StateError, nat) op" where
  "count_live_forks_of source =
     query (\<lambda>d. count_rows
       (\<lambda>r. vm_forked_from r = Some source
          \<and> vm_state r \<in> set (sql_state_list (filter (\<lambda>s. \<not> is_terminal s) VmLifecycleState_ALL))) (vms d))"

definition find_vm_by_volume :: "string \<Rightarrow> (db, StateError, VmRecord option) op" where
  "find_vm_by_volume volume =
     bind_op (query (\<lambda>d. find (\<lambda>r. vm_volume r = Some volume) (vms d))) (\<lambda>row.
     db_val (traverse_option row_to_vm_record row))"

subsection \<open>Column updates\<close>

definition update_vm ::
  "reporter \<Rightarrow> string list \<Rightarrow> Uuid \<Rightarrow> (vm_row \<Rightarrow> vm_row) \<Rightarrow> (db, StateError, unit) op" where
  "update_vm rep cols i f =
     bind_op (db_op (sql_update_vms rep cols (\<lambda>r. vm_id r = i) f)) (affected (VmNotFound i))"

definition update_vm_state ::
  "reporter \<Rightarrow> DateTime \<Rightarrow> Uuid \<Rightarrow> VmLifecycleState \<Rightarrow> (db, StateError, unit) op" where
  "update_vm_state rep now i state = update_vm rep [''state'', ''updated_at''] i
     (\<lambda>r. r\<lparr>vm_state := lifecycle_as_str state, vm_updated_at := now\<rparr>)"

definition update_vm_runtime ::
  "reporter \<Rightarrow> DateTime \<Rightarrow> Uuid \<Rightarrow> VmLifecycleState \<Rightarrow> u32 option \<Rightarrow> (db, StateError, unit) op" where
  "update_vm_runtime rep now i state pid = update_vm rep [''state'', ''pid'', ''updated_at''] i
     (\<lambda>r. r\<lparr>vm_state := lifecycle_as_str state, vm_pid := map_option uint pid,
             vm_updated_at := now\<rparr>)"

definition mark_vm_stopped :: "reporter \<Rightarrow> DateTime \<Rightarrow> Uuid \<Rightarrow> (db, StateError, unit) op" where
  "mark_vm_stopped rep now i = update_vm rep [''state'', ''pid'', ''suspended_at'', ''updated_at''] i
     (\<lambda>r. r\<lparr>vm_state := ''stopped'', vm_pid := None, vm_suspended_at := None,
             vm_updated_at := now\<rparr>)"

definition clear_vm_network_resources :: "reporter \<Rightarrow> DateTime \<Rightarrow> Uuid \<Rightarrow> (db, StateError, unit) op" where
  "clear_vm_network_resources rep now i =
     update_vm rep [''tap_device'', ''host_ip'', ''guest_ip'', ''updated_at''] i
     (\<lambda>r. r\<lparr>vm_tap_device := None, vm_host_ip := None, vm_guest_ip := None,
             vm_updated_at := now\<rparr>)"

definition touch_last_activity :: "reporter \<Rightarrow> Uuid \<Rightarrow> DateTime \<Rightarrow> (db, StateError, unit) op" where
  "touch_last_activity rep i at = update_vm rep [''last_activity_at''] i
     (\<lambda>r. r\<lparr>vm_last_activity_at := Some at\<rparr>)"

definition set_suspended_at :: "reporter \<Rightarrow> Uuid \<Rightarrow> DateTime option \<Rightarrow> (db, StateError, unit) op" where
  "set_suspended_at rep i at = update_vm rep [''suspended_at''] i
     (\<lambda>r. r\<lparr>vm_suspended_at := at\<rparr>)"

definition set_idle_policy ::
  "reporter \<Rightarrow> Uuid \<Rightarrow> u64 option \<Rightarrow> u64 option \<Rightarrow> bool \<Rightarrow> (db, StateError, unit) op" where
  "set_idle_policy rep i idle ttl auto =
     update_vm rep [''idle_timeout_secs'', ''suspend_ttl_secs'', ''auto_resume''] i
     (\<lambda>r. r\<lparr>vm_idle_timeout_secs := map_option as_i64 idle,
             vm_suspend_ttl_secs := map_option as_i64 ttl, vm_auto_resume := int_of_bool auto\<rparr>)"

definition update_vm_guest_ip ::
  "reporter \<Rightarrow> DateTime \<Rightarrow> Uuid \<Rightarrow> string \<Rightarrow> (db, StateError, unit) op" where
  "update_vm_guest_ip rep now i ip = update_vm rep [''guest_ip'', ''updated_at''] i
     (\<lambda>r. r\<lparr>vm_guest_ip := Some ip, vm_updated_at := now\<rparr>)"

definition delete_vm :: "reporter \<Rightarrow> Uuid \<Rightarrow> (db, StateError, unit) op" where
  "delete_vm rep i =
     bind_op (db_op (sql_delete_vms rep (\<lambda>r. vm_id r = i))) (affected (VmNotFound i))"

definition retire_vm :: "reporter \<Rightarrow> Uuid \<Rightarrow> (db, StateError, unit) op" where
  "retire_vm rep i = transaction (
     bind_op (query (\<lambda>d. find (\<lambda>p. pool_template_vm_id p = i) (pools d))) (\<lambda>pool.
     case pool of Some p \<Rightarrow> err (PoolTemplateOwned i (pool_name p))
     | None \<Rightarrow>
         bind_op (query (\<lambda>d. find (\<lambda>r. vm_id r = i) (vms d)))  (\<lambda>row.
         bind_op (one_row (VmNotFound i) (\<lambda>r. get_u32 0 (vm_vsock_cid r)) row) (\<lambda>cid.
         bind_op (db_op (sql_insert_or_ignore_freed_cids (uint cid))) (\<lambda>_.
         bind_op (db_op (sql_delete_vms rep (\<lambda>r. vm_id r = i))) (\<lambda>_. ok ()))))))"

subsection \<open>Userdata status and start-up reconciliation\<close>

definition transition_userdata_status ::
  "reporter \<Rightarrow> DateTime \<Rightarrow> Uuid \<Rightarrow> UserdataStatus \<Rightarrow> UserdataStatus \<Rightarrow> (db, StateError, bool) op" where
  "transition_userdata_status rep now i expected next =
     bind_op (db_op (sql_update_vms rep [''userdata_status'', ''updated_at'']
       (\<lambda>r. vm_id r = i \<and> vm_userdata_status r = Some (userdata_as_str expected))
       (\<lambda>r. r\<lparr>vm_userdata_status := Some (userdata_as_str next), vm_updated_at := now\<rparr>)))
     (\<lambda>updated.
     bind_op
       (if updated = 0 then
          bind_op (query (\<lambda>d. \<exists>r \<in> set (vms d). vm_id r = i)) (\<lambda>exists.
          if \<not> exists then err (VmNotFound i) else ok ())
        else ok ())
       (\<lambda>_. ok (updated = 1)))"

definition mark_stale_vms_stopped :: "reporter \<Rightarrow> DateTime \<Rightarrow> (db, StateError, nat) op" where
  "mark_stale_vms_stopped rep now = transaction (
     bind_op (db_op (sql_update_vms rep [''state'', ''pid'', ''suspended_at'', ''updated_at'']
       (\<lambda>r. vm_state r \<in> set (sql_state_list [Running, Creating, Paused]))
       (\<lambda>r. r\<lparr>vm_state := lifecycle_as_str Stopped, vm_pid := None, vm_suspended_at := None,
               vm_updated_at := now\<rparr>)))
     (\<lambda>count.
     bind_op (db_op (sql_update_vms rep [''pid'']
       (\<lambda>r. vm_state r \<in> set (sql_state_list [Stopped, Failed, Suspended]))
       (\<lambda>r. r\<lparr>vm_pid := None\<rparr>)))
     (\<lambda>_.
     bind_op (db_op (sql_update_vms rep [''userdata_status'', ''updated_at'']
       (\<lambda>r. vm_userdata_status r = Some ''running''
          \<or> (vm_userdata_status r = Some ''pending''
              \<and> vm_state r \<in> set (sql_state_list [Stopped, Failed])))
       (\<lambda>r. r\<lparr>vm_userdata_status := Some ''interrupted'', vm_updated_at := now\<rparr>)))
     (\<lambda>_. ok count))))"

definition create_service_ordinal_index :: "reporter \<Rightarrow> (db, StateError, unit) op" where
  "create_service_ordinal_index rep = db_op (sql_create_ordinal_index rep)"

subsection \<open>Port forwards\<close>

definition insert_port_forward :: "reporter \<Rightarrow> PortForwardRecord \<Rightarrow> (db, StateError, unit) op" where
  "insert_port_forward rep record =
     map_err
       (\<lambda>e. case e of ConstraintViolation _ \<Rightarrow> PortAlreadyForwarded (pf_host_port record)
              | _ \<Rightarrow> Database e)
       (sql_insert_port_forwards rep
         \<lparr>pf_id = 0, pf_vm_id = pf_vm_id record, pf_host_port = uint (pf_host_port record),
          pf_guest_port = uint (pf_guest_port record), pf_protocol = pf_protocol record,
          pf_bind_addr = pf_bind_addr record, pf_created_at = pf_created_at record\<rparr>)"

definition delete_port_forward :: "u16 \<Rightarrow> (db, StateError, unit) op" where
  "delete_port_forward port =
     db_op (sql_delete_port_forwards (\<lambda>p. pf_host_port p = uint port))"

text \<open>\<open>row.get::<_, u32>(i)? as u16\<close>.\<close>

definition get_u16 :: "nat \<Rightarrow> int \<Rightarrow> sql_error + u16" where
  "get_u16 i v = and_then (get_u32 i v) (\<lambda>w. Inr (ucast w))"

definition row_to_port_forward :: "port_forward_row \<Rightarrow> sql_error + PortForwardRecord" where
  "row_to_port_forward row =
     and_then (get_u16 2 (pf_host_port row)) (\<lambda>hp.
     and_then (get_u16 3 (pf_guest_port row)) (\<lambda>gp.
     Inr \<lparr>pf_id = pf_id row, pf_vm_id = pf_vm_id row, pf_host_port = hp, pf_guest_port = gp,
          pf_protocol = pf_protocol row, pf_bind_addr = pf_bind_addr row,
          pf_created_at = pf_created_at row\<rparr>))"

definition list_port_forwards_for_vm :: "Uuid \<Rightarrow> (db, StateError, PortForwardRecord list) op" where
  "list_port_forwards_for_vm i =
     bind_op (query (\<lambda>d. sort_key pf_host_port (filter (\<lambda>p. pf_vm_id p = i) (port_forwards d))))
     (\<lambda>rows. db_val (collect_results (map row_to_port_forward rows)))"

definition delete_port_forwards_for_vm :: "Uuid \<Rightarrow> (db, StateError, unit) op" where
  "delete_port_forwards_for_vm i = db_op (sql_delete_port_forwards (\<lambda>p. pf_vm_id p = i))"

definition clear_all_port_forwards :: "(db, StateError, unit) op" where
  "clear_all_port_forwards = db_op (sql_delete_port_forwards (\<lambda>_. True))"

subsection \<open>Every operation keeps the schema invariant\<close>

lemma keeps_update_vm:
  "vm_frame cols f \<Longrightarrow> keeps store_ok (update_vm rep cols i f)"
  unfolding update_vm_def by (intro within_intros keeps_update_vms preorder_keeps)

lemma keeps_insert_vm_error: "keeps store_ok (insert_vm_error r e)"
  unfolding insert_vm_error_def Let_def
  by (cases e) (auto intro!: within_intros)

lemma keeps_insert_vm_on [keeps_store_ok]: "keeps store_ok (insert_vm_on rep r)"
  unfolding insert_vm_on_def
  by (intro within_intros keeps_store_ok keeps_insert_vm_error preorder_keeps)

lemma keeps_vm_insertions [keeps_store_ok]:
  "keeps store_ok (insert_vm rep r)"
  "keeps store_ok (insert_vm_expiration_on rep e)"
  "keeps store_ok (insert_vm_with_expiration rep r x)"
  unfolding insert_vm_def insert_vm_expiration_on_def insert_vm_with_expiration_def
  by (intro within_intros keeps_store_ok preorder_keeps)+

lemma keeps_vm_updates [keeps_store_ok]:
  "keeps store_ok (update_vm_state rep now i st)"
  "keeps store_ok (update_vm_runtime rep now i st pid)"
  "keeps store_ok (mark_vm_stopped rep now i)"
  "keeps store_ok (clear_vm_network_resources rep now i)"
  "keeps store_ok (touch_last_activity rep i at)"
  "keeps store_ok (set_suspended_at rep i at')"
  "keeps store_ok (set_idle_policy rep i idle ttl auto)"
  "keeps store_ok (update_vm_guest_ip rep now i ip)"
  unfolding update_vm_state_def update_vm_runtime_def mark_vm_stopped_def
    clear_vm_network_resources_def touch_last_activity_def set_suspended_at_def
    set_idle_policy_def update_vm_guest_ip_def
  by (rule keeps_update_vm, simp add: vm_frame_def)+

lemma keeps_vm_removals [keeps_store_ok]:
  "keeps store_ok (delete_vm rep i)"
  "keeps store_ok (retire_vm rep i)"
  unfolding delete_vm_def retire_vm_def
  by (intro within_intros keeps_store_ok preorder_keeps)+

lemma keeps_transition_userdata_status [keeps_store_ok]:
  "keeps store_ok (transition_userdata_status rep now i expected next)"
  unfolding transition_userdata_status_def
  by (intro within_intros keeps_update_vms preorder_keeps) (simp add: vm_frame_def)

lemma keeps_mark_stale_vms_stopped [keeps_store_ok]:
  "keeps store_ok (mark_stale_vms_stopped rep now)"
  unfolding mark_stale_vms_stopped_def
  by (intro within_intros keeps_update_vms preorder_keeps) (simp_all add: vm_frame_def)

lemma keeps_index_and_forwards [keeps_store_ok]:
  "keeps store_ok (create_service_ordinal_index rep)"
  "keeps store_ok (insert_port_forward rep p)"
  "keeps store_ok (delete_port_forward port)"
  "keeps store_ok (delete_port_forwards_for_vm i)"
  "keeps store_ok clear_all_port_forwards"
  unfolding create_service_ordinal_index_def insert_port_forward_def delete_port_forward_def
    delete_port_forwards_for_vm_def clear_all_port_forwards_def
  by (intro within_intros keeps_store_ok preorder_keeps)+

subsection \<open>Insertion: functional behaviour\<close>

text \<open>The three things that decide an insertion, in the order they are looked at.\<close>

lemma insert_vm_on_cases:
  obtains (no_volume) v where "vm_volume r = Some v" "\<not> volume_exists v d"
      "insert_vm_on rep r d = (Inl (VolumeNotFoundByName v), d)"
  | (attached) v n where "vm_volume r = Some v" "volume_owner v d = Some n"
      "insert_vm_on rep r d = (Inl (VolumeAttached v n), d)"
  | (violated) m where "sql_insert_vms rep (vm_to_row r) d = (Inl (ConstraintViolation m), d)"
      "\<And>v. vm_volume r = Some v \<Longrightarrow> volume_exists v d \<and> volume_owner v d = None"
      "insert_vm_on rep r d = insert_vm_error r (ConstraintViolation m) d"
  | (inserted) "raised (vm_insert_triggers d (vm_to_row r)) = []"
      "raised (vms_constraints (ordinal_index d) (vms d @ [vm_to_row r])) = []"
      "\<And>v. vm_volume r = Some v \<Longrightarrow> volume_exists v d \<and> volume_owner v d = None"
      "insert_vm_on rep r d = (Inr (), d\<lparr>vms := vms d @ [vm_to_row r]\<rparr>)"
proof -
  have body: thesis
    if vol: "\<And>v. vm_volume r = Some v \<Longrightarrow> volume_exists v d \<and> volume_owner v d = None"
  proof -
    have eq: "insert_vm_on rep r d
        = or_else (sql_insert_vms rep (vm_to_row r)) (insert_vm_error r) d"
      using vol by (cases "vm_volume r") (simp_all add: insert_vm_on_def op_simps)
    obtain x d' where run: "sql_insert_vms rep (vm_to_row r) d = (x, d')"
      by (cases "sql_insert_vms rep (vm_to_row r) d")
    show thesis
    proof (cases x)
      case (Inl e)
      with run obtain m where "e = ConstraintViolation m" "d' = d"
        unfolding sql_insert_vms_def using statement_Inl by blast
      then show thesis using violated [of m] run Inl eq vol by (simp add: or_else_def)
    next
      case (Inr y)
      with run have "raised (vm_insert_triggers d (vm_to_row r)) = []"
        "raised (vms_constraints (ordinal_index d) (vms d @ [vm_to_row r])) = []"
        "d' = d\<lparr>vms := vms d @ [vm_to_row r]\<rparr>"
        by (simp_all add: sql_insert_vms_def statement_Inr)
      then show thesis using inserted run eq vol Inr by (simp add: or_else_def)
    qed
  qed
  show thesis
  proof (cases "vm_volume r")
    case None
    then show thesis using body by simp
  next
    case (Some v)
    show thesis
    proof (cases "volume_exists v d")
      case False
      then show thesis using no_volume [OF Some] Some by (simp add: insert_vm_on_def op_simps)
    next
      case True
      then show thesis using attached [OF Some] body Some
        by (cases "volume_owner v d") (simp_all add: insert_vm_on_def op_simps)
    qed
  qed
qed

lemma insert_vm_error_fails: "\<exists>e'. insert_vm_error r e d = (Inl e', d)"
  unfolding insert_vm_error_def Let_def
  by (auto simp: op_simps split: sql_error.splits option.splits sum.splits)

lemma insert_vm_on_ok:
  assumes run: "insert_vm_on rep r d = (Inr (), d')"
  shows "d' = d\<lparr>vms := vms d @ [vm_to_row r]\<rparr>
    \<and> raised (vm_insert_triggers d (vm_to_row r)) = []
    \<and> raised (vms_constraints (ordinal_index d) (vms d @ [vm_to_row r])) = []"
proof (cases rule: insert_vm_on_cases [of r d rep])
  case (violated m)
  then show ?thesis using run insert_vm_error_fails [of r "ConstraintViolation m" d] by auto
qed (use run in auto)

lemma insert_vm_on_err:
  assumes run: "insert_vm_on rep r d = (Inl e, d')"
  shows "d' = d"
proof (cases rule: insert_vm_on_cases [of r d rep])
  case (violated m)
  then show ?thesis using run insert_vm_error_fails [of r "ConstraintViolation m" d] by auto
qed (use run in auto)

lemma delete_vm_cases:
  obtains (owned) m where "i \<in> vm_id ` set (vms d)" "has_template (pools d) i"
      "delete_vm rep i d = (Inl (Database (ConstraintViolation m)), d)"
  | (missing) "i \<notin> vm_id ` set (vms d)" "delete_vm rep i d = (Inl (VmNotFound i), d)"
  | (gone) "i \<in> vm_id ` set (vms d)" "\<not> has_template (pools d) i"
      "delete_vm rep i d = (Inr (), d\<lparr>vms := delete_rows (\<lambda>r. vm_id r = i) (vms d),
         port_forwards := delete_rows (\<lambda>p. pf_vm_id p = i) (port_forwards d),
         expirations := delete_rows (\<lambda>e. exp_vm_id e = i) (expirations d)\<rparr>)"
proof (cases "i \<in> vm_id ` set (vms d)")
  case False
  then have none: "filter (\<lambda>r. vm_id r = i) (vms d) = []"
    by (auto simp: filter_empty_conv)
  moreover have "delete_rows (\<lambda>r. vm_id r = i) (vms d) = vms d"
    using False by (auto simp: delete_rows_def filter_id_conv)
  ultimately have "delete_vm rep i d = (Inl (VmNotFound i), d)"
    using False unfolding delete_vm_def sql_delete_vms_def statement_def
    by (auto simp: op_simps count_rows_def Let_def delete_rows_def)
  with False show thesis by (rule missing)
next
  case True
  then have gone_ids: "vm_id ` set (filter (\<lambda>r. vm_id r = i) (vms d)) = {i}" by auto
  have some: "count_rows (\<lambda>r. vm_id r = i) (vms d) \<noteq> 0"
    using True by (auto simp: table_simps)
  show thesis
  proof (cases "has_template (pools d) i")
    case True
    with \<open>i \<in> vm_id ` set (vms d)\<close> have "delete_vm rep i d
        = (Inl (Database (ConstraintViolation (rep [''pool template cannot be deleted'']))), d)"
      by (auto simp: delete_vm_def sql_delete_vms_def statement_def op_simps)
    with \<open>i \<in> vm_id ` set (vms d)\<close> True show thesis by (rule owned)
  next
    case False
    have "delete_vm rep i d = (Inr (), d\<lparr>vms := delete_rows (\<lambda>r. vm_id r = i) (vms d),
         port_forwards := delete_rows (\<lambda>p. pf_vm_id p = i) (port_forwards d),
         expirations := delete_rows (\<lambda>e. exp_vm_id e = i) (expirations d)\<rparr>)"
      using False some gone_ids
      by (auto simp: delete_vm_def sql_delete_vms_def statement_def op_simps Let_def)
    with True False show thesis by (rule gone)
  qed
qed

interpretation vm_catalog: named_catalog store_ok vms vm_id vm_name vm_to_row
  "\<lambda>w. map_sum Database id (row_to_vm_record w)" VmNotFound VmNotFoundByName
  "insert_vm rep" get_vm_by_name "delete_vm rep" get_vm for rep
proof
  show "unique_on vm_id (vms d)" "unique_on vm_name (vms d)" if "store_ok d" for d
    using that by (simp_all add: store_ok_def vms_ok_def)
  show "store_ok d' \<and> vms d' = vms d @ [vm_to_row r]
      \<and> map_sum Database id (row_to_vm_record (vm_to_row r)) = Inr r"
    if "store_ok d" "insert_vm rep r d = (Inr (), d')" for d r d'
    using that(1) withinD [OF keeps_vm_insertions(1) that(2)]
      insert_vm_on_ok [OF that(2) [unfolded insert_vm_def]]
    by (simp add: row_to_vm_record_vm_to_row)
  show "d' = d" if "insert_vm rep r d = (Inl e, d')" for r d e d'
    using that insert_vm_on_err by (simp add: insert_vm_def)
  show "get_vm i d = (row_answer (VmNotFound i) (\<lambda>w. map_sum Database id (row_to_vm_record w))
      (\<lambda>w. vm_id w = i) (vms d), d)" for i d
    unfolding get_vm_def by (rule query_one_row)
  show "get_vm_by_name n d = (row_answer (VmNotFoundByName n)
      (\<lambda>w. map_sum Database id (row_to_vm_record w)) (\<lambda>w. vm_name w = n) (vms d), d)" for n d
    unfolding get_vm_by_name_def by (rule query_one_row)
  show "store_ok d' \<and> vms d' = delete_rows (\<lambda>w. vm_id w = i) (vms d)"
    if "store_ok d" "delete_vm rep i d = (Inr (), d')" for d i d'
    using that(1) withinD [OF keeps_vm_removals(1) that(2)]
    by (cases rule: delete_vm_cases [of i d rep]) (use that(2) in auto)
  show "d' = d" if "delete_vm rep i d = (Inl e, d')" for i d e d'
    by (cases rule: delete_vm_cases [of i d rep]) (use that in auto)
  show "delete_vm rep i d = (Inl (VmNotFound i), d)" if "i \<notin> vm_id ` set (vms d)" for i d
    by (cases rule: delete_vm_cases [of i d rep]) (use that in auto)
qed

subsection \<open>Insertion: classification of errors\<close>

text \<open>The messages SQLite may report for the insertion of a VM, and what each stands for.\<close>

definition insert_cause :: "db \<Rightarrow> VmRecord \<Rightarrow> StateError \<Rightarrow> bool" where
  "insert_cause d r e =
     (case e of
        VmAlreadyExists n \<Rightarrow> n = vm_name r \<and> (\<exists>q \<in> set (vms d). vm_name q = n)
      | VolumeNotFoundByName v \<Rightarrow> vm_volume r = Some v \<and> \<not> volume_exists v d
      | VolumeAttached v n \<Rightarrow> vm_volume r = Some v
          \<and> (\<exists>q \<in> set (vms d). vm_volume q = Some v \<and> vm_name q = n)
      | Database (ConstraintViolation m) \<Rightarrow>
          (m = ''UNIQUE constraint failed: vms.id'' \<and> (\<exists>q \<in> set (vms d). vm_id q = vm_id r))
          \<or> (m = ''UNIQUE constraint failed: vms.service_id, vms.service_ordinal''
              \<and> ordinal_index d
              \<and> (\<exists>q \<in> set (vms d). ordinal_key q = ordinal_key (vm_to_row r)
                    \<and> ordinal_key (vm_to_row r) \<noteq> None))
      | _ \<Rightarrow> False)"

lemma vm_to_row_insert_triggers:
  "raised (vm_insert_triggers d (vm_to_row r)) =
    (if volume_missing (volumes d) (vm_volume r) then [''attached volume does not exist''] else [])"
proof -
  have "lifecycle_as_str s \<in> set known_states" for s
    by (cases s) (simp_all add: known_states_def)
  moreover have "backend_as_str b \<in> set known_backends" for b
    by (cases b) (simp_all add: known_backends_def)
  moreover have "network_as_str n \<in> set known_networks" for n
    by (cases n) (simp_all add: known_networks_def)
  moreover have "boot_as_str k \<in> set known_boot_kinds" for k
    by (cases k) (simp_all add: known_boot_kinds_def)
  moreover have "userdata_as_str u \<in> set known_userdata" for u
    by (cases u) (simp_all add: known_userdata_def)
  ultimately show ?thesis
    by (simp add: vm_insert_triggers_def vm_to_row_def userdata_unknown_def split: option.splits)
qed

lemma mem_raised_Cons: "m \<in> set (raised ((b, s) # cs)) \<longleftrightarrow> (b \<and> m = s) \<or> m \<in> set (raised cs)"
  by auto

lemma not_mem_raised_Nil: "m \<notin> set (raised [])"
  by simp

lemma vms_constraints_append_violation:
  assumes ok: "store_ok d" and m: "m \<in> set (raised (vms_constraints (ordinal_index d) (vms d @ [q])))"
  shows "(m = ''UNIQUE constraint failed: vms.id'' \<and> (\<exists>p \<in> set (vms d). vm_id p = vm_id q))
    \<or> (m = ''UNIQUE constraint failed: vms.name'' \<and> (\<exists>p \<in> set (vms d). vm_name p = vm_name q))
    \<or> (m = ''UNIQUE constraint failed: vms.volume''
        \<and> (\<exists>p \<in> set (vms d). vm_volume p = vm_volume q \<and> vm_volume q \<noteq> None))
    \<or> (m = ''UNIQUE constraint failed: vms.service_id, vms.service_ordinal'' \<and> ordinal_index d
        \<and> (\<exists>p \<in> set (vms d). ordinal_key p = ordinal_key q \<and> ordinal_key q \<noteq> None))"
proof -
  from ok have u: "unique_on vm_id (vms d)" "unique_on vm_name (vms d)"
    "unique_some vm_volume (vms d)" "ordinal_index d \<longrightarrow> unique_some ordinal_key (vms d)"
    by (auto simp: store_ok_def vms_ok_def)
  have "(\<not> unique_on vm_id (vms d @ [q]) \<and> m = ''UNIQUE constraint failed: vms.id'')
    \<or> (\<not> unique_on vm_name (vms d @ [q]) \<and> m = ''UNIQUE constraint failed: vms.name'')
    \<or> (\<not> unique_some vm_volume (vms d @ [q]) \<and> m = ''UNIQUE constraint failed: vms.volume'')
    \<or> ((ordinal_index d \<and> \<not> unique_some ordinal_key (vms d @ [q]))
        \<and> m = ''UNIQUE constraint failed: vms.service_id, vms.service_ordinal'')"
    using m by (simp only: vms_constraints_def mem_raised_Cons not_mem_raised_Nil HOL.simp_thms)
  then show ?thesis
  proof (elim disjE conjE)
    assume "\<not> unique_on vm_id (vms d @ [q])"
    with u(1) have "\<exists>p \<in> set (vms d). vm_id p = vm_id q" by (auto simp: unique_on_append)
    moreover assume "m = ''UNIQUE constraint failed: vms.id''"
    ultimately show ?thesis by (intro disjI1 conjI)
  next
    assume "\<not> unique_on vm_name (vms d @ [q])"
    with u(2) have "\<exists>p \<in> set (vms d). vm_name p = vm_name q" by (auto simp: unique_on_append)
    moreover assume "m = ''UNIQUE constraint failed: vms.name''"
    ultimately show ?thesis by (intro disjI2 [OF disjI1] conjI)
  next
    assume "\<not> unique_some vm_volume (vms d @ [q])"
    with u(3) have "\<exists>p \<in> set (vms d). vm_volume p = vm_volume q \<and> vm_volume q \<noteq> None"
      by (auto simp: unique_some_append)
    moreover assume "m = ''UNIQUE constraint failed: vms.volume''"
    ultimately show ?thesis by (intro disjI2 [OF disjI2 [OF disjI1]] conjI)
  next
    assume ord: "ordinal_index d" and "\<not> unique_some ordinal_key (vms d @ [q])"
    with u(4) have "\<exists>p \<in> set (vms d). ordinal_key p = ordinal_key q \<and> ordinal_key q \<noteq> None"
      by (auto simp: unique_some_append)
    moreover assume "m = ''UNIQUE constraint failed: vms.service_id, vms.service_ordinal''"
    ultimately show ?thesis using ord by (intro disjI2 [OF disjI2 [OF disjI2]] conjI)
  qed
qed

lemma insert_vm_message:
  assumes ok: "store_ok d" and rep: "reports_violated rep"
    and run: "sql_insert_vms rep (vm_to_row r) d = (Inl (ConstraintViolation m), d)"
    and vol: "\<And>v. vm_volume r = Some v \<Longrightarrow> volume_exists v d \<and> volume_owner v d = None"
  shows "m \<in> set (raised (vms_constraints (ordinal_index d) (vms d @ [vm_to_row r])))"
proof -
  have "\<not> volume_missing (volumes d) (vm_volume r)"
    using vol by (auto simp: volume_missing_def volume_exists_def split: option.splits)
  then have "raised (vm_insert_triggers d (vm_to_row r)) = []"
    by (simp add: vm_to_row_insert_triggers)
  then show ?thesis
    using run rep by (auto simp: sql_insert_vms_def statement_def reports_violated_def split: if_splits)
qed

lemma volume_owner_None: "volume_owner v d = None \<longleftrightarrow> (\<forall>q \<in> set (vms d). vm_volume q \<noteq> Some v)"
  by (auto simp: volume_owner_def find_None_iff)

lemma insert_vm_classified:
  assumes ok: "store_ok d" and rep: "reports_violated rep"
    and run: "insert_vm rep r d = (Inl e, d')"
  shows "insert_cause d r e"
proof (cases rule: insert_vm_on_cases [of r d rep])
  case (violated m)
  have run': "insert_vm_error r (ConstraintViolation m) d = (Inl e, d')"
    using run violated(3) by (simp add: insert_vm_def)
  have row: "vm_id (vm_to_row r) = vm_id r" "vm_name (vm_to_row r) = vm_name r"
    "vm_volume (vm_to_row r) = vm_volume r"
    by (simp_all add: vm_to_row_def)
  have no_volume: "\<not> (\<exists>p \<in> set (vms d). vm_volume p = vm_volume r \<and> vm_volume r \<noteq> None)"
    using violated(2) by (auto simp: volume_owner_None)
  have "m \<in> set (raised (vms_constraints (ordinal_index d) (vms d @ [vm_to_row r])))"
    using insert_vm_message [OF ok rep violated(1)] violated(2) by blast
  from vms_constraints_append_violation [OF ok this]
  consider (id) "m = ''UNIQUE constraint failed: vms.id''" "\<exists>p \<in> set (vms d). vm_id p = vm_id r"
    | (name) "m = ''UNIQUE constraint failed: vms.name''" "\<exists>p \<in> set (vms d). vm_name p = vm_name r"
    | (ordinal) "m = ''UNIQUE constraint failed: vms.service_id, vms.service_ordinal''"
        "ordinal_index d"
        "\<exists>p \<in> set (vms d). ordinal_key p = ordinal_key (vm_to_row r)
          \<and> ordinal_key (vm_to_row r) \<noteq> None"
    using no_volume unfolding row by (elim disjE) blast+
  then show ?thesis
  proof cases
    case id
    then show ?thesis using run' by (auto simp: insert_vm_error_def insert_cause_def op_simps)
  next
    case name
    then show ?thesis using run' by (auto simp: insert_vm_error_def insert_cause_def op_simps)
  next
    case ordinal
    then show ?thesis using run' by (auto simp: insert_vm_error_def insert_cause_def op_simps)
  qed
qed (use run in \<open>auto simp: insert_vm_def insert_cause_def volume_owner_def dest!: find_SomeD\<close>)

subsection \<open>Updates: functional behaviour\<close>

text \<open>A row update that leaves every unique key alone.\<close>

definition key_frame :: "(vm_row \<Rightarrow> vm_row) \<Rightarrow> bool" where
  "key_frame f \<longleftrightarrow> (\<forall>r. vm_id (f r) = vm_id r \<and> vm_name (f r) = vm_name r
     \<and> vm_volume (f r) = vm_volume r \<and> ordinal_key (f r) = ordinal_key r)"

lemma sql_update_vms_passes:
  assumes ok: "store_ok d" and f: "key_frame f"
    and tr: "\<And>r. r \<in> set (vms d) \<Longrightarrow> P r \<Longrightarrow> raised (vm_update_triggers cols d r (f r)) = []"
  shows "sql_update_vms rep cols P f d =
    (Inr (count_rows P (vms d)), d\<lparr>vms := update_rows P f (vms d)\<rparr>)"
proof -
  have "raised (vms_constraints (ordinal_index d) (update_rows P f (vms d))) = []"
    using ok f unfolding vms_constraints_def store_ok_def vms_ok_def key_frame_def
    by (simp add: unique_on_update unique_some_update)
  moreover have "raised (concat (map (\<lambda>r. vm_update_triggers cols d r (f r)) (filter P (vms d)))) = []"
    using tr by simp
  ultimately show ?thesis by (simp add: sql_update_vms_def statement_def)
qed

lemma template_is_suspended:
  assumes "store_ok d" "has_template (pools d) (vm_id r)" "r \<in> set (vms d)"
  shows "vm_state r = ''suspended''"
proof -
  from assms(1,2) have "suspended_vm (vms d) (vm_id r)"
    by (auto simp: store_ok_def pools_ok_def has_template_def)
  then obtain q where "q \<in> set (vms d)" "vm_id q = vm_id r" "vm_state q = ''suspended''"
    by (auto simp: suspended_vm_def)
  moreover from assms(1) have "unique_on vm_id (vms d)" by (simp add: store_ok_def vms_ok_def)
  ultimately show ?thesis using assms(3) unique_onD by metis
qed

lemma retire_vm_ok:
  assumes run: "retire_vm rep i d = (Inr (), d')"
  obtains row where "find (\<lambda>r. vm_id r = i) (vms d) = Some row" "\<not> has_template (pools d) i"
    "0 \<le> vm_vsock_cid row" "vm_vsock_cid row < 2 ^ 32"
    "d' = (let gone = vm_id ` set (filter (\<lambda>r. vm_id r = i) (vms d)) in
       d\<lparr>freed_cids := (if vm_vsock_cid row \<in> set (freed_cids d) then freed_cids d
                        else freed_cids d @ [vm_vsock_cid row]),
         vms := delete_rows (\<lambda>r. vm_id r = i) (vms d),
         port_forwards := delete_rows (\<lambda>p. pf_vm_id p \<in> gone) (port_forwards d),
         expirations := delete_rows (\<lambda>e. exp_vm_id e \<in> gone) (expirations d)\<rparr>)"
proof -
  from run have pool: "find (\<lambda>p. pool_template_vm_id p = i) (pools d) = None"
    by (auto simp: retire_vm_def op_simps split: option.splits)
  with run obtain row where row: "find (\<lambda>r. vm_id r = i) (vms d) = Some row"
    by (cases "find (\<lambda>r. vm_id r = i) (vms d)") (auto simp: retire_vm_def op_simps)
  from run pool row obtain cid where cid: "try_u32 (vm_vsock_cid row) = Some cid"
    by (cases "try_u32 (vm_vsock_cid row)") (auto simp: retire_vm_def op_simps get_u32_def)
  have no: "\<not> has_template (pools d) i"
    using pool by (auto simp: has_template_def find_None_iff)
  have u: "uint cid = vm_vsock_cid row" "0 \<le> vm_vsock_cid row" "vm_vsock_cid row < 2 ^ 32"
    using cid by (auto simp: try_u32_def uint_u32 split: if_splits)
  show thesis
    by (rule that [OF row no u(2,3)])
      (use run pool row cid u(1) in \<open>auto simp: retire_vm_def op_simps get_u32_def
        sql_insert_or_ignore_freed_cids_def sql_delete_vms_def statement_def Let_def
        split: if_splits\<close>)
qed

lemma retire_vm_atomic: "all_or_nothing (retire_vm rep i)"
  unfolding retire_vm_def by (rule transaction_all_or_nothing)

subsection \<open>Start-up reconciliation\<close>

text \<open>What the three statements do to one row.\<close>

definition stale_row :: "vm_row \<Rightarrow> bool" where
  "stale_row r \<longleftrightarrow> vm_state r \<in> {''running'', ''creating'', ''paused''}"

definition script_lost :: "vm_row \<Rightarrow> bool" where
  "script_lost r \<longleftrightarrow> vm_userdata_status r = Some ''running''
     \<or> (vm_userdata_status r = Some ''pending'' \<and> vm_state r \<in> {''stopped'', ''failed''})"

definition stop_row :: "DateTime \<Rightarrow> vm_row \<Rightarrow> vm_row" where
  "stop_row now r = (if stale_row r
     then r\<lparr>vm_state := ''stopped'', vm_pid := None, vm_suspended_at := None, vm_updated_at := now\<rparr>
     else r)"

definition forget_pid :: "vm_row \<Rightarrow> vm_row" where
  "forget_pid r =
     (if vm_state r \<in> {''stopped'', ''failed'', ''suspended''} then r\<lparr>vm_pid := None\<rparr> else r)"

definition interrupt_script :: "DateTime \<Rightarrow> vm_row \<Rightarrow> vm_row" where
  "interrupt_script now r = (if script_lost r
     then r\<lparr>vm_userdata_status := Some ''interrupted'', vm_updated_at := now\<rparr> else r)"

definition reconcile_row :: "DateTime \<Rightarrow> vm_row \<Rightarrow> vm_row" where
  "reconcile_row now r = interrupt_script now (forget_pid (stop_row now r))"

definition reconciled :: "vm_row \<Rightarrow> bool" where
  "reconciled r \<longleftrightarrow> \<not> stale_row r \<and> \<not> script_lost r
     \<and> (vm_state r \<in> {''stopped'', ''failed'', ''suspended''} \<longrightarrow> vm_pid r = None)"

lemma reconcile_row_reconciled: "reconciled (reconcile_row now r)"
proof -
  have 1: "\<not> stale_row (stop_row now r)" by (simp add: stop_row_def stale_row_def)
  let ?r = "forget_pid (stop_row now r)"
  have 2: "\<not> stale_row ?r" "vm_state ?r \<in> {''stopped'', ''failed'', ''suspended''} \<longrightarrow> vm_pid ?r = None"
    using 1 by (simp_all add: forget_pid_def stale_row_def)
  show ?thesis
    using 2 unfolding reconcile_row_def reconciled_def interrupt_script_def
    by (simp add: stale_row_def script_lost_def)
qed

lemma reconcile_row_fixed: "reconciled r \<Longrightarrow> reconcile_row now r = r"
proof -
  assume r: "reconciled r"
  then have "stop_row now r = r" by (simp add: reconciled_def stop_row_def)
  moreover have "forget_pid r = r"
    using r by (cases r) (auto simp: reconciled_def forget_pid_def)
  moreover have "interrupt_script now r = r" using r by (simp add: reconciled_def interrupt_script_def)
  ultimately show ?thesis by (simp add: reconcile_row_def)
qed

lemma reconcile_row_frame:
  "vm_id (reconcile_row now r) = vm_id r" "vm_name (reconcile_row now r) = vm_name r"
  "vm_vsock_cid (reconcile_row now r) = vm_vsock_cid r"
  by (simp_all add: reconcile_row_def interrupt_script_def forget_pid_def stop_row_def)

lemma interrupted_transition_valid:
  "script_lost r \<Longrightarrow> \<not> userdata_transition_invalid (vm_userdata_status r) (Some ''interrupted'')"
  by (auto simp: script_lost_def userdata_transition_invalid_def sql_in_def known_userdata_def)

lemma mark_stale_vms_stopped_refines:
  assumes ok: "store_ok d"
  shows "mark_stale_vms_stopped rep now d =
    (Inr (count_rows stale_row (vms d)), d\<lparr>vms := map (reconcile_row now) (vms d)\<rparr>)"
proof -
  let ?P1 = "\<lambda>r. vm_state r \<in> set (sql_state_list [Running, Creating, Paused])"
  let ?f1 = "\<lambda>r. r\<lparr>vm_state := lifecycle_as_str Stopped, vm_pid := None, vm_suspended_at := None,
    vm_updated_at := now\<rparr> :: vm_row"
  let ?P2 = "\<lambda>r. vm_state r \<in> set (sql_state_list [Stopped, Failed, Suspended])"
  let ?f2 = "\<lambda>r. r\<lparr>vm_pid := None\<rparr> :: vm_row"
  let ?P3 = "\<lambda>r. vm_userdata_status r = Some ''running'' \<or> (vm_userdata_status r = Some ''pending''
    \<and> vm_state r \<in> set (sql_state_list [Stopped, Failed]))"
  let ?f3 = "\<lambda>r. r\<lparr>vm_userdata_status := Some ''interrupted'', vm_updated_at := now\<rparr> :: vm_row"
  let ?d1 = "d\<lparr>vms := update_rows ?P1 ?f1 (vms d)\<rparr>"
  let ?d2 = "?d1\<lparr>vms := update_rows ?P2 ?f2 (vms ?d1)\<rparr>"
  let ?d3 = "?d2\<lparr>vms := update_rows ?P3 ?f3 (vms ?d2)\<rparr>"
  have P: "?P1 = stale_row" "?P3 = script_lost"
    by (auto simp: sql_state_list_def stale_row_def script_lost_def)
  have 1: "sql_update_vms rep [''state'', ''pid'', ''suspended_at'', ''updated_at''] ?P1 ?f1 d
      = (Inr (count_rows ?P1 (vms d)), ?d1)"
  proof (rule sql_update_vms_passes [OF ok])
    fix r assume r: "r \<in> set (vms d)" and stale: "?P1 r"
    have "\<not> has_template (pools d) (vm_id r)"
      using template_is_suspended [OF ok _ r] stale by (auto simp: sql_state_list_def)
    then show "raised (vm_update_triggers [''state'', ''pid'', ''suspended_at'', ''updated_at''] d r (?f1 r)) = []"
      by (simp add: vm_update_triggers_def known_states_def)
  qed (simp add: key_frame_def ordinal_key_def split: option.splits)
  have ok1: "store_ok ?d1"
    using withinD [OF keeps_update_vms 1] ok by (simp add: vm_frame_def)
  have 2: "sql_update_vms rep [''pid''] ?P2 ?f2 ?d1 = (Inr (count_rows ?P2 (vms ?d1)), ?d2)"
    by (rule sql_update_vms_passes [OF ok1])
      (simp_all add: key_frame_def ordinal_key_def vm_update_triggers_def split: option.splits)
  have ok2: "store_ok ?d2"
    using withinD [OF keeps_update_vms 2] ok1 by (simp add: vm_frame_def)
  have 3: "sql_update_vms rep [''userdata_status'', ''updated_at''] ?P3 ?f3 ?d2
      = (Inr (count_rows ?P3 (vms ?d2)), ?d3)"
  proof (rule sql_update_vms_passes [OF ok2])
    fix r :: vm_row assume "?P3 r"
    then have "script_lost r" by (simp only: P(2) [symmetric])
    from interrupted_transition_valid [OF this]
    show "raised (vm_update_triggers [''userdata_status'', ''updated_at''] ?d2 r (?f3 r)) = []"
      by (simp add: vm_update_triggers_def userdata_unknown_def known_userdata_def)
  qed (simp add: key_frame_def ordinal_key_def split: option.splits)
  have "vms ?d3 = map (reconcile_row now) (vms d)"
    by (simp add: update_rows_def reconcile_row_def interrupt_script_def forget_pid_def
        stop_row_def stale_row_def script_lost_def sql_state_list_def comp_def)
  then have "?d3 = d\<lparr>vms := map (reconcile_row now) (vms d)\<rparr>" by simp
  then show ?thesis
    unfolding mark_stale_vms_stopped_def P(1) [symmetric]
    by (simp only: op_simps 1 2 3 prod.case sum.case)
qed

subsection \<open>The userdata status machine\<close>

text \<open>The transitions a script's status may take; setting the same status again is a no-op.\<close>

fun userdata_step :: "UserdataStatus \<Rightarrow> UserdataStatus \<Rightarrow> bool" where
  "userdata_step UdPending s = (s \<in> {UdPending, UdRunning, UdInterrupted})"
| "userdata_step UdRunning s = True"
| "userdata_step e s = (e = s)"

lemma userdata_transition_invalid_iff:
  "userdata_transition_invalid (Some (userdata_as_str e)) (Some (userdata_as_str s))
    \<longleftrightarrow> \<not> userdata_step e s"
  by (cases e; cases s)
    (simp_all add: userdata_transition_invalid_def sql_in_def known_userdata_def)

lemma transition_userdata_status_refines:
  assumes ok: "store_ok d"
  shows "transition_userdata_status rep now i expected next d =
    (case find (\<lambda>r. vm_id r = i) (vms d) of
       None \<Rightarrow> (Inl (VmNotFound i), d)
     | Some r \<Rightarrow>
         if vm_userdata_status r \<noteq> Some (userdata_as_str expected) then (Inr False, d)
         else if userdata_step expected next then
           (Inr True, d\<lparr>vms := update_rows (\<lambda>q. vm_id q = i)
              (\<lambda>q. q\<lparr>vm_userdata_status := Some (userdata_as_str next), vm_updated_at := now\<rparr>)
              (vms d)\<rparr>)
         else (Inl (Database (ConstraintViolation (rep [''invalid userdata status transition'']))), d))"
proof -
  let ?Q = "\<lambda>r. vm_userdata_status r = Some (userdata_as_str expected)"
  let ?P = "\<lambda>r. vm_id r = i \<and> ?Q r"
  let ?f = "\<lambda>r. r\<lparr>vm_userdata_status := Some (userdata_as_str next), vm_updated_at := now\<rparr> :: vm_row"
  let ?cols = "[''userdata_status'', ''updated_at'']"
  have u: "unique_on vm_id (vms d)" using ok by (simp add: store_ok_def vms_ok_def)
  have key: "key_frame ?f" by (simp add: key_frame_def ordinal_key_def split: option.splits)
  have found: "(\<forall>r \<in> set (vms d). vm_id r \<noteq> i) \<longleftrightarrow> find (\<lambda>r. vm_id r = i) (vms d) = None"
    by (auto simp: find_None_iff)
  have none: ?thesis if "filter ?P (vms d) = []"
    "find (\<lambda>r. vm_id r = i) (vms d) = None \<or>
      (\<exists>r. find (\<lambda>r. vm_id r = i) (vms d) = Some r \<and> \<not> ?Q r)"
  proof -
    have "sql_update_vms rep ?cols ?P ?f d
        = (Inr (count_rows ?P (vms d)), d\<lparr>vms := update_rows ?P ?f (vms d)\<rparr>)"
      by (rule sql_update_vms_passes [OF ok key]) (use that(1) in \<open>auto simp: filter_empty_conv\<close>)
    also have "\<dots> = (Inr 0, d)"
      using that(1) by (simp add: update_rows_none count_rows_def)
    finally show ?thesis
      using that(2) by (auto simp: transition_userdata_status_def op_simps found)
  qed
  show ?thesis
  proof (cases "find (\<lambda>r. vm_id r = i) (vms d)")
    case None
    then show ?thesis using none filter_missing [OF None, of ?Q] by simp
  next
    case (Some r)
    note one = filter_unique_found [OF u Some, of ?Q]
    show ?thesis
    proof (cases "?Q r")
      case False
      then show ?thesis using none one Some by simp
    next
      case True
      have tr: "raised (vm_update_triggers ?cols d r (?f r)) =
          (if userdata_step expected next then [] else [''invalid userdata status transition''])"
        using True userdata_transition_invalid_iff [of expected "next"]
        by (cases "next") (simp_all add: vm_update_triggers_def userdata_unknown_def known_userdata_def)
      have only: "q = r" if "q \<in> set (vms d)" "?P q" for q
        using find_Some_iff_unique [OF u, of i] Some that by (metis option.inject)
      show ?thesis
      proof (cases "userdata_step expected next")
        case valid: True
        have "sql_update_vms rep ?cols ?P ?f d
            = (Inr (count_rows ?P (vms d)), d\<lparr>vms := update_rows ?P ?f (vms d)\<rparr>)"
        proof (rule sql_update_vms_passes [OF ok key])
          fix q assume "q \<in> set (vms d)" "?P q"
          then show "raised (vm_update_triggers ?cols d q (?f q)) = []" using only tr valid by metis
        qed
        moreover have "count_rows ?P (vms d) = 1" using one True by (simp add: count_rows_def)
        moreover have "update_rows ?P ?f (vms d) = update_rows (\<lambda>q. vm_id q = i) ?f (vms d)"
        proof (rule update_rows_cong)
          fix q assume "q \<in> set (vms d)"
          then show "?P q = (vm_id q = i)"
            using find_Some_iff_unique [OF u, of i] Some True by (metis option.inject)
        qed
        ultimately show ?thesis using Some True valid
          by (simp add: transition_userdata_status_def op_simps)
      next
        case invalid: False
        have cat: "concat (map (\<lambda>q. vm_update_triggers ?cols d q (?f q)) (filter ?P (vms d)))
            = vm_update_triggers ?cols d r (?f r)"
          using one True by simp
        have "sql_update_vms rep ?cols ?P ?f d
            = (Inl (ConstraintViolation (rep [''invalid userdata status transition''])), d)"
          unfolding sql_update_vms_def statement_def cat using tr invalid by simp
        then show ?thesis using Some True invalid
          by (simp add: transition_userdata_status_def op_simps)
      qed
    qed
  qed
qed

subsection \<open>When an insertion succeeds\<close>

definition insertable :: "db \<Rightarrow> VmRecord \<Rightarrow> bool" where
  "insertable d r \<longleftrightarrow>
     (\<forall>q \<in> set (vms d). vm_id q \<noteq> vm_id r \<and> vm_name q \<noteq> vm_name r)
     \<and> (\<forall>v. vm_volume r = Some v \<longrightarrow> volume_exists v d \<and> volume_owner v d = None)
     \<and> (ordinal_index d \<longrightarrow> ordinal_key (vm_to_row r) \<noteq> None \<longrightarrow>
          (\<forall>q \<in> set (vms d). ordinal_key q \<noteq> ordinal_key (vm_to_row r)))"

lemma raised_vms_constraints:
  "raised (vms_constraints b t) = [] \<longleftrightarrow> unique_on vm_id t \<and> unique_on vm_name t
    \<and> unique_some vm_volume t \<and> (b \<longrightarrow> unique_some ordinal_key t)"
  by (simp add: vms_constraints_def)

lemma insert_vm_iff_insertable:
  assumes ok: "store_ok d"
  shows "insert_vm rep r d = (Inr (), d') \<longleftrightarrow>
    insertable d r \<and> d' = d\<lparr>vms := vms d @ [vm_to_row r]\<rparr>"
proof -
  let ?q = "vm_to_row r"
  from ok have u: "unique_on vm_id (vms d)" "unique_on vm_name (vms d)"
    "unique_some vm_volume (vms d)" "ordinal_index d \<longrightarrow> unique_some ordinal_key (vms d)"
    by (auto simp: store_ok_def vms_ok_def)
  have row: "vm_id ?q = vm_id r" "vm_name ?q = vm_name r" "vm_volume ?q = vm_volume r"
    by (simp_all add: vm_to_row_def)
  have cs: "raised (vms_constraints (ordinal_index d) (vms d @ [?q])) = [] \<longleftrightarrow>
      (\<forall>q \<in> set (vms d). vm_id q \<noteq> vm_id r \<and> vm_name q \<noteq> vm_name r)
      \<and> (vm_volume r \<noteq> None \<longrightarrow> (\<forall>q \<in> set (vms d). vm_volume q \<noteq> vm_volume r))
      \<and> (ordinal_index d \<longrightarrow> ordinal_key ?q \<noteq> None \<longrightarrow>
           (\<forall>q \<in> set (vms d). ordinal_key q \<noteq> ordinal_key ?q))"
    using u unfolding raised_vms_constraints unique_on_append unique_some_append row by blast
  show ?thesis
  proof (cases rule: insert_vm_on_cases [of r d rep])
    case (no_volume v)
    then show ?thesis by (simp add: insert_vm_def insertable_def)
  next
    case (attached v n)
    then show ?thesis by (simp add: insert_vm_def insertable_def)
  next
    case (violated m)
    then have "raised (vms_constraints (ordinal_index d) (vms d @ [?q])) \<noteq> []"
      using vm_to_row_insert_triggers [of d r] violated(2)
      by (auto simp: sql_insert_vms_def statement_def volume_missing_def volume_exists_def
          split: option.splits if_splits)
    then have "\<not> insertable d r"
      using violated(2) unfolding cs insertable_def volume_owner_None by force
    then show ?thesis
      using violated(3) insert_vm_error_fails [of r "ConstraintViolation m" d]
      by (auto simp: insert_vm_def)
  next
    case inserted
    then have "insertable d r" unfolding cs insertable_def by blast
    then show ?thesis using inserted(4) by (auto simp: insert_vm_def)
  qed
qed

subsection \<open>A sample record\<close>

definition sample_vm :: VmRecord where
  "sample_vm = \<lparr>vm_id = 7, vm_name = ''web'', vm_state = Running, vm_pid = Some 4242,
     vm_vcpu_count = 2, vm_mem_size_mib = 512, vm_vsock_cid = 3, vm_tap_device = Some ''tap0'',
     vm_host_ip = Some ''10.0.0.1'', vm_guest_ip = Some ''10.0.0.2'', vm_kernel_path = ''/k'',
     vm_rootfs_path = ''/r'', vm_created_at = 0, vm_updated_at = 0, vm_userdata = Some ''#!'',
     vm_userdata_status = Some UdPending, vm_userdata_env = None, vm_service_id = None,
     vm_service_ordinal = None, vm_vmm = Firecracker, vm_boot_mode = DirectKernel,
     vm_balloon = False, vm_volume = None, vm_network = NetworkMode.Nat, vm_egress_policy = None,
     vm_last_activity_at = 0, vm_suspended_at = None, vm_idle_timeout_secs = None,
     vm_suspend_ttl_secs = None, vm_auto_resume = True, vm_forked_from = None\<rparr>"

definition sample_db :: db where
  "sample_db = fresh_db\<lparr>next_cid := 4, vms := [vm_to_row sample_vm]\<rparr>"

lemma sample_insert:
  "insert_vm rep sample_vm (fresh_db\<lparr>next_cid := 4\<rparr>) = (Inr (), sample_db)"
proof -
  have ok: "store_ok (fresh_db\<lparr>next_cid := 4\<rparr>)"
    using store_ok_fresh by (simp add: store_ok_def)
  show ?thesis
    unfolding insert_vm_iff_insertable [OF ok] by (simp add: insertable_def sample_db_def sample_vm_def)
qed

lemma sample_db_ok: "store_ok sample_db"
  using withinD [OF keeps_vm_insertions(1) sample_insert] store_ok_fresh by (simp add: store_ok_def)

end
