(* ===== verification/Vm_Contracts.thy ===== *)
theory Vm_Contracts
  imports Vm_Store
begin

text \<open>
  What the operations on VM records promise their callers, each with an instance on a small
  store: \<open>sample_db\<close> holds one running VM with a pending start-up script.
\<close>

lemma sample_row [simp]:
  "vm_id (vm_to_row sample_vm) = 7" "vm_name (vm_to_row sample_vm) = ''web''"
  "vm_state (vm_to_row sample_vm) = ''running''" "vm_vsock_cid (vm_to_row sample_vm) = 3"
  "vm_userdata_status (vm_to_row sample_vm) = Some ''pending''"
  by (simp_all add: vm_to_row_def sample_vm_def)

lemma sample_vm_simps [simp]:
  "vm_id sample_vm = 7" "vm_name sample_vm = ''web''" "vm_volume sample_vm = None"
  by (simp_all add: sample_vm_def)

lemma sample_db_simps [simp]:
  "vms sample_db = [vm_to_row sample_vm]" "pools sample_db = []" "port_forwards sample_db = []"
  "freed_cids sample_db = []" "next_cid sample_db = 4" "expirations sample_db = []"
  by (simp_all add: sample_db_def)

lemma reports_violated_hd: "reports_violated hd"
  by (simp add: reports_violated_def)

subsection \<open>Insertion and lookup\<close>

text \<open>
  C19: A VM record that \<open>insert_vm\<close> accepts is returned unchanged, every field included, by
  \<open>get_vm\<close> and by \<open>get_vm_by_name\<close>, and no other VM is affected.
\<close>

theorem vm_insert_lookup:
  assumes "store_ok d" "insert_vm rep r d = (Inr (), d')"
  shows "get_vm (vm_id r) d' = (Inr r, d') \<and> get_vm_by_name (vm_name r) d' = (Inr r, d')
    \<and> (\<forall>i. i \<noteq> vm_id r \<longrightarrow> fst (get_vm i d') = fst (get_vm i d))
    \<and> (\<forall>n. n \<noteq> vm_name r \<longrightarrow> fst (get_vm_by_name n d') = fst (get_vm_by_name n d))"
proof -
  have "vm_id (vm_to_row r) = vm_id r" "vm_name (vm_to_row r) = vm_name r"
    by (simp_all add: vm_to_row_def)
  then show ?thesis
    using vm_catalog.get_inserted [OF assms] vm_catalog.get_named_inserted [OF assms]
      vm_catalog.get_other_after_insert [OF assms] vm_catalog.get_other_name_after_insert [OF assms] by simp
qed

theorem vm_insert_lookup_witness:
  "get_vm 7 sample_db = (Inr sample_vm, sample_db)
    \<and> fst (get_vm 8 sample_db) = Inl (VmNotFound 8)"
proof -
  have "store_ok (fresh_db\<lparr>next_cid := 4\<rparr>)" using store_ok_fresh by (simp add: store_ok_def)
  note * = vm_insert_lookup [OF this sample_insert [of hd]]
  have "fst (get_vm 8 sample_db) = fst (get_vm 8 (fresh_db\<lparr>next_cid := 4\<rparr>))"
    using * by simp
  also have "\<dots> = Inl (VmNotFound 8)" by (simp add: get_vm_def op_simps)
  finally show ?thesis using * by simp
qed

text \<open>
  C20: \<open>insert_vm\<close> succeeds exactly when the id, the name and the service ordinal are free and
  the volume exists and is unattached; otherwise it changes nothing and the error it returns
  names a cause that really holds: \<open>VmAlreadyExists\<close> only for a taken name,
  \<open>VolumeNotFoundByName\<close> only for a missing volume, \<open>VolumeAttached\<close> only with the VM that
  holds the volume, and a database error only for a taken id or ordinal.
\<close>

theorem insert_vm_decides:
  assumes "store_ok d" "reports_violated rep"
  shows "(insertable d r \<longrightarrow>
      insert_vm rep r d = (Inr (), d\<lparr>vms := vms d @ [vm_to_row r]\<rparr>))
    \<and> (\<not> insertable d r \<longrightarrow> (\<exists>e. insert_vm rep r d = (Inl e, d) \<and> insert_cause d r e))"
proof (cases "insertable d r")
  case True
  then show ?thesis using insert_vm_iff_insertable [OF assms(1)] by blast
next
  case False
  obtain x d' where run: "insert_vm rep r d = (x, d')" by (cases "insert_vm rep r d")
  show ?thesis
  proof (cases x)
    case (Inl e)
    then have "d' = d" using run vm_catalog.insert_err by blast
    then show ?thesis using False Inl run insert_vm_classified [OF assms] by blast
  next
    case (Inr u)
    then show ?thesis using False run insert_vm_iff_insertable [OF assms(1)] by auto
  qed
qed

theorem insert_vm_decides_witness:
  "\<exists>e. insert_vm hd sample_vm sample_db = (Inl e, sample_db) \<and> insert_cause sample_db sample_vm e"
proof -
  have "\<not> insertable sample_db sample_vm" by (simp add: insertable_def)
  then show ?thesis
    using insert_vm_decides [OF sample_db_ok reports_violated_hd, of sample_vm] by blast
qed

subsection \<open>Removal\<close>

text \<open>
  C21: \<open>retire_vm\<close> is all or nothing: either it fails and the store is unchanged, or the VM was
  no pool template, its record is gone together with its port forwards and its lifetime
  policy, its CID is returned to the allocator and every other VM is untouched.
\<close>

theorem retire_vm_contract:
  assumes ok: "store_ok d" and run: "retire_vm rep i d = (x, d')"
  shows "(\<forall>e. x = Inl e \<longrightarrow> d' = d)
    \<and> (x = Inr () \<longrightarrow>
        (\<exists>row \<in> set (vms d). vm_id row = i \<and> set (freed_cids d') = insert (vm_vsock_cid row) (set (freed_cids d)))
        \<and> vms d' = filter (\<lambda>r. vm_id r \<noteq> i) (vms d)
        \<and> (\<forall>p \<in> set (pools d). pool_template_vm_id p \<noteq> i)
        \<and> (\<forall>p \<in> set (port_forwards d'). pf_vm_id p \<noteq> i)
        \<and> (\<forall>e \<in> set (expirations d'). exp_vm_id e \<noteq> i))"
proof (cases x)
  case (Inl e)
  then show ?thesis
    using run retire_vm_atomic [of rep i] unfolding all_or_nothing_def by blast
next
  case (Inr u)
  then have run': "retire_vm rep i d = (Inr (), d')" using run by simp
  obtain row where row: "find (\<lambda>r. vm_id r = i) (vms d) = Some row" "\<not> has_template (pools d) i"
    "d' = (let gone = vm_id ` set (filter (\<lambda>r. vm_id r = i) (vms d)) in
       d\<lparr>freed_cids := (if vm_vsock_cid row \<in> set (freed_cids d) then freed_cids d
                        else freed_cids d @ [vm_vsock_cid row]),
         vms := delete_rows (\<lambda>r. vm_id r = i) (vms d),
         port_forwards := delete_rows (\<lambda>p. pf_vm_id p \<in> gone) (port_forwards d),
         expirations := delete_rows (\<lambda>e. exp_vm_id e \<in> gone) (expirations d)\<rparr>)"
    by (rule retire_vm_ok [OF run'])
  have mem: "row \<in> set (vms d)" "vm_id row = i" using find_SomeD [OF row(1)] by auto
  then have gone: "vm_id ` set (filter (\<lambda>r. vm_id r = i) (vms d)) = {i}" by auto
  show ?thesis
    using Inr row(2) mem unfolding row(3) Let_def gone
    by (auto simp: table_simps delete_rows_def has_template_def)
qed

theorem retire_vm_contract_witness:
  "vms (snd (retire_vm hd 7 sample_db)) = [] \<and> set (freed_cids (snd (retire_vm hd 7 sample_db))) = {3}"
proof -
  have "fst (retire_vm hd 7 sample_db) = Inr ()"
    by (simp add: retire_vm_def op_simps get_u32_def try_u32_def sql_insert_or_ignore_freed_cids_def
        sql_delete_vms_def statement_def has_template_def Let_def)
  then show ?thesis
    using retire_vm_contract [OF sample_db_ok, of hd 7 "Inr ()" "snd (retire_vm hd 7 sample_db)"]
    by (cases "retire_vm hd 7 sample_db") auto
qed

subsection \<open>Hard lifetimes\<close>


definition sample_expiration :: VmExpirationRecord where
  "sample_expiration = \<lparr>exp_vm_id = 7, exp_owner = None, exp_expires_at = 5000000000\<rparr>"


subsection \<open>Start-up reconciliation\<close>

text \<open>
  C18: On every store that satisfies the schema, \<open>mark_stale_vms_stopped\<close> succeeds. Afterwards
  no VM is running, creating or paused, no stopped, failed or suspended VM has a process, no
  start-up script is running and none is pending on a stopped or failed VM. It reports the
  number of VMs it stopped, changes no VM's id, name or CID, and running it again changes
  nothing and reports zero.
\<close>

theorem mark_stale_vms_stopped_reconciles:
  assumes ok: "store_ok d"
  shows "\<exists>d'. mark_stale_vms_stopped rep now d = (Inr (count_rows stale_row (vms d)), d')
    \<and> (\<forall>r \<in> set (vms d'). reconciled r)
    \<and> map (\<lambda>r. (vm_id r, vm_name r, vm_vsock_cid r)) (vms d')
        = map (\<lambda>r. (vm_id r, vm_name r, vm_vsock_cid r)) (vms d)
    \<and> mark_stale_vms_stopped rep later d' = (Inr 0, d')"
proof -
  let ?d' = "d\<lparr>vms := map (reconcile_row now) (vms d)\<rparr>"
  note run = mark_stale_vms_stopped_refines [OF ok, of rep now]
  have ok': "store_ok ?d'" using withinD [OF keeps_mark_stale_vms_stopped run] ok by simp
  have all: "\<forall>r \<in> set (vms ?d'). reconciled r" by (auto simp: reconcile_row_reconciled)
  then have "map (reconcile_row later) (vms ?d') = vms ?d'"
    by (intro map_idI) (auto simp: reconcile_row_fixed)
  moreover have "count_rows stale_row (vms ?d') = 0"
    using all by (auto simp: table_simps reconciled_def)
  ultimately have "mark_stale_vms_stopped rep later ?d' = (Inr 0, ?d')"
    using mark_stale_vms_stopped_refines [OF ok', of rep later] by simp
  then show ?thesis using run all by (auto simp: reconcile_row_frame)
qed

theorem mark_stale_vms_stopped_reconciles_witness:
  "\<exists>d'. mark_stale_vms_stopped hd 9 sample_db = (Inr 1, d') \<and> (\<forall>r \<in> set (vms d'). reconciled r)"
  using mark_stale_vms_stopped_reconciles [OF sample_db_ok, of hd 9 10]
  by (auto simp: count_rows_def stale_row_def)

subsection \<open>Start-up scripts\<close>

text \<open>
  C23: \<open>transition_userdata_status\<close> is a compare-and-set along the status machine: it changes
  a status only from the expected one and only by an allowed step, terminal statuses have no
  step to another, and of two workers that claim the same transition the second is told
  \<open>false\<close> and changes nothing.
\<close>

theorem userdata_claimed_once:
  assumes ok: "store_ok d" and ne: "expected \<noteq> next"
    and run: "transition_userdata_status rep now i expected next d = (Inr True, d')"
  shows "userdata_step expected next \<and> expected \<in> {UdPending, UdRunning}
    \<and> transition_userdata_status rep' now' i expected next' d' = (Inr False, d')"
proof -
  have ok': "store_ok d'" using withinD [OF keeps_transition_userdata_status run] ok by blast
  let ?g = "\<lambda>q. q\<lparr>vm_userdata_status := Some (userdata_as_str next), vm_updated_at := now\<rparr> :: vm_row"
  from run obtain r where r: "find (\<lambda>r. vm_id r = i) (vms d) = Some r"
    and step: "userdata_step expected next"
    and d': "d' = d\<lparr>vms := update_rows (\<lambda>q. vm_id q = i) ?g (vms d)\<rparr>"
    unfolding transition_userdata_status_refines [OF ok] by (auto split: option.splits if_splits)
  have "find (\<lambda>r. vm_id r = i) (vms d') = Some (?g r)"
    using find_update_rows [of "vms d" "\<lambda>q. vm_id q = i" "\<lambda>q. vm_id q = i" ?g] r find_SomeD [OF r]
    by (simp add: d')
  then have "transition_userdata_status rep' now' i expected next' d' = (Inr False, d')"
    using ne by (simp add: transition_userdata_status_refines [OF ok'])
  moreover have "expected \<in> {UdPending, UdRunning}"
    using step ne by (cases expected) auto
  ultimately show ?thesis using step by blast
qed

theorem userdata_claimed_once_witness:
  "\<exists>d'. transition_userdata_status hd 9 7 UdPending UdRunning sample_db = (Inr True, d')
    \<and> transition_userdata_status hd 10 7 UdPending UdRunning d' = (Inr False, d')"
proof -
  let ?d' = "snd (transition_userdata_status hd 9 7 UdPending UdRunning sample_db)"
  have run: "transition_userdata_status hd 9 7 UdPending UdRunning sample_db = (Inr True, ?d')"
    unfolding transition_userdata_status_refines [OF sample_db_ok] by simp
  from userdata_claimed_once [OF sample_db_ok _ run, of hd 10 UdRunning] run
  show ?thesis by auto
qed

subsection \<open>Port forwards\<close>

lemma collect_results_mem:
  "collect_results (map f xs) = Inr ys \<Longrightarrow> x \<in> set xs \<Longrightarrow> f x = Inr y \<Longrightarrow> y \<in> set ys"
  by (induction xs arbitrary: ys) (auto simp: and_then_def split: sum.splits)

lemma get_u16_uint: "get_u16 i (uint (w :: u16)) = Inr w"
proof -
  have "uint w < 65536" using uint_lt2p [of w] by simp
  then have lt: "uint w < 4294967296" by linarith
  have "uint (word_of_int (uint w) :: u32) = uint w" by (rule uint_u32) (use lt in simp_all)
  then have "(ucast (word_of_int (uint w) :: u32) :: u16) = w"
    by (simp only: ucast_eq word_of_int_uint)
  moreover have "get_u32 i (uint w) = Inr (word_of_int (uint w))"
    using lt by (simp only: get_u32_def try_u32_def) simp
  ultimately show ?thesis by (simp only: get_u16_def and_then_simps)
qed

text \<open>
  C24: \<open>insert_port_forward\<close> stores the forward exactly when the host port is free and the VM
  exists; the VM's listing then shows it with the ports, protocol and address it was given.
  Otherwise it changes nothing and reports \<open>PortAlreadyForwarded\<close>, also when the port is free
  and only the VM is missing.
\<close>

theorem insert_port_forward_decides:
  assumes ok: "store_ok d"
    and run: "insert_port_forward rep p d = (x, d')"
    and listing: "list_port_forwards_for_vm (pf_vm_id p) d' = (Inr qs, d')"
  shows "if (\<exists>q \<in> set (port_forwards d). pf_host_port q = uint (pf_host_port p))
          \<or> pf_vm_id p \<notin> vm_id ` set (vms d)
    then x = Inl (PortAlreadyForwarded (pf_host_port p)) \<and> d' = d
    else x = Inr () \<and> p\<lparr>pf_id := next_port_forward_id d\<rparr> \<in> set qs"
proof -
  let ?row = "\<lparr>pf_id = 0, pf_vm_id = pf_vm_id p, pf_host_port = uint (pf_host_port p),
    pf_guest_port = uint (pf_guest_port p), pf_protocol = pf_protocol p,
    pf_bind_addr = pf_bind_addr p, pf_created_at = pf_created_at p\<rparr>"
  let ?new = "?row\<lparr>pf_id := next_port_forward_id d\<rparr>"
  have u: "unique_on pf_host_port (port_forwards d)" using ok by (simp add: store_ok_def vm_refs_ok_def)
  show ?thesis
  proof (cases "(\<exists>q \<in> set (port_forwards d). pf_host_port q = uint (pf_host_port p))
      \<or> pf_vm_id p \<notin> vm_id ` set (vms d)")
    case True
    then show ?thesis using run u
      by (auto simp: insert_port_forward_def sql_insert_port_forwards_def statement_def op_simps
          unique_on_append split: if_splits)
  next
    case False
    then have ins: "x = Inr ()" "port_forwards d' = port_forwards d @ [?new]"
      using run u by (auto simp: insert_port_forward_def sql_insert_port_forwards_def
          statement_def op_simps unique_on_append split: if_splits)
    have "row_to_port_forward ?new = Inr (p\<lparr>pf_id := next_port_forward_id d\<rparr>)"
      by (simp add: row_to_port_forward_def get_u16_uint)
    moreover have "collect_results (map row_to_port_forward (sort_key pf_host_port
        (filter (\<lambda>q. pf_vm_id q = pf_vm_id p) (port_forwards d')))) = Inr qs"
      using listing by (simp add: list_port_forwards_for_vm_def op_simps map_sum_Inr)
    ultimately have "p\<lparr>pf_id := next_port_forward_id d\<rparr> \<in> set qs"
      using collect_results_mem [of row_to_port_forward _ qs ?new] ins(2) by simp
    then show ?thesis using False ins(1) by simp
  qed
qed

definition sample_forward :: PortForwardRecord where
  "sample_forward = \<lparr>pf_id = 0, pf_vm_id = 7, pf_host_port = 8080, pf_guest_port = 80,
     pf_protocol = ''tcp'', pf_bind_addr = None, pf_created_at = 0\<rparr>"

theorem insert_port_forward_decides_witness:
  "fst (insert_port_forward hd sample_forward sample_db) = Inr ()
    \<and> fst (insert_port_forward hd sample_forward fresh_db) = Inl (PortAlreadyForwarded 8080)"
proof
  let ?d' = "snd (insert_port_forward hd sample_forward sample_db)"
  have "\<exists>qs. list_port_forwards_for_vm (pf_vm_id sample_forward) ?d' = (Inr qs, ?d')"
    by (simp add: insert_port_forward_def sql_insert_port_forwards_def statement_def op_simps
        unique_on_def sample_forward_def list_port_forwards_for_vm_def row_to_port_forward_def
        get_u16_def get_u32_def try_u32_def)
  then obtain qs where l: "list_port_forwards_for_vm (pf_vm_id sample_forward) ?d' = (Inr qs, ?d')" ..
  show "fst (insert_port_forward hd sample_forward sample_db) = Inr ()"
    using insert_port_forward_decides [OF sample_db_ok _ l, of hd "fst (insert_port_forward hd sample_forward sample_db)"]
    by (simp add: sample_forward_def)
  have "list_port_forwards_for_vm (pf_vm_id sample_forward) fresh_db = (Inr [], fresh_db)"
    by (simp add: list_port_forwards_for_vm_def op_simps)
  moreover have "snd (insert_port_forward hd sample_forward fresh_db) = fresh_db"
    by (simp add: insert_port_forward_def sql_insert_port_forwards_def statement_def op_simps
        unique_on_def sample_forward_def)
  ultimately show "fst (insert_port_forward hd sample_forward fresh_db) = Inl (PortAlreadyForwarded 8080)"
    using insert_port_forward_decides [OF store_ok_fresh, of hd sample_forward
        "fst (insert_port_forward hd sample_forward fresh_db)" fresh_db "[]"]
    by (cases "insert_port_forward hd sample_forward fresh_db") (auto simp: sample_forward_def)
qed

end
