(* ===== verification/Catalogs.thy ===== *)
theory Catalogs
  imports Vm_Store
begin

text \<open>
  The catalogs of \<open>crates/husker-state/src/lib.rs\<close>: host groups, services, snapshots, images,
  secrets and volumes. Each is an instance of the catalog contract of \<open>Named_Catalog\<close>, with
  the conversions between its records and its rows.
\<close>

subsection \<open>Shared error mapping\<close>

text \<open>Every constraint violation of an insertion is reported as the name being taken.\<close>

definition already_exists :: "StateError \<Rightarrow> sql_error \<Rightarrow> StateError" where
  "already_exists taken e = (case e of ConstraintViolation _ \<Rightarrow> taken | _ \<Rightarrow> Database e)"

subsection \<open>Host groups\<close>

definition row_to_host_group_record :: "HostGroupRecord \<Rightarrow> sql_error + HostGroupRecord" where
  "row_to_host_group_record row =
     Inr \<lparr>hg_id = hg_id row, hg_name = hg_name row, hg_description = hg_description row,
          hg_created_at = hg_created_at row, hg_updated_at = hg_updated_at row\<rparr>"

definition insert_host_group :: "reporter \<Rightarrow> HostGroupRecord \<Rightarrow> (db, StateError, unit) op" where
  "insert_host_group rep record =
     map_err (already_exists (HostGroupAlreadyExists (hg_name record))) (sql_insert_host_groups rep record)"

definition get_host_group :: "Uuid \<Rightarrow> (db, StateError, HostGroupRecord) op" where
  "get_host_group i = bind_op (query (\<lambda>d. find (\<lambda>r. hg_id r = i) (host_groups d)))
     (one_row (HostGroupNotFound i) row_to_host_group_record)"

definition get_host_group_by_name :: "string \<Rightarrow> (db, StateError, HostGroupRecord) op" where
  "get_host_group_by_name n = bind_op (query (\<lambda>d. find (\<lambda>r. hg_name r = n) (host_groups d)))
     (one_row (HostGroupNotFoundByName n) row_to_host_group_record)"

definition list_host_groups :: "(DateTime \<Rightarrow> string) \<Rightarrow> (db, StateError, HostGroupRecord list) op" where
  "list_host_groups rfc3339 =
     bind_op (query (\<lambda>d. sort_key (\<lambda>r. rfc3339 (hg_created_at r)) (host_groups d))) (\<lambda>rows.
     db_val (collect_results (map row_to_host_group_record rows)))"

definition delete_host_group :: "Uuid \<Rightarrow> (db, StateError, unit) op" where
  "delete_host_group i =
     bind_op (db_op (sql_delete_host_groups (\<lambda>r. hg_id r = i))) (affected (HostGroupNotFound i))"

subsection \<open>Services\<close>

text \<open>The row an insertion binds, with the disk size already converted.\<close>

definition service_to_row :: "ServiceRecord \<Rightarrow> int option \<Rightarrow> service_row" where
  "service_to_row r disk =
    \<lparr>svc_id = svc_id r, svc_name = svc_name r, svc_host_group_id = svc_host_group_id r,
     svc_desired_instances = uint (svc_desired_instances r), svc_image = svc_image r,
     svc_kernel_path = svc_kernel_path r, svc_rootfs_path = svc_rootfs_path r,
     svc_initrd_path = svc_initrd_path r, svc_vcpu_count = map_option uint (svc_vcpu_count r),
     svc_mem_size_mib = map_option uint (svc_mem_size_mib r), svc_userdata = svc_userdata r,
     svc_userdata_env = svc_userdata_env r, svc_created_at = svc_created_at r,
     svc_updated_at = svc_updated_at r, svc_cloud_image = svc_cloud_image r,
     svc_disk_size = disk, svc_balloon = int_of_bool (svc_balloon r), svc_volume = svc_volume r\<rparr>"

definition row_to_service_record :: "service_row \<Rightarrow> sql_error + ServiceRecord" where
  "row_to_service_record row =
    and_then (traverse_option (get_u64 15) (svc_disk_size row)) (\<lambda>disk.
    and_then (get_u32 3 (svc_desired_instances row)) (\<lambda>desired.
    and_then (traverse_option (get_u32 8) (svc_vcpu_count row)) (\<lambda>vcpus.
    and_then (traverse_option (get_u32 9) (svc_mem_size_mib row)) (\<lambda>mem.
    Inr \<lparr>svc_id = svc_id row, svc_name = svc_name row, svc_host_group_id = svc_host_group_id row,
      svc_desired_instances = desired, svc_image = svc_image row,
      svc_kernel_path = svc_kernel_path row, svc_rootfs_path = svc_rootfs_path row,
      svc_initrd_path = svc_initrd_path row, svc_vcpu_count = vcpus, svc_mem_size_mib = mem,
      svc_userdata = svc_userdata row, svc_userdata_env = svc_userdata_env row,
      svc_created_at = svc_created_at row, svc_updated_at = svc_updated_at row,
      svc_cloud_image = svc_cloud_image row, svc_disk_size = disk,
      svc_balloon = (svc_balloon row \<noteq> 0), svc_volume = svc_volume row\<rparr>))))"

definition insert_service :: "reporter \<Rightarrow> ServiceRecord \<Rightarrow> (db, StateError, unit) op" where
  "insert_service rep record =
     bind_op (db_val (traverse_option (\<lambda>v. ok_or (FromSqlConversionFailure 0) (try_i64 v))
       (svc_disk_size record))) (\<lambda>disk.
     map_err (already_exists (ServiceAlreadyExists (svc_name record)))
       (sql_insert_services rep (service_to_row record disk)))"

definition get_service :: "Uuid \<Rightarrow> (db, StateError, ServiceRecord) op" where
  "get_service i = bind_op (query (\<lambda>d. find (\<lambda>r. svc_id r = i) (services d)))
     (one_row (ServiceNotFound i) row_to_service_record)"

definition get_service_by_name :: "string \<Rightarrow> (db, StateError, ServiceRecord) op" where
  "get_service_by_name n = bind_op (query (\<lambda>d. find (\<lambda>r. svc_name r = n) (services d)))
     (one_row (ServiceNotFoundByName n) row_to_service_record)"

definition list_services :: "(DateTime \<Rightarrow> string) \<Rightarrow> (db, StateError, ServiceRecord list) op" where
  "list_services rfc3339 =
     bind_op (query (\<lambda>d. sort_key (\<lambda>r. rfc3339 (svc_created_at r)) (services d))) (\<lambda>rows.
     db_val (collect_results (map row_to_service_record rows)))"

definition update_service_desired_instances ::
  "DateTime \<Rightarrow> Uuid \<Rightarrow> u32 \<Rightarrow> (db, StateError, unit) op" where
  "update_service_desired_instances now i desired =
     bind_op (db_op (sql_update_services (\<lambda>r. svc_id r = i)
       (\<lambda>r. r\<lparr>svc_desired_instances := uint desired, svc_updated_at := now\<rparr>)))
     (affected (ServiceNotFound i))"

definition delete_service :: "Uuid \<Rightarrow> (db, StateError, unit) op" where
  "delete_service i =
     bind_op (db_op (sql_delete_services (\<lambda>r. svc_id r = i))) (affected (ServiceNotFound i))"

subsection \<open>Snapshots\<close>

definition row_to_snapshot_record :: "SnapshotRecord \<Rightarrow> sql_error + SnapshotRecord" where
  "row_to_snapshot_record row =
     Inr \<lparr>snap_id = snap_id row, snap_name = snap_name row,
          snap_source_vm_name = snap_source_vm_name row, snap_file_path = snap_file_path row,
          snap_created_at = snap_created_at row\<rparr>"

definition insert_snapshot :: "reporter \<Rightarrow> SnapshotRecord \<Rightarrow> (db, StateError, unit) op" where
  "insert_snapshot rep record =
     map_err (already_exists (SnapshotAlreadyExists (snap_name record))) (sql_insert_snapshots rep record)"

definition get_snapshot :: "Uuid \<Rightarrow> (db, StateError, SnapshotRecord) op" where
  "get_snapshot i = bind_op (query (\<lambda>d. find (\<lambda>r. snap_id r = i) (snapshots d)))
     (one_row (SnapshotNotFound i) row_to_snapshot_record)"

definition get_snapshot_by_name :: "string \<Rightarrow> (db, StateError, SnapshotRecord) op" where
  "get_snapshot_by_name n = bind_op (query (\<lambda>d. find (\<lambda>r. snap_name r = n) (snapshots d)))
     (one_row (SnapshotNotFoundByName n) row_to_snapshot_record)"

definition list_snapshots :: "(DateTime \<Rightarrow> string) \<Rightarrow> (db, StateError, SnapshotRecord list) op" where
  "list_snapshots rfc3339 =
     bind_op (query (\<lambda>d. sort_key (\<lambda>r. rfc3339 (snap_created_at r)) (snapshots d))) (\<lambda>rows.
     db_val (collect_results (map row_to_snapshot_record rows)))"

definition delete_snapshot :: "Uuid \<Rightarrow> (db, StateError, unit) op" where
  "delete_snapshot i =
     bind_op (db_op (sql_delete_snapshots (\<lambda>r. snap_id r = i))) (affected (SnapshotNotFound i))"

subsection \<open>Images\<close>

definition image_to_row :: "ImageRecord \<Rightarrow> int \<Rightarrow> image_row" where
  "image_to_row r sz =
    \<lparr>img_id = img_id r, img_name = img_name r, img_source_path = img_source_path r,
     img_file_path = img_file_path r, img_format = img_format r,
     img_kind = image_kind_as_str (img_kind r), img_boot_init = img_boot_init r,
     img_content_digest = img_content_digest r, img_parent_image = img_parent_image r,
     img_size_bytes = sz, img_created_at = img_created_at r\<rparr>"

definition row_to_image_record :: "image_row \<Rightarrow> sql_error + ImageRecord" where
  "row_to_image_record row =
    and_then (get_u64 6 (img_size_bytes row)) (\<lambda>sz.
    and_then (get_enum 5 image_kind_from_str (img_kind row)) (\<lambda>kind.
    Inr \<lparr>img_id = img_id row, img_name = img_name row, img_source_path = img_source_path row,
      img_file_path = img_file_path row, img_format = img_format row, img_kind = kind,
      img_boot_init = img_boot_init row, img_content_digest = img_content_digest row,
      img_parent_image = img_parent_image row, img_size_bytes = sz,
      img_created_at = img_created_at row\<rparr>))"

definition insert_image :: "reporter \<Rightarrow> ImageRecord \<Rightarrow> (db, StateError, unit) op" where
  "insert_image rep record =
     bind_op (lift_result (ok_or (CorruptData ''size_bytes'') (try_i64 (img_size_bytes record)))) (\<lambda>sz.
     map_err (already_exists (ImageAlreadyExists (img_name record)))
       (sql_insert_images rep (image_to_row record sz)))"

definition get_image :: "Uuid \<Rightarrow> (db, StateError, ImageRecord) op" where
  "get_image i = bind_op (query (\<lambda>d. find (\<lambda>r. img_id r = i) (images d)))
     (one_row (ImageNotFound i) row_to_image_record)"

definition get_image_by_name :: "string \<Rightarrow> (db, StateError, ImageRecord) op" where
  "get_image_by_name n = bind_op (query (\<lambda>d. find (\<lambda>r. img_name r = n) (images d)))
     (one_row (ImageNotFoundByName n) row_to_image_record)"

definition list_images :: "(DateTime \<Rightarrow> string) \<Rightarrow> (db, StateError, ImageRecord list) op" where
  "list_images rfc3339 =
     bind_op (query (\<lambda>d. sort_key (\<lambda>r. rfc3339 (img_created_at r)) (images d))) (\<lambda>rows.
     db_val (collect_results (map row_to_image_record rows)))"

definition delete_image :: "Uuid \<Rightarrow> (db, StateError, unit) op" where
  "delete_image i =
     bind_op (db_op (sql_delete_images (\<lambda>r. img_id r = i))) (affected (ImageNotFound i))"

subsection \<open>Secrets\<close>

definition row_to_secret_record :: "SecretRecord \<Rightarrow> sql_error + SecretRecord" where
  "row_to_secret_record row =
     Inr \<lparr>sec_id = sec_id row, sec_name = sec_name row, sec_ciphertext = sec_ciphertext row,
          sec_nonce = sec_nonce row, sec_created_at = sec_created_at row,
          sec_updated_at = sec_updated_at row\<rparr>"

definition insert_secret :: "reporter \<Rightarrow> SecretRecord \<Rightarrow> (db, StateError, unit) op" where
  "insert_secret rep record =
     map_err (already_exists (SecretAlreadyExists (sec_name record))) (sql_insert_secrets rep record)"

definition get_secret :: "Uuid \<Rightarrow> (db, StateError, SecretRecord) op" where
  "get_secret i = bind_op (query (\<lambda>d. find (\<lambda>r. sec_id r = i) (secrets d)))
     (one_row (SecretNotFound i) row_to_secret_record)"

definition get_secret_by_name :: "string \<Rightarrow> (db, StateError, SecretRecord) op" where
  "get_secret_by_name n = bind_op (query (\<lambda>d. find (\<lambda>r. sec_name r = n) (secrets d)))
     (one_row (SecretNotFoundByName n) row_to_secret_record)"

definition list_secrets :: "(DateTime \<Rightarrow> string) \<Rightarrow> (db, StateError, SecretRecord list) op" where
  "list_secrets rfc3339 =
     bind_op (query (\<lambda>d. sort_key (\<lambda>r. rfc3339 (sec_created_at r)) (secrets d))) (\<lambda>rows.
     db_val (collect_results (map row_to_secret_record rows)))"

definition update_secret_payload ::
  "DateTime \<Rightarrow> Uuid \<Rightarrow> bytes \<Rightarrow> bytes \<Rightarrow> (db, StateError, unit) op" where
  "update_secret_payload now i ciphertext nonce =
     bind_op (db_op (sql_update_secrets (\<lambda>r. sec_id r = i)
       (\<lambda>r. r\<lparr>sec_ciphertext := ciphertext, sec_nonce := nonce, sec_updated_at := now\<rparr>)))
     (affected (SecretNotFound i))"

definition delete_secret :: "Uuid \<Rightarrow> (db, StateError, unit) op" where
  "delete_secret i =
     bind_op (db_op (sql_delete_secrets (\<lambda>r. sec_id r = i))) (affected (SecretNotFound i))"

subsection \<open>Volumes\<close>

definition volume_to_row :: "VolumeRecord \<Rightarrow> int \<Rightarrow> volume_row" where
  "volume_to_row r sz =
    \<lparr>vol_id = vol_id r, vol_name = vol_name r, vol_file_path = vol_file_path r,
     vol_size_bytes = sz, vol_created_at = vol_created_at r\<rparr>"

definition row_to_volume_record :: "volume_row \<Rightarrow> sql_error + VolumeRecord" where
  "row_to_volume_record row =
    and_then (get_u64 3 (vol_size_bytes row)) (\<lambda>sz.
    Inr \<lparr>vol_id = vol_id row, vol_name = vol_name row, vol_file_path = vol_file_path row,
      vol_size_bytes = sz, vol_created_at = vol_created_at row\<rparr>)"

definition insert_volume :: "reporter \<Rightarrow> VolumeRecord \<Rightarrow> (db, StateError, unit) op" where
  "insert_volume rep record =
     bind_op (lift_result (ok_or (CorruptData ''size_bytes'') (try_i64 (vol_size_bytes record)))) (\<lambda>sz.
     map_err (already_exists (VolumeAlreadyExists (vol_name record)))
       (sql_insert_volumes rep (volume_to_row record sz)))"

definition get_volume_by_name :: "string \<Rightarrow> (db, StateError, VolumeRecord) op" where
  "get_volume_by_name n = bind_op (query (\<lambda>d. find (\<lambda>r. vol_name r = n) (volumes d)))
     (one_row (VolumeNotFoundByName n) row_to_volume_record)"

definition list_volumes :: "(DateTime \<Rightarrow> string) \<Rightarrow> (db, StateError, VolumeRecord list) op" where
  "list_volumes rfc3339 =
     bind_op (query (\<lambda>d. sort_key (\<lambda>r. rfc3339 (vol_created_at r)) (volumes d))) (\<lambda>rows.
     db_val (collect_results (map row_to_volume_record rows)))"

definition delete_volume :: "reporter \<Rightarrow> Uuid \<Rightarrow> (db, StateError, unit) op" where
  "delete_volume rep i =
     bind_op (db_op (sql_delete_volumes rep (\<lambda>r. vol_id r = i))) (affected (VolumeNotFound i))"

definition delete_unattached_volume_by_name ::
  "reporter \<Rightarrow> string \<Rightarrow> (db, StateError, VolumeRecord) op" where
  "delete_unattached_volume_by_name rep n = transaction (
     bind_op (query (\<lambda>d. find (\<lambda>r. vol_name r = n) (volumes d))) (\<lambda>row.
     bind_op (one_row (VolumeNotFoundByName n) row_to_volume_record row) (\<lambda>record.
     bind_op (query (volume_owner n)) (\<lambda>owner.
     case owner of Some vm \<Rightarrow> err (VolumeAttached n vm)
     | None \<Rightarrow> bind_op (db_op (sql_delete_volumes rep (\<lambda>r. vol_id r = vol_id record))) (\<lambda>_.
               ok record)))))"

subsection \<open>Every operation keeps the schema invariant\<close>

lemma keeps_catalog_insertions [keeps_store_ok]:
  "keeps store_ok (insert_host_group rep g)"
  "keeps store_ok (insert_service rep s)"
  "keeps store_ok (insert_snapshot rep p)"
  "keeps store_ok (insert_image rep i)"
  "keeps store_ok (insert_secret rep c)"
  "keeps store_ok (insert_volume rep v)"
  unfolding insert_host_group_def insert_service_def insert_snapshot_def insert_image_def
    insert_secret_def insert_volume_def
  by (intro within_intros keeps_store_ok preorder_keeps)+

lemma keeps_catalog_updates [keeps_store_ok]:
  "keeps store_ok (update_service_desired_instances now i n)"
  "keeps store_ok (update_secret_payload now i c b)"
  unfolding update_service_desired_instances_def update_secret_payload_def
  by (intro within_intros keeps_update_services keeps_update_secrets preorder_keeps; simp)+

lemma keeps_catalog_deletions [keeps_store_ok]:
  "keeps store_ok (delete_host_group i)"
  "keeps store_ok (delete_service i)"
  "keeps store_ok (delete_snapshot i)"
  "keeps store_ok (delete_image i)"
  "keeps store_ok (delete_secret i)"
  "keeps store_ok (delete_volume rep i)"
  "keeps store_ok (delete_unattached_volume_by_name rep n)"
  unfolding delete_host_group_def delete_service_def delete_snapshot_def delete_image_def
    delete_secret_def delete_volume_def delete_unattached_volume_by_name_def
  by (intro within_intros keeps_store_ok preorder_keeps)+

subsection \<open>The catalog contract holds of each table\<close>

lemma map_err_statement_Inr:
  "map_err g (statement rep tr cs res eff) d = (Inr x, d') \<Longrightarrow>
    raised (tr d) = [] \<and> raised (cs d) = [] \<and> d' = eff d"
  by (auto simp: map_err_def statement_def split: if_splits)

lemma map_err_statement_Inl:
  "map_err g (statement rep tr cs res eff) d = (Inl e, d') \<Longrightarrow> d' = d"
  by (auto simp: map_err_def statement_def split: if_splits)

lemma ids_filter_empty: "i \<notin> key ` set t \<Longrightarrow> filter (\<lambda>r. key r = i) t = []"
  by (auto simp: filter_empty_conv)

lemma delete_affected:
  assumes run: "bind_op (db_op (\<lambda>d. (Inr (count_rows P (t d)), eff d))) (affected e) d = (x, d')"
  shows "(x = Inl e \<and> (\<forall>r \<in> set (t d). \<not> P r) \<or> x = Inr () \<and> (\<exists>r \<in> set (t d). P r)) \<and> d' = eff d"
  using run by (auto simp: op_simps count_rows_def filter_empty_conv split: if_splits)

lemma service_round_trip:
  assumes "traverse_option (\<lambda>v. ok_or (FromSqlConversionFailure 0) (try_i64 v)) (svc_disk_size r) = Inr disk"
  shows "row_to_service_record (service_to_row r disk) = Inr r"
proof -
  have "traverse_option (get_u64 15) disk = Inr (svc_disk_size r)"
  proof (cases "svc_disk_size r")
    case None
    then show ?thesis using assms by (simp add: traverse_option_def)
  next
    case (Some v)
    then obtain z where "try_i64 v = Some z" "disk = Some z"
      using assms by (cases "try_i64 v") (auto simp: traverse_option_def)
    then show ?thesis using Some by (simp add: traverse_option_def get_u64_def try_u64_try_i64)
  qed
  then show ?thesis
    by (cases r) (simp add: row_to_service_record_def service_to_row_def)
qed

lemma image_round_trip:
  "try_i64 (img_size_bytes r) = Some z \<Longrightarrow> row_to_image_record (image_to_row r z) = Inr r"
  by (cases r) (simp add: row_to_image_record_def image_to_row_def get_u64_def try_u64_try_i64
      get_enum_def)

lemma volume_round_trip:
  "try_i64 (vol_size_bytes r) = Some z \<Longrightarrow> row_to_volume_record (volume_to_row r z) = Inr r"
  by (cases r) (simp add: row_to_volume_record_def volume_to_row_def get_u64_def try_u64_try_i64)

text \<open>The row of a record whose size fits the column; the insertion fails for any other.\<close>

definition service_row_of :: "ServiceRecord \<Rightarrow> service_row" where
  "service_row_of r = service_to_row r
     (case traverse_option (\<lambda>v. ok_or (FromSqlConversionFailure 0) (try_i64 v)) (svc_disk_size r) of
        Inl _ \<Rightarrow> None | Inr disk \<Rightarrow> disk)"

definition image_row_of :: "ImageRecord \<Rightarrow> image_row" where
  "image_row_of r = image_to_row r (case try_i64 (img_size_bytes r) of None \<Rightarrow> 0 | Some z \<Rightarrow> z)"

definition volume_row_of :: "VolumeRecord \<Rightarrow> volume_row" where
  "volume_row_of r = volume_to_row r (case try_i64 (vol_size_bytes r) of None \<Rightarrow> 0 | Some z \<Rightarrow> z)"

interpretation host_group_catalog: named_catalog store_ok host_groups hg_id hg_name id
  "\<lambda>w. map_sum Database id (row_to_host_group_record w)" HostGroupNotFound HostGroupNotFoundByName
  "insert_host_group rep" get_host_group_by_name delete_host_group get_host_group for rep
proof
  show "unique_on hg_id (host_groups d)" "unique_on hg_name (host_groups d)" if "store_ok d" for d
    using that by (simp_all add: store_ok_def services_ok_def)
  show "store_ok d' \<and> host_groups d' = host_groups d @ [id r]
      \<and> map_sum Database id (row_to_host_group_record (id r)) = Inr r"
    if "store_ok d" "insert_host_group rep r d = (Inr (), d')" for d r d'
    using that(1) withinD [OF keeps_catalog_insertions(1) that(2)]
      map_err_statement_Inr [OF that(2) [unfolded insert_host_group_def sql_insert_host_groups_def]]
    by (simp add: row_to_host_group_record_def)
  show "d' = d" if "insert_host_group rep r d = (Inl e, d')" for r d e d'
    using that unfolding insert_host_group_def sql_insert_host_groups_def
    by (rule map_err_statement_Inl)
  show "get_host_group_by_name n d = (row_answer (HostGroupNotFoundByName n)
      (\<lambda>w. map_sum Database id (row_to_host_group_record w)) (\<lambda>w. hg_name w = n) (host_groups d), d)"
    for n d unfolding get_host_group_by_name_def by (rule query_one_row)
  show "get_host_group i d = (row_answer (HostGroupNotFound i)
      (\<lambda>w. map_sum Database id (row_to_host_group_record w)) (\<lambda>w. hg_id w = i) (host_groups d), d)"
    for i d unfolding get_host_group_def by (rule query_one_row)
  show "store_ok d' \<and> host_groups d' = delete_rows (\<lambda>w. hg_id w = i) (host_groups d)"
    if "store_ok d" "delete_host_group i d = (Inr (), d')" for d i d'
    using that(1) withinD [OF keeps_catalog_deletions(1) that(2)]
      delete_affected [OF that(2) [unfolded delete_host_group_def sql_delete_host_groups_def Let_def]]
    by simp
  have missing: "delete_host_group i d = (Inl (HostGroupNotFound i), d)"
    if "i \<notin> hg_id ` set (host_groups d)" for i d
  proof -
    note none = ids_filter_empty [OF that]
    have "sql_delete_host_groups (\<lambda>r. hg_id r = i) d = (Inr 0, d)"
      unfolding sql_delete_host_groups_def Let_def count_rows_def none
      by (simp add: delete_rows_none [OF none] update_rows_def)
    then show ?thesis by (simp add: delete_host_group_def op_simps)
  qed
  then show "delete_host_group i d = (Inl (HostGroupNotFound i), d)"
    if "i \<notin> hg_id ` set (host_groups d)" for i d using that .
  show "d' = d" if run: "delete_host_group i d = (Inl e, d')" for i d e d'
  proof -
    have "\<forall>r \<in> set (host_groups d). hg_id r \<noteq> i"
      using delete_affected [OF run [unfolded delete_host_group_def sql_delete_host_groups_def Let_def]]
      by simp
    then show ?thesis using missing [of i d] run by auto
  qed
qed

interpretation service_catalog: named_catalog store_ok services svc_id svc_name service_row_of
  "\<lambda>w. map_sum Database id (row_to_service_record w)" ServiceNotFound ServiceNotFoundByName
  "insert_service rep" get_service_by_name delete_service get_service for rep
proof
  show "unique_on svc_id (services d)" "unique_on svc_name (services d)" if "store_ok d" for d
    using that by (simp_all add: store_ok_def services_ok_def)
  show "store_ok d' \<and> services d' = services d @ [service_row_of r]
      \<and> map_sum Database id (row_to_service_record (service_row_of r)) = Inr r"
    if "store_ok d" "insert_service rep r d = (Inr (), d')" for d r d'
  proof -
    from that(2) obtain disk where disk: "traverse_option (\<lambda>v. ok_or (FromSqlConversionFailure 0) (try_i64 v))
        (svc_disk_size r) = Inr disk"
      and run: "map_err (already_exists (ServiceAlreadyExists (svc_name r)))
        (sql_insert_services rep (service_to_row r disk)) d = (Inr (), d')"
      by (auto simp: insert_service_def bind_op_def db_val_def lift_result_def map_sum_Inr
          split: sum.splits)
    have "service_row_of r = service_to_row r disk" using disk by (simp add: service_row_of_def)
    then show ?thesis
      using that(1) withinD [OF keeps_catalog_insertions(2) that(2)] service_round_trip [OF disk]
        map_err_statement_Inr [OF run [unfolded sql_insert_services_def]] by simp
  qed
  show "d' = d" if "insert_service rep r d = (Inl e, d')" for r d e d'
    using that unfolding insert_service_def sql_insert_services_def bind_op_def db_val_def lift_result_def
    by (auto split: sum.splits dest: map_err_statement_Inl)
  show "get_service_by_name n d = (row_answer (ServiceNotFoundByName n)
      (\<lambda>w. map_sum Database id (row_to_service_record w)) (\<lambda>w. svc_name w = n) (services d), d)"
    for n d unfolding get_service_by_name_def by (rule query_one_row)
  show "get_service i d = (row_answer (ServiceNotFound i)
      (\<lambda>w. map_sum Database id (row_to_service_record w)) (\<lambda>w. svc_id w = i) (services d), d)"
    for i d unfolding get_service_def by (rule query_one_row)
  show "store_ok d' \<and> services d' = delete_rows (\<lambda>w. svc_id w = i) (services d)"
    if "store_ok d" "delete_service i d = (Inr (), d')" for d i d'
    using that(1) withinD [OF keeps_catalog_deletions(2) that(2)]
      delete_affected [OF that(2) [unfolded delete_service_def sql_delete_services_def Let_def]]
    by simp
  have missing: "delete_service i d = (Inl (ServiceNotFound i), d)"
    if "i \<notin> svc_id ` set (services d)" for i d
    using ids_filter_empty [OF that]
    by (simp add: delete_service_def sql_delete_services_def op_simps count_rows_def delete_rows_none)
  then show "delete_service i d = (Inl (ServiceNotFound i), d)"
    if "i \<notin> svc_id ` set (services d)" for i d using that .
  show "d' = d" if run: "delete_service i d = (Inl e, d')" for i d e d'
  proof -
    have "\<forall>r \<in> set (services d). svc_id r \<noteq> i"
      using delete_affected [OF run [unfolded delete_service_def sql_delete_services_def Let_def]]
      by simp
    then show ?thesis using missing [of i d] run by auto
  qed
qed

interpretation snapshot_catalog: named_catalog store_ok snapshots snap_id snap_name id
  "\<lambda>w. map_sum Database id (row_to_snapshot_record w)" SnapshotNotFound SnapshotNotFoundByName
  "insert_snapshot rep" get_snapshot_by_name delete_snapshot get_snapshot for rep
proof
  show "unique_on snap_id (snapshots d)" "unique_on snap_name (snapshots d)" if "store_ok d" for d
    using that by (simp_all add: store_ok_def catalogs_ok_def)
  show "store_ok d' \<and> snapshots d' = snapshots d @ [id r]
      \<and> map_sum Database id (row_to_snapshot_record (id r)) = Inr r"
    if "store_ok d" "insert_snapshot rep r d = (Inr (), d')" for d r d'
    using that(1) withinD [OF keeps_catalog_insertions(3) that(2)]
      map_err_statement_Inr [OF that(2) [unfolded insert_snapshot_def sql_insert_snapshots_def]]
    by (simp add: row_to_snapshot_record_def)
  show "d' = d" if "insert_snapshot rep r d = (Inl e, d')" for r d e d'
    using that unfolding insert_snapshot_def sql_insert_snapshots_def
    by (rule map_err_statement_Inl)
  show "get_snapshot_by_name n d = (row_answer (SnapshotNotFoundByName n)
      (\<lambda>w. map_sum Database id (row_to_snapshot_record w)) (\<lambda>w. snap_name w = n) (snapshots d), d)"
    for n d unfolding get_snapshot_by_name_def by (rule query_one_row)
  show "get_snapshot i d = (row_answer (SnapshotNotFound i)
      (\<lambda>w. map_sum Database id (row_to_snapshot_record w)) (\<lambda>w. snap_id w = i) (snapshots d), d)"
    for i d unfolding get_snapshot_def by (rule query_one_row)
  show "store_ok d' \<and> snapshots d' = delete_rows (\<lambda>w. snap_id w = i) (snapshots d)"
    if "store_ok d" "delete_snapshot i d = (Inr (), d')" for d i d'
    using that(1) withinD [OF keeps_catalog_deletions(3) that(2)]
      delete_affected [OF that(2) [unfolded delete_snapshot_def sql_delete_snapshots_def Let_def]]
    by simp
  have missing: "delete_snapshot i d = (Inl (SnapshotNotFound i), d)"
    if "i \<notin> snap_id ` set (snapshots d)" for i d
    using ids_filter_empty [OF that]
    by (simp add: delete_snapshot_def sql_delete_snapshots_def op_simps count_rows_def delete_rows_none)
  then show "delete_snapshot i d = (Inl (SnapshotNotFound i), d)"
    if "i \<notin> snap_id ` set (snapshots d)" for i d using that .
  show "d' = d" if run: "delete_snapshot i d = (Inl e, d')" for i d e d'
  proof -
    have "\<forall>r \<in> set (snapshots d). snap_id r \<noteq> i"
      using delete_affected [OF run [unfolded delete_snapshot_def sql_delete_snapshots_def Let_def]]
      by simp
    then show ?thesis using missing [of i d] run by auto
  qed
qed

interpretation image_catalog: named_catalog store_ok images img_id img_name image_row_of
  "\<lambda>w. map_sum Database id (row_to_image_record w)" ImageNotFound ImageNotFoundByName
  "insert_image rep" get_image_by_name delete_image get_image for rep
proof
  show "unique_on img_id (images d)" "unique_on img_name (images d)" if "store_ok d" for d
    using that by (simp_all add: store_ok_def catalogs_ok_def)
  show "store_ok d' \<and> images d' = images d @ [image_row_of r]
      \<and> map_sum Database id (row_to_image_record (image_row_of r)) = Inr r"
    if "store_ok d" "insert_image rep r d = (Inr (), d')" for d r d'
  proof -
    from that(2) obtain z where z: "try_i64 (img_size_bytes r) = Some z"
      and run: "map_err (already_exists (ImageAlreadyExists (img_name r)))
        (sql_insert_images rep (image_to_row r z)) d = (Inr (), d')"
      by (cases "try_i64 (img_size_bytes r)")
        (auto simp: insert_image_def bind_op_def lift_result_def)
    have "image_row_of r = image_to_row r z" using z by (simp add: image_row_of_def)
    then show ?thesis
      using that(1) withinD [OF keeps_catalog_insertions(4) that(2)] image_round_trip [OF z]
        map_err_statement_Inr [OF run [unfolded sql_insert_images_def]] by simp
  qed
  show "d' = d" if "insert_image rep r d = (Inl e, d')" for r d e d'
    using that unfolding insert_image_def sql_insert_images_def bind_op_def lift_result_def
    by (cases "try_i64 (img_size_bytes r)") (auto dest: map_err_statement_Inl)
  show "get_image_by_name n d = (row_answer (ImageNotFoundByName n)
      (\<lambda>w. map_sum Database id (row_to_image_record w)) (\<lambda>w. img_name w = n) (images d), d)"
    for n d unfolding get_image_by_name_def by (rule query_one_row)
  show "get_image i d = (row_answer (ImageNotFound i)
      (\<lambda>w. map_sum Database id (row_to_image_record w)) (\<lambda>w. img_id w = i) (images d), d)"
    for i d unfolding get_image_def by (rule query_one_row)
  show "store_ok d' \<and> images d' = delete_rows (\<lambda>w. img_id w = i) (images d)"
    if "store_ok d" "delete_image i d = (Inr (), d')" for d i d'
    using that(1) withinD [OF keeps_catalog_deletions(4) that(2)]
      delete_affected [OF that(2) [unfolded delete_image_def sql_delete_images_def Let_def]]
    by simp
  have missing: "delete_image i d = (Inl (ImageNotFound i), d)"
    if "i \<notin> img_id ` set (images d)" for i d
    using ids_filter_empty [OF that]
    by (simp add: delete_image_def sql_delete_images_def op_simps count_rows_def delete_rows_none)
  then show "delete_image i d = (Inl (ImageNotFound i), d)"
    if "i \<notin> img_id ` set (images d)" for i d using that .
  show "d' = d" if run: "delete_image i d = (Inl e, d')" for i d e d'
  proof -
    have "\<forall>r \<in> set (images d). img_id r \<noteq> i"
      using delete_affected [OF run [unfolded delete_image_def sql_delete_images_def Let_def]]
      by simp
    then show ?thesis using missing [of i d] run by auto
  qed
qed

interpretation secret_catalog: named_catalog store_ok secrets sec_id sec_name id
  "\<lambda>w. map_sum Database id (row_to_secret_record w)" SecretNotFound SecretNotFoundByName
  "insert_secret rep" get_secret_by_name delete_secret get_secret for rep
proof
  show "unique_on sec_id (secrets d)" "unique_on sec_name (secrets d)" if "store_ok d" for d
    using that by (simp_all add: store_ok_def catalogs_ok_def)
  show "store_ok d' \<and> secrets d' = secrets d @ [id r]
      \<and> map_sum Database id (row_to_secret_record (id r)) = Inr r"
    if "store_ok d" "insert_secret rep r d = (Inr (), d')" for d r d'
    using that(1) withinD [OF keeps_catalog_insertions(5) that(2)]
      map_err_statement_Inr [OF that(2) [unfolded insert_secret_def sql_insert_secrets_def]]
    by (simp add: row_to_secret_record_def)
  show "d' = d" if "insert_secret rep r d = (Inl e, d')" for r d e d'
    using that unfolding insert_secret_def sql_insert_secrets_def
    by (rule map_err_statement_Inl)
  show "get_secret_by_name n d = (row_answer (SecretNotFoundByName n)
      (\<lambda>w. map_sum Database id (row_to_secret_record w)) (\<lambda>w. sec_name w = n) (secrets d), d)"
    for n d unfolding get_secret_by_name_def by (rule query_one_row)
  show "get_secret i d = (row_answer (SecretNotFound i)
      (\<lambda>w. map_sum Database id (row_to_secret_record w)) (\<lambda>w. sec_id w = i) (secrets d), d)"
    for i d unfolding get_secret_def by (rule query_one_row)
  show "store_ok d' \<and> secrets d' = delete_rows (\<lambda>w. sec_id w = i) (secrets d)"
    if "store_ok d" "delete_secret i d = (Inr (), d')" for d i d'
    using that(1) withinD [OF keeps_catalog_deletions(5) that(2)]
      delete_affected [OF that(2) [unfolded delete_secret_def sql_delete_secrets_def Let_def]]
    by simp
  have missing: "delete_secret i d = (Inl (SecretNotFound i), d)"
    if "i \<notin> sec_id ` set (secrets d)" for i d
    using ids_filter_empty [OF that]
    by (simp add: delete_secret_def sql_delete_secrets_def op_simps count_rows_def delete_rows_none)
  then show "delete_secret i d = (Inl (SecretNotFound i), d)"
    if "i \<notin> sec_id ` set (secrets d)" for i d using that .
  show "d' = d" if run: "delete_secret i d = (Inl e, d')" for i d e d'
  proof -
    have "\<forall>r \<in> set (secrets d). sec_id r \<noteq> i"
      using delete_affected [OF run [unfolded delete_secret_def sql_delete_secrets_def Let_def]]
      by simp
    then show ?thesis using missing [of i d] run by auto
  qed
qed

subsection \<open>Volumes and their attachments\<close>

definition attached :: "string \<Rightarrow> db \<Rightarrow> bool" where
  "attached v d \<longleftrightarrow> (\<exists>r \<in> set (vms d). vm_volume r = Some v)"

lemma attached_iff_owner: "attached v d \<longleftrightarrow> (\<exists>n. volume_owner v d = Some n)"
  using volume_owner_None [of v d] by (auto simp: attached_def)

lemma delete_volume_cases:
  obtains (attached) m v where "v \<in> set (volumes d)" "vol_id v = i" "attached (vol_name v) d"
      "delete_volume rep i d = (Inl (Database (ConstraintViolation m)), d)"
  | (missing) "i \<notin> vol_id ` set (volumes d)" "delete_volume rep i d = (Inl (VolumeNotFound i), d)"
  | (gone) "i \<in> vol_id ` set (volumes d)"
      "\<And>v. v \<in> set (volumes d) \<Longrightarrow> vol_id v = i \<Longrightarrow> \<not> attached (vol_name v) d"
      "delete_volume rep i d =
        (Inr (), d\<lparr>volumes := delete_rows (\<lambda>r. vol_id r = i) (volumes d)\<rparr>)"
proof (cases "i \<in> vol_id ` set (volumes d)")
  case False
  note none = ids_filter_empty [OF False]
  have "delete_volume rep i d = (Inl (VolumeNotFound i), d)"
    using False unfolding delete_volume_def sql_delete_volumes_def statement_def
    by (auto simp: op_simps count_rows_def none delete_rows_none [OF none])
  with False show thesis by (rule missing)
next
  case True
  then have some: "count_rows (\<lambda>r. vol_id r = i) (volumes d) \<noteq> 0" by (auto simp: table_simps)
  show thesis
  proof (cases "\<exists>v \<in> set (volumes d). vol_id v = i \<and> attached (vol_name v) d")
    case True
    then obtain v where "v \<in> set (volumes d)" "vol_id v = i" "attached (vol_name v) d" by blast
    moreover from this have "delete_volume rep i d
        = (Inl (Database (ConstraintViolation (rep [''volume is attached'']))), d)"
      by (auto simp: delete_volume_def sql_delete_volumes_def statement_def op_simps attached_def)
    ultimately show thesis by (rule attached)
  next
    case False
    then have "delete_volume rep i d =
        (Inr (), d\<lparr>volumes := delete_rows (\<lambda>r. vol_id r = i) (volumes d)\<rparr>)"
      using some by (auto simp: delete_volume_def sql_delete_volumes_def statement_def op_simps
          attached_def)
    with True False show thesis by (intro gone) blast+
  qed
qed

interpretation volume_catalog: name_catalog store_ok volumes vol_id vol_name volume_row_of
  "\<lambda>w. map_sum Database id (row_to_volume_record w)" VolumeNotFound VolumeNotFoundByName
  "insert_volume rep" get_volume_by_name "delete_volume rep" for rep
proof
  show "unique_on vol_id (volumes d)" "unique_on vol_name (volumes d)" if "store_ok d" for d
    using that by (simp_all add: store_ok_def catalogs_ok_def)
  show "store_ok d' \<and> volumes d' = volumes d @ [volume_row_of r]
      \<and> map_sum Database id (row_to_volume_record (volume_row_of r)) = Inr r"
    if "store_ok d" "insert_volume rep r d = (Inr (), d')" for d r d'
  proof -
    from that(2) obtain z where z: "try_i64 (vol_size_bytes r) = Some z"
      and run: "map_err (already_exists (VolumeAlreadyExists (vol_name r)))
        (sql_insert_volumes rep (volume_to_row r z)) d = (Inr (), d')"
      by (cases "try_i64 (vol_size_bytes r)")
        (auto simp: insert_volume_def bind_op_def lift_result_def)
    have "volume_row_of r = volume_to_row r z" using z by (simp add: volume_row_of_def)
    then show ?thesis
      using that(1) withinD [OF keeps_catalog_insertions(6) that(2)] volume_round_trip [OF z]
        map_err_statement_Inr [OF run [unfolded sql_insert_volumes_def]] by simp
  qed
  show "d' = d" if "insert_volume rep r d = (Inl e, d')" for r d e d'
    using that unfolding insert_volume_def sql_insert_volumes_def bind_op_def lift_result_def
    by (cases "try_i64 (vol_size_bytes r)") (auto dest: map_err_statement_Inl)
  show "get_volume_by_name n d = (row_answer (VolumeNotFoundByName n)
      (\<lambda>w. map_sum Database id (row_to_volume_record w)) (\<lambda>w. vol_name w = n) (volumes d), d)"
    for n d unfolding get_volume_by_name_def by (rule query_one_row)
  show "store_ok d' \<and> volumes d' = delete_rows (\<lambda>w. vol_id w = i) (volumes d)"
    if "store_ok d" "delete_volume rep i d = (Inr (), d')" for d i d'
    using that(1) withinD [OF keeps_catalog_deletions(6) that(2)]
    by (cases rule: delete_volume_cases [of d i rep]) (use that(2) in auto)
  show "d' = d" if "delete_volume rep i d = (Inl e, d')" for i d e d'
    by (cases rule: delete_volume_cases [of d i rep]) (use that in auto)
  show "delete_volume rep i d = (Inl (VolumeNotFound i), d)" if "i \<notin> vol_id ` set (volumes d)" for i d
    by (cases rule: delete_volume_cases [of d i rep]) (use that in auto)
qed

text \<open>Removing a volume by name, all cases.\<close>

lemma delete_unattached_volume_refines:
  assumes ok: "store_ok d"
  shows "delete_unattached_volume_by_name rep n d =
    (case find (\<lambda>r. vol_name r = n) (volumes d) of
       None \<Rightarrow> (Inl (VolumeNotFoundByName n), d)
     | Some row \<Rightarrow>
         (case row_to_volume_record row of
            Inl e \<Rightarrow> (Inl (Database e), d)
          | Inr record \<Rightarrow>
              (case volume_owner n d of
                 Some vm \<Rightarrow> (Inl (VolumeAttached n vm), d)
               | None \<Rightarrow> (Inr record,
                   d\<lparr>volumes := delete_rows (\<lambda>r. vol_id r = vol_id row) (volumes d)\<rparr>))))"
proof (cases "find (\<lambda>r. vol_name r = n) (volumes d)")
  case None
  then show ?thesis by (simp add: delete_unattached_volume_by_name_def op_simps)
next
  case (Some row)
  have u: "unique_on vol_id (volumes d)" using ok by (simp add: store_ok_def catalogs_ok_def)
  have row: "row \<in> set (volumes d)" "vol_name row = n" using find_SomeD [OF Some] by auto
  show ?thesis
  proof (cases "row_to_volume_record row")
    case (Inl e)
    then show ?thesis using Some by (simp add: delete_unattached_volume_by_name_def op_simps)
  next
    case (Inr rec)
    then have i: "vol_id rec = vol_id row"
      by (auto simp: row_to_volume_record_def and_then_def split: sum.splits)
    show ?thesis
    proof (cases "volume_owner n d")
      case None
      then have "\<not> (\<exists>v \<in> set (volumes d). vol_id v = vol_id row
          \<and> (\<exists>r \<in> set (vms d). vm_volume r = Some (vol_name v)))"
        using row unique_onD [OF u row(1)] unfolding volume_owner_None by metis
      then have "sql_delete_volumes rep (\<lambda>r. vol_id r = vol_id row) d = (Inr (count_rows
          (\<lambda>r. vol_id r = vol_id row) (volumes d)),
          d\<lparr>volumes := delete_rows (\<lambda>r. vol_id r = vol_id row) (volumes d)\<rparr>)"
        by (simp add: sql_delete_volumes_def statement_def)
      then show ?thesis using Some Inr None i
        by (simp add: delete_unattached_volume_by_name_def op_simps)
    next
      case (Some vm)
      then show ?thesis using \<open>find (\<lambda>r. vol_name r = n) (volumes d) = Some row\<close> Inr
        by (simp add: delete_unattached_volume_by_name_def op_simps)
    qed
  qed
qed

end
