(* ===== verification/Pools.thy ===== *)
theory Pools
  imports Catalogs Vm_Contracts
begin

text \<open>
  The warm pools of \<open>crates/husker-state/src/lib.rs\<close>: a pool owns one suspended template VM.
  The store refuses every operation that would resume, delete or retire a template, and
  retires a pool together with its template in one transaction.
\<close>

definition pool_to_row :: "PoolRecord \<Rightarrow> pool_row" where
  "pool_to_row r =
    \<lparr>pool_id = pool_id r, pool_name = pool_name r, pool_template_vm_id = pool_template_vm_id r,
     pool_rootfs_path = pool_rootfs_path r, pool_kernel_path = pool_kernel_path r,
     pool_initrd_path = pool_initrd_path r, pool_vcpu_count = map_option uint (pool_vcpu_count r),
     pool_mem_size_mib = map_option uint (pool_mem_size_mib r),
     pool_created_at = pool_created_at r, pool_updated_at = pool_updated_at r\<rparr>"

definition row_to_pool_record :: "pool_row \<Rightarrow> sql_error + PoolRecord" where
  "row_to_pool_record row =
    and_then (traverse_option (get_u32 6) (pool_vcpu_count row)) (\<lambda>vcpus.
    and_then (traverse_option (get_u32 7) (pool_mem_size_mib row)) (\<lambda>mem.
    Inr \<lparr>pool_id = pool_id row, pool_name = pool_name row,
      pool_template_vm_id = pool_template_vm_id row, pool_rootfs_path = pool_rootfs_path row,
      pool_kernel_path = pool_kernel_path row, pool_initrd_path = pool_initrd_path row,
      pool_vcpu_count = vcpus, pool_mem_size_mib = mem, pool_created_at = pool_created_at row,
      pool_updated_at = pool_updated_at row\<rparr>))"

lemma pool_round_trip: "row_to_pool_record (pool_to_row r) = Inr r"
  by (cases r) (simp add: row_to_pool_record_def pool_to_row_def)

definition template_owner :: "Uuid \<Rightarrow> db \<Rightarrow> string option" where
  "template_owner i d = map_option pool_name (find (\<lambda>p. pool_template_vm_id p = i) (pools d))"

definition insert_pool_error :: "PoolRecord \<Rightarrow> sql_error \<Rightarrow> (db, StateError, unit) op" where
  "insert_pool_error record error =
     (case error of
        ConstraintViolation message \<Rightarrow>
          if contains message ''pools.name'' then err (PoolAlreadyExists (pool_name record))
          else if contains message ''pools.template_vm_id'' then
            bind_op (query (template_owner (pool_template_vm_id record))) (\<lambda>owner.
            bind_op (db_val (ok_or QueryReturnedNoRows owner)) (\<lambda>pool.
            err (PoolTemplateOwned (pool_template_vm_id record) pool)))
          else if contains message ''pool template is unavailable or not suspended''
            then err (PoolTemplateUnavailable (pool_name record) (pool_template_vm_id record))
          else err (Database error)
      | _ \<Rightarrow> err (Database error))"

definition insert_pool :: "reporter \<Rightarrow> PoolRecord \<Rightarrow> (db, StateError, unit) op" where
  "insert_pool rep record =
     bind_op (query (\<lambda>d. \<exists>p \<in> set (pools d). pool_name p = pool_name record)) (\<lambda>name_exists.
     if name_exists then err (PoolAlreadyExists (pool_name record))
     else
       bind_op (query (\<lambda>d. map_option vm_state
         (find (\<lambda>r. vm_id r = pool_template_vm_id record) (vms d)))) (\<lambda>template_state.
       if template_state \<noteq> Some ''suspended''
         then err (PoolTemplateUnavailable (pool_name record) (pool_template_vm_id record))
       else
         bind_op (query (template_owner (pool_template_vm_id record))) (\<lambda>owner.
         case owner of Some pool \<Rightarrow> err (PoolTemplateOwned (pool_template_vm_id record) pool)
         | None \<Rightarrow> or_else (sql_insert_pools rep (pool_to_row record)) (insert_pool_error record))))"

definition get_pool_by_name :: "string \<Rightarrow> (db, StateError, PoolRecord) op" where
  "get_pool_by_name n = bind_op (query (\<lambda>d. find (\<lambda>r. pool_name r = n) (pools d)))
     (one_row (PoolNotFoundByName n) row_to_pool_record)"

definition get_pool_by_template_vm_id :: "Uuid \<Rightarrow> (db, StateError, PoolRecord option) op" where
  "get_pool_by_template_vm_id i =
     bind_op (query (\<lambda>d. find (\<lambda>p. pool_template_vm_id p = i) (pools d))) (\<lambda>row.
     db_val (traverse_option row_to_pool_record row))"

definition list_pools :: "(DateTime \<Rightarrow> string) \<Rightarrow> (db, StateError, PoolRecord list) op" where
  "list_pools rfc3339 =
     bind_op (query (\<lambda>d. sort_key (\<lambda>r. rfc3339 (pool_created_at r)) (pools d))) (\<lambda>rows.
     db_val (collect_results (map row_to_pool_record rows)))"

definition delete_pool_by_name :: "string \<Rightarrow> (db, StateError, unit) op" where
  "delete_pool_by_name n =
     bind_op (db_op (sql_delete_pools (\<lambda>r. pool_name r = n))) (affected (PoolNotFoundByName n))"

definition retire_pool_template :: "reporter \<Rightarrow> Uuid \<Rightarrow> Uuid \<Rightarrow> (db, StateError, unit) op" where
  "retire_pool_template rep pool template = transaction (
     bind_op (query (\<lambda>d. find (\<lambda>p. pool_id p = pool) (pools d))) (\<lambda>row.
     bind_op (one_row (PoolNotFound pool) (\<lambda>p. Inr (pool_template_vm_id p)) row) (\<lambda>stored_template.
     if stored_template \<noteq> template then err (PoolTemplateMismatch pool template)
     else
       bind_op (query (\<lambda>d. find (\<lambda>r. vm_id r = template) (vms d))) (\<lambda>vm.
       bind_op (one_row (VmNotFound template) (\<lambda>r. get_u32 0 (vm_vsock_cid r)) vm) (\<lambda>cid.
       bind_op (db_op (sql_insert_or_ignore_freed_cids (uint cid))) (\<lambda>_.
       bind_op (db_op (sql_delete_pools (\<lambda>p. pool_id p = pool))) (\<lambda>_.
       bind_op (db_op (sql_delete_vms rep (\<lambda>r. vm_id r = template))) (\<lambda>_. ok ()))))))))"

subsection \<open>Every operation keeps the schema invariant\<close>

lemma keeps_insert_pool_error: "keeps store_ok (insert_pool_error r e)"
  unfolding insert_pool_error_def by (cases e) (auto intro!: within_intros)

lemma keeps_pool_operations [keeps_store_ok]:
  "keeps store_ok (insert_pool rep r)"
  "keeps store_ok (delete_pool_by_name n)"
  "keeps store_ok (retire_pool_template rep p i)"
  unfolding insert_pool_def delete_pool_by_name_def retire_pool_template_def
  by (intro within_intros keeps_store_ok keeps_insert_pool_error preorder_keeps)+

subsection \<open>Insertion\<close>

lemma suspended_vm_iff_found:
  assumes "unique_on vm_id t"
  shows "suspended_vm t i \<longleftrightarrow>
    map_option vm_state (find (\<lambda>r. vm_id r = i) t) = Some ''suspended''"
  using find_Some_iff_unique [OF assms, of i] by (auto simp: suspended_vm_def)

lemma insert_pool_refines:
  assumes ok: "store_ok d" and rep: "reports_violated rep"
  shows "insert_pool rep r d =
    (if \<exists>p \<in> set (pools d). pool_name p = pool_name r
       then (Inl (PoolAlreadyExists (pool_name r)), d)
     else if \<not> suspended_vm (vms d) (pool_template_vm_id r)
       then (Inl (PoolTemplateUnavailable (pool_name r) (pool_template_vm_id r)), d)
     else case template_owner (pool_template_vm_id r) d of
         Some pool \<Rightarrow> (Inl (PoolTemplateOwned (pool_template_vm_id r) pool), d)
       | None \<Rightarrow>
           if \<exists>p \<in> set (pools d). pool_id p = pool_id r
           then (Inl (Database (ConstraintViolation ''UNIQUE constraint failed: pools.id'')), d)
           else (Inr (), d\<lparr>pools := pools d @ [pool_to_row r]\<rparr>))"
proof -
  from ok have u: "unique_on vm_id (vms d)" "unique_on pool_id (pools d)" "unique_on pool_name (pools d)"
    "unique_on pool_template_vm_id (pools d)"
    by (simp_all add: store_ok_def vms_ok_def pools_ok_def)
  have row: "pool_id (pool_to_row r) = pool_id r" "pool_name (pool_to_row r) = pool_name r"
    "pool_template_vm_id (pool_to_row r) = pool_template_vm_id r"
    by (simp_all add: pool_to_row_def)
  have step: "insert_pool rep r d = or_else (sql_insert_pools rep (pool_to_row r)) (insert_pool_error r) d"
    if "\<not> (\<exists>p \<in> set (pools d). pool_name p = pool_name r)"
      "suspended_vm (vms d) (pool_template_vm_id r)" "template_owner (pool_template_vm_id r) d = None"
    using that by (auto simp: insert_pool_def op_simps suspended_vm_iff_found [OF u(1)])
  have ins: "sql_insert_pools rep (pool_to_row r) d =
      (if \<exists>p \<in> set (pools d). pool_id p = pool_id r
       then (Inl (ConstraintViolation ''UNIQUE constraint failed: pools.id''), d)
       else (Inr (), d\<lparr>pools := pools d @ [pool_to_row r]\<rparr>))"
    if "\<not> (\<exists>p \<in> set (pools d). pool_name p = pool_name r)"
      "suspended_vm (vms d) (pool_template_vm_id r)" "template_owner (pool_template_vm_id r) d = None"
  proof -
    have "\<forall>p \<in> set (pools d). pool_template_vm_id p \<noteq> pool_template_vm_id r"
      using that(3) by (auto simp: template_owner_def find_None_iff)
    then have "unique_on pool_template_vm_id (pools d @ [pool_to_row r])"
      "unique_on pool_name (pools d @ [pool_to_row r])"
      using u that(1) by (auto simp: unique_on_append row)
    moreover have "unique_on pool_id (pools d @ [pool_to_row r])
        \<longleftrightarrow> \<not> (\<exists>p \<in> set (pools d). pool_id p = pool_id r)"
      using u(2) by (auto simp: unique_on_append row)
    moreover have "rep [m] = m" for m
      using rep [unfolded reports_violated_def, rule_format, of "[m]"] by simp
    ultimately show ?thesis
      using that(2) by (simp add: sql_insert_pools_def statement_def row)
  qed
  show ?thesis
  proof (cases "(\<exists>p \<in> set (pools d). pool_name p = pool_name r)
      \<or> \<not> suspended_vm (vms d) (pool_template_vm_id r)
      \<or> (\<exists>x. template_owner (pool_template_vm_id r) d = Some x)")
    case True
    then show ?thesis
      by (auto simp: insert_pool_def op_simps suspended_vm_iff_found [OF u(1)])
  next
    case False
    then show ?thesis
      using step ins by (auto simp: or_else_def insert_pool_error_def op_simps)
  qed
qed

subsection \<open>Templates are protected\<close>

lemma template_exists:
  assumes "store_ok d" "has_template (pools d) i"
  shows "\<exists>r \<in> set (vms d). vm_id r = i"
proof -
  from assms have "suspended_vm (vms d) i" by (auto simp: store_ok_def pools_ok_def has_template_def)
  then show ?thesis by (auto simp: suspended_vm_def)
qed

lemma template_state_update_refused:
  assumes ok: "store_ok d" and t: "has_template (pools d) i"
    and cols: "''state'' \<in> set cols" and f: "\<And>r. vm_state (f r) \<noteq> ''suspended''"
  shows "\<exists>m. update_vm rep cols i f d = (Inl (Database (ConstraintViolation m)), d)"
proof -
  from template_exists [OF ok t] obtain r where r: "r \<in> set (vms d)" "vm_id r = i" by blast
  let ?tr = "concat (map (\<lambda>r. vm_update_triggers cols d r (f r)) (filter (\<lambda>r. vm_id r = i) (vms d)))"
  have "raised (vm_update_triggers cols d r (f r)) \<noteq> []"
    using t cols f r(2) by (simp add: vm_update_triggers_def)
  then have "raised ?tr \<noteq> []" using r by auto
  then show ?thesis
    unfolding update_vm_def sql_update_vms_def statement_def by (simp only: op_simps if_True) simp
qed

lemma template_owner_Some:
  assumes "has_template (pools d) i"
  shows "\<exists>p. find (\<lambda>p. pool_template_vm_id p = i) (pools d) = Some p"
  using assms by (cases "find (\<lambda>p. pool_template_vm_id p = i) (pools d)")
    (auto simp: has_template_def find_None_iff)

lemma template_retirement_refused:
  assumes "has_template (pools d) i"
  shows "\<exists>n. retire_vm rep i d = (Inl (PoolTemplateOwned i n), d)"
  using template_owner_Some [OF assms] by (auto simp: retire_vm_def op_simps)

lemma template_deletion_refused:
  assumes "store_ok d" "has_template (pools d) i"
  shows "\<exists>m. delete_vm rep i d = (Inl (Database (ConstraintViolation m)), d)"
proof (cases rule: delete_vm_cases [of i d rep])
  case missing
  with template_exists [OF assms] show ?thesis by blast
qed (use assms in auto)

text \<open>
  C31: A suspended VM that serves as a pool's template cannot be taken away: while the pool
  exists, no operation resumes it, stops it, gives it another state, deletes it or retires it.
  Each such call fails, leaves the store as it was, and \<open>retire_vm\<close> names the pool.
\<close>

theorem pool_template_protected:
  assumes ok: "store_ok d" and pool: "p \<in> set (pools d)"
  defines "i \<equiv> pool_template_vm_id p"
  shows "(st \<noteq> Suspended \<longrightarrow>
      (\<exists>m. update_vm_state rep now i st d = (Inl (Database (ConstraintViolation m)), d))
      \<and> (\<exists>m. update_vm_runtime rep now i st pid d = (Inl (Database (ConstraintViolation m)), d)))
    \<and> (\<exists>m. mark_vm_stopped rep now i d = (Inl (Database (ConstraintViolation m)), d))
    \<and> (\<exists>m. delete_vm rep i d = (Inl (Database (ConstraintViolation m)), d))
    \<and> retire_vm rep i d = (Inl (PoolTemplateOwned i (pool_name p)), d)"
proof -
  have t: "has_template (pools d) i" using pool by (auto simp: has_template_def i_def)
  have u: "unique_on pool_template_vm_id (pools d)" using ok by (simp add: store_ok_def pools_ok_def)
  have "find (\<lambda>q. pool_template_vm_id q = i) (pools d) = Some p"
    using find_Some_iff_unique [OF u] pool by (simp add: i_def)
  then have retire: "retire_vm rep i d = (Inl (PoolTemplateOwned i (pool_name p)), d)"
    by (simp add: retire_vm_def op_simps)
  have st: "st \<noteq> Suspended \<Longrightarrow> lifecycle_as_str st \<noteq> ''suspended''" by (cases st) simp_all
  show ?thesis
    unfolding update_vm_state_def update_vm_runtime_def mark_vm_stopped_def
    using retire template_deletion_refused [OF ok t, of rep] st
    by (intro conjI impI template_state_update_refused [OF ok t]) simp_all
qed

definition sample_template :: vm_row where
  "sample_template = (vm_to_row sample_vm)\<lparr>vm_state := ''suspended'', vm_pid := None\<rparr>"

definition sample_pool :: PoolRecord where
  "sample_pool = \<lparr>pool_id = 21, pool_name = ''warm'', pool_template_vm_id = 7,
     pool_rootfs_path = ''/r'', pool_kernel_path = ''/k'', pool_initrd_path = None,
     pool_vcpu_count = Some 1, pool_mem_size_mib = Some 256, pool_created_at = 0, pool_updated_at = 0\<rparr>"

definition template_db :: db where
  "template_db = sample_db\<lparr>vms := [sample_template]\<rparr>"

definition pool_db :: db where
  "pool_db = template_db\<lparr>pools := [pool_to_row sample_pool]\<rparr>"

lemma sample_suspend: "update_vm_runtime rep 0 7 Suspended None sample_db = (Inr (), template_db)"
proof -
  have "sql_update_vms rep [''state'', ''pid'', ''updated_at''] (\<lambda>r. vm_id r = 7)
      (\<lambda>r. r\<lparr>vm_state := lifecycle_as_str Suspended, vm_pid := map_option uint (None :: u32 option),
        vm_updated_at := 0\<rparr>) sample_db = (Inr 1, template_db)"
    by (subst sql_update_vms_passes [OF sample_db_ok])
      (simp_all add: key_frame_def ordinal_key_def vm_update_triggers_def known_states_def
        count_rows_def update_rows_def template_db_def sample_template_def vm_to_row_def sample_vm_def
        split: option.splits)
  then show ?thesis by (simp add: update_vm_runtime_def update_vm_def op_simps)
qed

lemma template_db_ok: "store_ok template_db"
  using withinD [OF keeps_vm_updates(2) sample_suspend [of hd]] sample_db_ok by blast

lemma sample_pool_insert: "insert_pool hd sample_pool template_db = (Inr (), pool_db)"
  unfolding insert_pool_refines [OF template_db_ok reports_violated_hd]
  by (simp add: template_db_def pool_db_def suspended_vm_def sample_template_def sample_pool_def
      template_owner_def)

lemma pool_db_ok: "store_ok pool_db"
  using withinD [OF keeps_pool_operations(1) sample_pool_insert] template_db_ok by blast

theorem pool_template_protected_witness:
  "retire_vm hd 7 pool_db = (Inl (PoolTemplateOwned 7 ''warm''), pool_db)
    \<and> (\<exists>m. mark_vm_stopped hd 5 7 pool_db = (Inl (Database (ConstraintViolation m)), pool_db))"
  using pool_template_protected [OF pool_db_ok, of "pool_to_row sample_pool" Running hd 5 None]
  by (simp add: pool_db_def pool_to_row_def sample_pool_def)

subsection \<open>Retiring a pool\<close>

lemma retire_pool_template_ok:
  assumes run: "retire_pool_template rep pool i d = (Inr (), d')"
  obtains p row where "p \<in> set (pools d)" "pool_id p = pool" "pool_template_vm_id p = i"
    "row \<in> set (vms d)" "vm_id row = i"
    "d' = d\<lparr>freed_cids := (if vm_vsock_cid row \<in> set (freed_cids d) then freed_cids d
                else freed_cids d @ [vm_vsock_cid row]),
         pools := delete_rows (\<lambda>p. pool_id p = pool) (pools d),
         vms := delete_rows (\<lambda>r. vm_id r = i) (vms d),
         port_forwards := delete_rows (\<lambda>q. pf_vm_id q \<in> {i}) (port_forwards d),
         expirations := delete_rows (\<lambda>e. exp_vm_id e \<in> {i}) (expirations d)\<rparr>"
proof -
  from run obtain p where p: "find (\<lambda>p. pool_id p = pool) (pools d) = Some p"
    by (cases "find (\<lambda>p. pool_id p = pool) (pools d)")
      (auto simp: retire_pool_template_def op_simps)
  with run have t: "pool_template_vm_id p = i"
    by (auto simp: retire_pool_template_def op_simps split: if_splits)
  from run p t obtain row where row: "find (\<lambda>r. vm_id r = i) (vms d) = Some row"
    by (cases "find (\<lambda>r. vm_id r = i) (vms d)") (auto simp: retire_pool_template_def op_simps)
  from run p t row obtain cid where cid: "try_u32 (vm_vsock_cid row) = Some cid"
    by (cases "try_u32 (vm_vsock_cid row)")
      (auto simp: retire_pool_template_def op_simps get_u32_def)
  have mem: "row \<in> set (vms d)" "vm_id row = i" "p \<in> set (pools d)" "pool_id p = pool"
    using find_SomeD [OF row] find_SomeD [OF p] by auto
  then have gone: "vm_id ` set (filter (\<lambda>r. vm_id r = i) (vms d)) = {i}" by auto
  let ?freed = "if vm_vsock_cid row \<in> set (freed_cids d) then freed_cids d
    else freed_cids d @ [vm_vsock_cid row]"
  let ?d1 = "d\<lparr>freed_cids := ?freed, pools := delete_rows (\<lambda>p. pool_id p = pool) (pools d)\<rparr>"
  have ins: "sql_insert_or_ignore_freed_cids (uint cid) d = (Inr (), d\<lparr>freed_cids := ?freed\<rparr>)"
    using try_u32_SomeD [OF cid] by (simp add: sql_insert_or_ignore_freed_cids_def)
  obtain y d2 where del: "sql_delete_vms rep (\<lambda>r. vm_id r = i) ?d1 = (y, d2)" by fastforce
  have "retire_pool_template rep pool i d = (case y of Inl e \<Rightarrow> (Inl (Database e), d) | Inr _ \<Rightarrow> (Inr (), d2))"
    using p t row cid ins del
    by (simp add: retire_pool_template_def op_simps get_u32_def sql_delete_pools_def split: sum.splits)
  then obtain w where y: "y = Inr w" "d2 = d'" using run by (cases y) auto
  have "d' = ?d1\<lparr>vms := delete_rows (\<lambda>r. vm_id r = i) (vms d),
        port_forwards := delete_rows (\<lambda>q. pf_vm_id q \<in> {i}) (port_forwards d),
        expirations := delete_rows (\<lambda>e. exp_vm_id e \<in> {i}) (expirations d)\<rparr>"
    using del unfolding y sql_delete_vms_def statement_Inr Let_def
    by (simp add: gone del: set_filter)
  then show thesis using that [of p row] mem t by simp
qed


text \<open>
  C32: \<open>retire_pool_template\<close> is all or nothing: it either changes nothing, or it removes
  exactly the pool and the template that pool owns, together with what hangs off the
  template, and returns the template's CID to the allocator.
\<close>

theorem retire_pool_template_contract:
  assumes ok: "store_ok d" and run: "retire_pool_template rep pool i d = (x, d')"
  shows "(\<forall>e. x = Inl e \<longrightarrow> d' = d)
    \<and> (x = Inr () \<longrightarrow>
        (\<exists>p \<in> set (pools d). pool_id p = pool \<and> pool_template_vm_id p = i)
        \<and> pools d' = filter (\<lambda>p. pool_id p \<noteq> pool) (pools d)
        \<and> vms d' = filter (\<lambda>r. vm_id r \<noteq> i) (vms d)
        \<and> (\<exists>row \<in> set (vms d). vm_id row = i
              \<and> set (freed_cids d') = insert (vm_vsock_cid row) (set (freed_cids d)))
        \<and> (\<forall>p \<in> set (port_forwards d'). pf_vm_id p \<noteq> i))"
proof (cases x)
  case (Inl e)
  have "all_or_nothing (retire_pool_template rep pool i)"
    unfolding retire_pool_template_def by (rule transaction_all_or_nothing)
  then show ?thesis using run Inl unfolding all_or_nothing_def by auto
next
  case (Inr u)
  then have run': "retire_pool_template rep pool i d = (Inr (), d')" using run by simp
  obtain p row where p: "p \<in> set (pools d)" "pool_id p = pool" "pool_template_vm_id p = i"
    and row: "row \<in> set (vms d)" "vm_id row = i"
    and d': "d' = d\<lparr>freed_cids := (if vm_vsock_cid row \<in> set (freed_cids d) then freed_cids d
                else freed_cids d @ [vm_vsock_cid row]),
         pools := delete_rows (\<lambda>p. pool_id p = pool) (pools d),
         vms := delete_rows (\<lambda>r. vm_id r = i) (vms d),
         port_forwards := delete_rows (\<lambda>q. pf_vm_id q \<in> {i}) (port_forwards d),
         expirations := delete_rows (\<lambda>e. exp_vm_id e \<in> {i}) (expirations d)\<rparr>"
    by (rule retire_pool_template_ok [OF run'])
  show ?thesis
    unfolding d' using Inr p row by (auto simp: delete_rows_def)
qed

theorem retire_pool_template_contract_witness:
  "vms (snd (retire_pool_template hd 21 7 pool_db)) = []
    \<and> pools (snd (retire_pool_template hd 21 7 pool_db)) = []"
proof -
  have "fst (retire_pool_template hd 21 7 pool_db) = Inr ()"
    by (simp add: retire_pool_template_def op_simps pool_db_def pool_to_row_def sample_pool_def
        template_db_def sample_template_def get_u32_def try_u32_def
        sql_insert_or_ignore_freed_cids_def sql_delete_pools_def sql_delete_vms_def statement_def
        has_template_def delete_rows_def Let_def)
  then have "retire_pool_template hd 21 7 pool_db
      = (Inr (), snd (retire_pool_template hd 21 7 pool_db))"
    by (metis prod.collapse)
  from retire_pool_template_contract [OF pool_db_ok this] show ?thesis
    by (simp add: pool_db_def template_db_def sample_template_def pool_to_row_def sample_pool_def)
qed

end
