(* ===== verification/Leases.thy ===== *)
theory Leases
  imports Pools
begin

text \<open>
  Host-resource leases (\<open>crates/husker-state/src/lib.rs\<close>) and their boot evidence
  (\<open>boot_epoch.rs\<close>). A creation attempt leases a CID before any storage or backend work. The
  lease is entered once, for one VM generation, and ends either by becoming the VM record or
  by being released, which for an entered lease takes a destruction receipt or the proof that
  the host rebooted since.

  \<open>identity\<close> is what \<open>boot_epoch::current()\<close> reads from the operating system, \<open>new_id\<close> a
  \<open>Uuid::new_v4()\<close> and \<open>now\<close> a \<open>Utc::now()\<close>.
\<close>

record HostBoot =
  host :: Uuid
  boot :: Uuid

subsection \<open>Boot evidence\<close>

definition epoch_of :: "Uuid \<Rightarrow> HostBoot \<Rightarrow> boot_epoch_row" where
  "epoch_of lease identity = \<lparr>epoch_lease_id = lease, epoch_host_id = host identity,
     epoch_boot_id = boot identity, epoch_confirmed = False\<rparr>"

definition observe_on :: "reporter \<Rightarrow> HostBoot option \<Rightarrow> Uuid \<Rightarrow> (db, StateError, unit) op" where
  "observe_on rep current lease =
     (case current of None \<Rightarrow> ok ()
      | Some identity \<Rightarrow> db_op (sql_insert_or_ignore_boot_epochs rep (epoch_of lease identity)))"

definition find_epoch :: "Uuid \<Rightarrow> db \<Rightarrow> boot_epoch_row option" where
  "find_epoch lease d = find (\<lambda>e. epoch_lease_id e = lease) (boot_epochs d)"

definition prepare_entry_on :: "reporter \<Rightarrow> Uuid \<Rightarrow> HostBoot option \<Rightarrow> (db, StateError, unit) op" where
  "prepare_entry_on rep lease current =
     bind_op (query (find_epoch lease)) (\<lambda>baseline.
     bind_op
       (case baseline of None \<Rightarrow> ok ()
        | Some e \<Rightarrow>
            if epoch_confirmed e then err (HostResourceLeaseMismatch lease)
            else (case current of None \<Rightarrow> ok ()
                  | Some identity \<Rightarrow>
                      if epoch_host_id e \<noteq> host identity \<or> epoch_boot_id e \<noteq> boot identity
                      then err (HostResourceLeaseMismatch lease) else ok ()))
     (\<lambda>_.
     case (current, baseline) of
       (None, Some _) \<Rightarrow>
         bind_op (db_op (sql_delete_boot_epochs rep (\<lambda>e. epoch_lease_id e = lease))) (\<lambda>_. ok ())
     | (Some identity, None) \<Rightarrow> db_op (sql_insert_boot_epochs rep (epoch_of lease identity))
     | _ \<Rightarrow> ok ()))"

text \<open>
  \<open>INSERT OR IGNORE ... SELECT\<close> inserts the selected rows one after the other, as one
  statement.
\<close>

definition observe_legacy_lease_boots :: "reporter \<Rightarrow> HostBoot option \<Rightarrow> (db, StateError, unit) op" where
  "observe_legacy_lease_boots rep current =
     (case current of None \<Rightarrow> ok ()
      | Some identity \<Rightarrow>
          bind_op (query (\<lambda>d. filter (\<lambda>l. find_epoch (lease_id l) d = None) (leases d))) (\<lambda>missing.
          if missing = [] then ok ()
          else transaction (for_each
            (\<lambda>l. db_op (sql_insert_or_ignore_boot_epochs rep (epoch_of (lease_id l) identity)))
            missing)))"

definition confirm_lease_reboot_on ::
  "reporter \<Rightarrow> Uuid \<Rightarrow> HostBoot option \<Rightarrow> (db, StateError, bool) op" where
  "confirm_lease_reboot_on rep lease current =
     bind_op (query (\<lambda>d. find (\<lambda>e. epoch_lease_id e = lease \<and>
         (\<exists>l \<in> set (leases d). lease_id l = epoch_lease_id e \<and> lease_backend_entered l))
       (boot_epochs d))) (\<lambda>baseline.
     case baseline of None \<Rightarrow> ok False
     | Some e \<Rightarrow>
         if epoch_host_id e = 0 \<or> epoch_boot_id e = 0
           then err (CorruptData ''creation_lease_boot_epochs'')
         else if epoch_confirmed e then ok True
         else (case current of None \<Rightarrow> ok False
               | Some identity \<Rightarrow>
                   if host identity \<noteq> epoch_host_id e \<or> boot identity = epoch_boot_id e
                      \<or> boot identity = 0
                   then ok False
                   else
                     bind_op (query (\<lambda>d. \<exists>l \<in> set (leases d). lease_id l = lease \<and> lease_backend_entered l))
                       (\<lambda>entered.
                     bind_op (db_op (sql_update_boot_epochs rep
                         (\<lambda>r. epoch_lease_id r = lease \<and> epoch_host_id r = epoch_host_id e
                            \<and> epoch_boot_id r = epoch_boot_id e \<and> entered)
                         (\<lambda>r. r\<lparr>epoch_confirmed := True\<rparr>)))
                       (\<lambda>n. ok (n = 1)))))"

definition confirm_host_resource_lease_reboot ::
  "reporter \<Rightarrow> HostBoot option \<Rightarrow> Uuid \<Rightarrow> (db, StateError, bool) op" where
  "confirm_host_resource_lease_reboot rep current lease = confirm_lease_reboot_on rep lease current"

definition confirmed_on :: "Uuid \<Rightarrow> (db, StateError, bool) op" where
  "confirmed_on lease = query (\<lambda>d. reboot_confirmed (boot_epochs d) lease)"

subsection \<open>Beginning a lease\<close>

text \<open>The allocation inside \<open>insert_host_resource_lease\<close>: lowest freed CID first.\<close>

definition lease_cid :: "(db, StateError, u32) op" where
  "lease_cid =
     bind_op (query lowest_freed) (\<lambda>lowest.
     bind_op (db_val (traverse_option (get_u32 0) lowest)) (\<lambda>freed.
     case freed of
       Some cid \<Rightarrow> bind_op (db_op (sql_delete_freed_cids (\<lambda>c. c = uint cid))) (\<lambda>_. ok cid)
     | None \<Rightarrow>
         bind_op (query next_cid) (\<lambda>n.
         bind_op (db_val (get_u32 0 n)) (\<lambda>cid.
         bind_op (db_op (sql_update_next_cid (\<lambda>n. n + 1))) (\<lambda>_. ok cid)))))"

definition lease_insert_error :: "string \<Rightarrow> sql_error \<Rightarrow> StateError" where
  "lease_insert_error name error =
     (case error of
        ConstraintViolation message \<Rightarrow>
          if contains message ''host_resource_leases.vm_name'' then HostResourcesLeased name
          else Database error
      | _ \<Rightarrow> Database error)"

definition insert_host_resource_lease ::
  "reporter \<Rightarrow> HostBoot option \<Rightarrow> Uuid \<Rightarrow> DateTime \<Rightarrow> string \<Rightarrow> Uuid option
    \<Rightarrow> (db, StateError, HostResourceLease) op" where
  "insert_host_resource_lease rep current new_id now name vm =
     bind_op lease_cid (\<lambda>cid.
     let lease = \<lparr>lease_id = new_id, lease_vm_name = name, lease_vsock_cid = cid,
           lease_tap_device = None, lease_guest_ip = None, lease_created_at = now,
           lease_vm_id = vm, lease_backend_entered = False, lease_vm_destroyed = False,
           lease_allocation_aborted = False\<rparr> in
     bind_op (map_err (lease_insert_error name) (sql_insert_leases rep (lease_to_row lease))) (\<lambda>_.
     bind_op (observe_on rep current (lease_id lease)) (\<lambda>_. ok lease)))"

definition begin_host_resource_lease_inner ::
  "reporter \<Rightarrow> HostBoot option \<Rightarrow> Uuid \<Rightarrow> DateTime \<Rightarrow> string \<Rightarrow> Uuid option
    \<Rightarrow> (db, StateError, HostResourceLease) op" where
  "begin_host_resource_lease_inner rep current new_id now name vm =
     transaction (insert_host_resource_lease rep current new_id now name vm)"

definition begin_host_resource_lease ::
  "reporter \<Rightarrow> HostBoot option \<Rightarrow> Uuid \<Rightarrow> DateTime \<Rightarrow> string \<Rightarrow> (db, StateError, HostResourceLease) op" where
  "begin_host_resource_lease rep current new_id now name =
     begin_host_resource_lease_inner rep current new_id now name None"

definition begin_host_resource_lease_for_vm ::
  "reporter \<Rightarrow> HostBoot option \<Rightarrow> Uuid \<Rightarrow> DateTime \<Rightarrow> string \<Rightarrow> Uuid
    \<Rightarrow> (db, StateError, HostResourceLease) op" where
  "begin_host_resource_lease_for_vm rep current new_id now name vm =
     begin_host_resource_lease_inner rep current new_id now name (Some vm)"

definition list_host_resource_leases ::
  "(DateTime \<Rightarrow> string) \<Rightarrow> (Uuid \<Rightarrow> string) \<Rightarrow> (db, StateError, HostResourceLease list) op" where
  "list_host_resource_leases rfc3339 hyphenated =
     bind_op (query (\<lambda>d. sort_key (\<lambda>l. rfc3339 (lease_created_at l))
       (sort_key (\<lambda>l. hyphenated (lease_id l)) (leases d)))) (\<lambda>rows.
     db_val (collect_results (map row_to_lease rows)))"

definition get_host_resource_lease :: "Uuid \<Rightarrow> (db, StateError, HostResourceLease) op" where
  "get_host_resource_lease i =
     bind_op (query (\<lambda>d. find (\<lambda>l. lease_id l = i) (leases d)))
       (one_row (HostResourceLeaseNotFound i) row_to_lease)"

subsection \<open>The life of a lease\<close>

definition lease_enterable :: "Uuid \<Rightarrow> Uuid \<Rightarrow> lease_row \<Rightarrow> bool" where
  "lease_enterable i vm l \<longleftrightarrow>
     lease_id l = i \<and> \<not> lease_backend_entered l \<and> (lease_vm_id l = None \<or> lease_vm_id l = Some vm)
     \<and> \<not> lease_vm_destroyed l \<and> \<not> lease_allocation_aborted l"

definition enter_host_resource_lease_backend ::
  "reporter \<Rightarrow> HostBoot option \<Rightarrow> Uuid \<Rightarrow> Uuid \<Rightarrow> (db, StateError, unit) op" where
  "enter_host_resource_lease_backend rep current i vm = transaction (
     bind_op (query (\<lambda>d. \<exists>l \<in> set (leases d). lease_enterable i vm l)) (\<lambda>eligible.
     if \<not> eligible \<or> vm = 0 then err (HostResourceLeaseMismatch i)
     else
       bind_op (prepare_entry_on rep i current) (\<lambda>_.
       bind_op (db_op (sql_update_leases rep [''vm_id'', ''backend_entered''] (lease_enterable i vm)
         (\<lambda>l. l\<lparr>lease_vm_id := Some vm, lease_backend_entered := True\<rparr>))) (\<lambda>n.
       if n \<noteq> 1 then err (HostResourceLeaseMismatch i) else ok ()))))"

definition record_host_resource_lease_destruction ::
  "reporter \<Rightarrow> Uuid \<Rightarrow> Uuid \<Rightarrow> (db, StateError, unit) op" where
  "record_host_resource_lease_destruction rep i vm =
     bind_op (db_op (sql_update_leases rep [''vm_destroyed'']
       (\<lambda>l. lease_id l = i \<and> lease_vm_id l = Some vm \<and> lease_backend_entered l)
       (\<lambda>l. l\<lparr>lease_vm_destroyed := True\<rparr>))) (\<lambda>n.
     if n \<noteq> 1 then err (HostResourceLeaseMismatch i) else ok ())"

definition set_host_resource_lease_network ::
  "reporter \<Rightarrow> Uuid \<Rightarrow> string option \<Rightarrow> string option \<Rightarrow> (db, StateError, unit) op" where
  "set_host_resource_lease_network rep i tap ip =
     bind_op (db_op (sql_update_leases rep [''tap_device'', ''guest_ip''] (\<lambda>l. lease_id l = i)
       (\<lambda>l. l\<lparr>lease_tap_device := tap, lease_guest_ip := ip\<rparr>)))
     (affected (HostResourceLeaseNotFound i))"

text \<open>The identity check of a commit, and what follows it.\<close>

definition lease_matches :: "HostResourceLease \<Rightarrow> VmRecord \<Rightarrow> bool" where
  "lease_matches lease record \<longleftrightarrow>
     \<not> (\<not> lease_backend_entered lease \<or> lease_vm_destroyed lease
        \<or> lease_vm_id lease \<noteq> Some (vm_id record) \<or> lease_vm_name lease \<noteq> vm_name record
        \<or> lease_vsock_cid lease \<noteq> vm_vsock_cid record
        \<or> lease_tap_device lease \<noteq> vm_tap_device record
        \<or> lease_guest_ip lease \<noteq> vm_guest_ip record)"

definition commit_leased ::
  "reporter \<Rightarrow> VmRecord \<Rightarrow> Uuid \<Rightarrow> VmExpirationRecord option \<Rightarrow> HostResourceLease
    \<Rightarrow> (db, StateError, unit) op" where
  "commit_leased rep record i expiration lease =
     (if \<not> lease_matches lease record then err (HostResourceLeaseMismatch i)
      else
        bind_op (insert_vm_on rep record) (\<lambda>_.
        bind_op (case expiration of None \<Rightarrow> ok () | Some e \<Rightarrow> insert_vm_expiration_on rep e) (\<lambda>_.
        bind_op (db_op (sql_delete_leases rep (\<lambda>l. lease_id l = i))) (\<lambda>_. ok ()))))"

definition commit_vm_from_host_resource_lease_with_expiration ::
  "reporter \<Rightarrow> VmRecord \<Rightarrow> Uuid \<Rightarrow> VmExpirationRecord option \<Rightarrow> (db, StateError, unit) op" where
  "commit_vm_from_host_resource_lease_with_expiration rep record i expiration =
     (if \<exists>value. expiration = Some value \<and> exp_vm_id value \<noteq> vm_id record
      then err (VmExpirationMismatch (vm_id record))
      else transaction (
        bind_op (query (\<lambda>d. find (\<lambda>l. lease_id l = i) (leases d))) (\<lambda>row.
        bind_op (one_row (HostResourceLeaseNotFound i) row_to_lease row)
          (commit_leased rep record i expiration))))"

definition commit_vm_from_host_resource_lease ::
  "reporter \<Rightarrow> VmRecord \<Rightarrow> Uuid \<Rightarrow> (db, StateError, unit) op" where
  "commit_vm_from_host_resource_lease rep record i =
     commit_vm_from_host_resource_lease_with_expiration rep record i None"

definition release_host_resource_lease :: "reporter \<Rightarrow> Uuid \<Rightarrow> (db, StateError, unit) op" where
  "release_host_resource_lease rep i = transaction (
     bind_op (query (\<lambda>d. find (\<lambda>l. lease_id l = i) (leases d))) (\<lambda>ownership.
     case ownership of None \<Rightarrow> ok ()
     | Some l \<Rightarrow>
         bind_op (db_val (get_u32 0 (lease_vsock_cid l))) (\<lambda>cid.
         bind_op (if lease_backend_entered l \<and> \<not> lease_vm_destroyed l then confirmed_on i else ok True)
           (\<lambda>released.
         if \<not> released then err (HostResourceLeaseMismatch i)
         else
           bind_op (db_op (sql_insert_or_ignore_freed_cids (uint cid))) (\<lambda>_.
           bind_op (db_op (sql_delete_leases rep (\<lambda>l. lease_id l = i))) (\<lambda>_. ok ()))))))"

subsection \<open>Every operation keeps the schema invariant\<close>

lemma keeps_boot_operations [keeps_store_ok]:
  "keeps store_ok (observe_on rep current l)"
  "keeps store_ok (prepare_entry_on rep l current)"
  "keeps store_ok (observe_legacy_lease_boots rep current)"
  "keeps store_ok (confirm_lease_reboot_on rep l current)"
  "keeps store_ok (confirm_host_resource_lease_reboot rep current l)"
  unfolding observe_on_def prepare_entry_on_def observe_legacy_lease_boots_def
    confirm_lease_reboot_on_def confirm_host_resource_lease_reboot_def
  by (intro within_intros keeps_store_ok preorder_keeps)+

lemma keeps_lease_cid [keeps_store_ok]: "keeps store_ok lease_cid"
  unfolding lease_cid_def by (intro within_intros keeps_store_ok preorder_keeps)

lemma keeps_insert_host_resource_lease [keeps_store_ok]:
  "keeps store_ok (insert_host_resource_lease rep current i now n v)"
  unfolding insert_host_resource_lease_def
  by (intro within_intros keeps_store_ok keeps_insert_leases preorder_keeps)
    (simp_all add: lease_to_row_def)

lemma keeps_lease_operations [keeps_store_ok]:
  "keeps store_ok (begin_host_resource_lease_inner rep current i now n v)"
  "keeps store_ok (begin_host_resource_lease rep current i now n)"
  "keeps store_ok (begin_host_resource_lease_for_vm rep current i now n vm)"
  "keeps store_ok (release_host_resource_lease rep i)"
  "keeps store_ok (commit_vm_from_host_resource_lease_with_expiration rep r i e)"
  "keeps store_ok (commit_vm_from_host_resource_lease rep r i)"
  unfolding begin_host_resource_lease_inner_def begin_host_resource_lease_def
    begin_host_resource_lease_for_vm_def release_host_resource_lease_def confirmed_on_def
    commit_vm_from_host_resource_lease_with_expiration_def commit_vm_from_host_resource_lease_def
    commit_leased_def
  by (intro within_intros keeps_store_ok preorder_keeps)+

lemma keeps_lease_updates [keeps_store_ok]:
  "keeps store_ok (enter_host_resource_lease_backend rep current i vm)"
  "keeps store_ok (record_host_resource_lease_destruction rep i vm)"
  "keeps store_ok (set_host_resource_lease_network rep i tap ip)"
  unfolding enter_host_resource_lease_backend_def record_host_resource_lease_destruction_def
    set_host_resource_lease_network_def
  by (intro within_intros keeps_store_ok keeps_update_leases preorder_keeps;
      simp add: lease_frame_def)+

end
