(* ===== verification/Lease_Contracts.thy ===== *)
theory Lease_Contracts
  imports Leases
begin

text \<open>
  What leases promise: which CID an attempt gets, that entry happens once, that a commit hands
  the exact leased identity to the VM, and that an entered lease is released only with proof.
\<close>

subsection \<open>The CID of a lease\<close>

lemma lease_cid_cases:
  assumes "cids_ok d"
  shows "lease_cid d = allocate_cid d"
  using assms
proof (cases rule: allocate_cid_cases)
  case (freed c)
  then have "0 \<le> c" "c < 4294967296" using assms by (auto simp: cids_ok_def)
  then show ?thesis using freed(1,2)
    by (simp add: lease_cid_def op_simps traverse_option_def get_u32_def try_u32_def uint_u32
        sql_delete_freed_cids_def)
next
  case counter
  then have "lowest_freed d = None" "0 \<le> next_cid d" "next_cid d < 4294967296"
    using assms by (auto simp: lowest_freed_None cids_ok_def)
  then show ?thesis using counter(3)
    by (simp add: lease_cid_def op_simps traverse_option_def get_u32_def try_u32_def
        sql_update_next_cid_def)
next
  case exhausted
  then have "lowest_freed d = None" "\<not> next_cid d < 4294967296"
    using assms by (auto simp: lowest_freed_None)
  then show ?thesis using exhausted(3)
    by (simp add: lease_cid_def op_simps traverse_option_def get_u32_def try_u32_def)
qed

lemma lease_cid_frame:
  "lease_cid d = (r, d') \<Longrightarrow> d' = d\<lparr>freed_cids := freed_cids d', next_cid := next_cid d'\<rparr>"
  by (auto simp: lease_cid_def op_simps sql_delete_freed_cids_def sql_update_next_cid_def
      split: option.splits sum.splits)

text \<open>
  C30: The two allocation paths of the store, \<open>allocate_cid\<close> and the one inlined in
  \<open>insert_host_resource_lease\<close>, are the same function of the store: they return the same CID,
  take it from the same place and fail alike, as long as the freed CIDs are ones the allocator
  issued.
\<close>

theorem lease_allocation_agrees:
  assumes "cids_ok d"
  shows "transaction lease_cid d = allocate_cid d"
proof -
  have "transaction lease_cid d = transaction allocate_cid d"
    using lease_cid_cases [OF assms] by (simp add: transaction_def)
  also have "\<dots> = allocate_cid d"
    unfolding allocate_cid_def by (auto simp: transaction_def split: prod.splits sum.splits)
  finally show ?thesis .
qed

theorem lease_allocation_agrees_witness:
  "transaction lease_cid (fresh_db\<lparr>next_cid := 9, freed_cids := [7, 5]\<rparr>)
    = allocate_cid (fresh_db\<lparr>next_cid := 9, freed_cids := [7, 5]\<rparr>)"
  by (rule lease_allocation_agrees) (simp add: cids_ok_def)

text \<open>What a successful lease insertion does to the store.\<close>

lemma observe_on_effect:
  assumes "observe_on rep current i d = (r, d')"
  shows "d' = d\<lparr>boot_epochs := boot_epochs d'\<rparr>"
  using assms
  by (auto simp: observe_on_def op_simps sql_insert_or_ignore_boot_epochs_def statement_def
      split: option.splits if_splits)

lemma insert_lease_ok:
  assumes run: "insert_host_resource_lease rep current i now n v d = (Inr lease, d')"
  obtains d1 where "lease_cid d = (Inr (lease_vsock_cid lease), d1)"
    "lease = \<lparr>lease_id = i, lease_vm_name = n, lease_vsock_cid = lease_vsock_cid lease,
       lease_tap_device = None, lease_guest_ip = None, lease_created_at = now, lease_vm_id = v,
       lease_backend_entered = False, lease_vm_destroyed = False, lease_allocation_aborted = False\<rparr>"
    "raised (leases_constraints (leases d @ [lease_to_row lease])) = []"
    "d' = d\<lparr>freed_cids := freed_cids d1, next_cid := next_cid d1,
       leases := leases d @ [lease_to_row lease], boot_epochs := boot_epochs d'\<rparr>"
proof -
  let ?lease = "\<lambda>c. \<lparr>lease_id = i, lease_vm_name = n, lease_vsock_cid = c,
       lease_tap_device = None, lease_guest_ip = None, lease_created_at = now, lease_vm_id = v,
       lease_backend_entered = False, lease_vm_destroyed = False, lease_allocation_aborted = False\<rparr>"
  obtain x d1 where cid: "lease_cid d = (x, d1)" by fastforce
  then obtain c where x: "x = Inr c"
    using run by (cases x) (auto simp: insert_host_resource_lease_def bind_op_def)
  obtain y d2 where ins: "sql_insert_leases rep (lease_to_row (?lease c)) d1 = (y, d2)" by fastforce
  then obtain u where y: "y = Inr u"
    using run cid x by (cases y) (auto simp: insert_host_resource_lease_def op_simps Let_def)
  obtain z d3 where obs: "observe_on rep current i d2 = (z, d3)" by fastforce
  then obtain w where z: "z = Inr w"
    using run cid x ins y by (cases z) (auto simp: insert_host_resource_lease_def op_simps Let_def)
  have res: "lease = ?lease c" "d' = d3"
    using run cid x ins y obs z by (auto simp: insert_host_resource_lease_def op_simps Let_def)
  have d1: "d1 = d\<lparr>freed_cids := freed_cids d1, next_cid := next_cid d1\<rparr>"
    by (rule lease_cid_frame [OF cid])
  have l1: "leases d1 = leases d" "boot_epochs d1 = boot_epochs d" by (subst d1, simp)+
  have d2: "d2 = d1\<lparr>leases := leases d1 @ [lease_to_row lease]\<rparr>"
    "raised (leases_constraints (leases d1 @ [lease_to_row lease])) = []"
    using ins y res by (auto simp: sql_insert_leases_def statement_Inr)
  have d3: "d3 = d2\<lparr>boot_epochs := boot_epochs d3\<rparr>" by (rule observe_on_effect [OF obs])
  have "d' = d\<lparr>freed_cids := freed_cids d1, next_cid := next_cid d1,
       leases := leases d @ [lease_to_row lease], boot_epochs := boot_epochs d'\<rparr>"
  proof -
    have "d' = d1\<lparr>leases := leases d1 @ [lease_to_row lease], boot_epochs := boot_epochs d3\<rparr>"
      using d3 d2(1) res(2) by simp
    also have "\<dots> = d\<lparr>freed_cids := freed_cids d1, next_cid := next_cid d1,
       leases := leases d @ [lease_to_row lease], boot_epochs := boot_epochs d'\<rparr>"
      by (subst d1) (simp add: l1 res(2))
    finally show ?thesis .
  qed
  then show thesis
    using that [of d1] cid x res d2(2) l1 by simp
qed

lemma begin_lease_ok:
  "begin_host_resource_lease_inner rep current i now n v d = (Inr lease, d') \<Longrightarrow>
    insert_host_resource_lease rep current i now n v d = (Inr lease, d')"
  by (auto simp: begin_host_resource_lease_inner_def transaction_def split: prod.splits sum.splits)


definition sample_lease :: HostResourceLease where
  "sample_lease = \<lparr>lease_id = 50, lease_vm_name = ''web'', lease_vsock_cid = 3,
     lease_tap_device = None, lease_guest_ip = None, lease_created_at = 0, lease_vm_id = Some 7,
     lease_backend_entered = False, lease_vm_destroyed = False, lease_allocation_aborted = False\<rparr>"

definition leased_db :: db where
  "leased_db = fresh_db\<lparr>next_cid := 4, leases := [lease_to_row sample_lease]\<rparr>"

lemma sample_begin:
  "begin_host_resource_lease_inner rep None 50 0 ''web'' (Some 7) fresh_db = (Inr sample_lease, leased_db)"
  by (simp add: begin_host_resource_lease_inner_def insert_host_resource_lease_def lease_cid_def
      op_simps lowest_freed_def traverse_option_def get_u32_def try_u32_def sql_update_next_cid_def
      sql_insert_leases_def leases_constraints_def statement_def unique_on_def observe_on_def Let_def
      sample_lease_def leased_db_def)

lemma fresh_cids_ok: "cids_ok fresh_db"
  by (simp add: cids_ok_def)

lemma leased_db_ok: "store_ok leased_db"
  using withinD [OF keeps_lease_operations(1) sample_begin [of hd]] store_ok_fresh by blast


subsection \<open>Entering the backend\<close>

definition only_epochs :: "db \<Rightarrow> db \<Rightarrow> bool" where
  "only_epochs d d' \<longleftrightarrow> (\<exists>es. d' = d\<lparr>boot_epochs := es\<rparr>)"

lemma only_epochs_simps [simp]:
  "only_epochs s s" "only_epochs s (s\<lparr>boot_epochs := es\<rparr>)"
proof -
  show "only_epochs s (s\<lparr>boot_epochs := es\<rparr>)" for es by (auto simp: only_epochs_def)
  from this [of "boot_epochs s"] show "only_epochs s s" by simp
qed

lemma preorder_only_epochs: "preorder_on_states only_epochs"
proof -
  have "only_epochs s u" if "only_epochs s t" "only_epochs t u" for s t u
    using that unfolding only_epochs_def by auto
  then show ?thesis unfolding preorder_on_states_def by simp
qed

lemma only_epochs_statements:
  "within only_epochs (sql_insert_or_ignore_boot_epochs rep e)"
  "within only_epochs (sql_insert_boot_epochs rep e)"
  "within only_epochs (sql_update_boot_epochs rep P f)"
  "within only_epochs (sql_delete_boot_epochs rep P)"
  unfolding sql_insert_or_ignore_boot_epochs_def sql_insert_boot_epochs_def
    sql_update_boot_epochs_def sql_delete_boot_epochs_def
  by (rule within_statement; simp)+

lemma prepare_entry_only_epochs: "within only_epochs (prepare_entry_on rep i current)"
  unfolding prepare_entry_on_def
  by (intro within_intros only_epochs_statements preorder_only_epochs)

lemma confirm_reboot_only_epochs: "within only_epochs (confirm_lease_reboot_on rep i current)"
  unfolding confirm_lease_reboot_on_def
  by (intro within_intros only_epochs_statements preorder_only_epochs)

lemma only_epochs_leases: "only_epochs d d' \<Longrightarrow> leases d' = leases d"
  by (auto simp: only_epochs_def)

lemma enter_lease_ok:
  assumes run: "enter_host_resource_lease_backend rep current i vm d = (Inr (), d')"
  obtains d1 where "\<exists>l \<in> set (leases d). lease_enterable i vm l" "vm \<noteq> 0"
    "prepare_entry_on rep i current d = (Inr (), d1)"
    "d' = d1\<lparr>leases := update_rows (lease_enterable i vm)
       (\<lambda>l. l\<lparr>lease_vm_id := Some vm, lease_backend_entered := True\<rparr>) (leases d)\<rparr>"
proof -
  have elig: "\<exists>l \<in> set (leases d). lease_enterable i vm l" "vm \<noteq> 0"
    using run by (auto simp: enter_host_resource_lease_backend_def op_simps split: if_splits)
  have some: "(\<forall>x \<in> set (leases d). \<not> lease_enterable i vm x) = False" using elig(1) by blast
  obtain x d1 where prep: "prepare_entry_on rep i current d = (x, d1)" by fastforce
  then obtain u where x: "x = Inr u"
    using run elig by (cases x) (auto simp: enter_host_resource_lease_backend_def op_simps some)
  let ?f = "\<lambda>l. l\<lparr>lease_vm_id := Some vm, lease_backend_entered := True\<rparr> :: lease_row"
  obtain y d2 where upd: "sql_update_leases rep [''vm_id'', ''backend_entered'']
      (lease_enterable i vm) ?f d1 = (y, d2)" by fastforce
  then obtain k where y: "y = Inr k"
    using run elig prep x by (cases y) (auto simp: enter_host_resource_lease_backend_def op_simps some)
  have "d' = d2"
    using run elig prep x upd y
    by (auto simp: enter_host_resource_lease_backend_def op_simps some split: if_splits)
  moreover have "d2 = d1\<lparr>leases := update_rows (lease_enterable i vm) ?f (leases d1)\<rparr>"
    using upd y by (auto simp: sql_update_leases_def statement_Inr)
  moreover have "leases d1 = leases d"
    using withinD [OF prepare_entry_only_epochs prep] by (rule only_epochs_leases)
  ultimately show thesis using that elig prep x by simp
qed

lemma prepare_entry_epoch:
  assumes ok: "store_ok d" and run: "prepare_entry_on rep i current d = (Inr (), d1)"
  shows "find_epoch i d1 = map_option (epoch_of i) current"
proof -
  have u: "unique_on epoch_lease_id (boot_epochs d)" using ok by (simp add: store_ok_def leases_ok_def)
  show ?thesis
  proof (cases "find_epoch i d")
    case None
    show ?thesis
    proof (cases current)
      case None
      then show ?thesis using run \<open>find_epoch i d = None\<close>
        by (simp add: prepare_entry_on_def op_simps)
    next
      case (Some identity)
      then have "boot_epochs d1 = boot_epochs d @ [epoch_of i identity]"
        using run None by (auto simp: prepare_entry_on_def op_simps sql_insert_boot_epochs_def
            statement_def split: if_splits)
      then show ?thesis using None Some
        by (simp add: find_epoch_def find_append_new epoch_of_def)
    qed
  next
    case (Some e)
    then have e: "e \<in> set (boot_epochs d)" "epoch_lease_id e = i"
      by (auto simp: find_epoch_def dest: find_SomeD)
    have c: "\<not> epoch_confirmed e"
      using run Some by (auto simp: prepare_entry_on_def op_simps split: if_splits)
    show ?thesis
    proof (cases current)
      case None
      then have "boot_epochs d1 = delete_rows (\<lambda>e. epoch_lease_id e = i) (boot_epochs d)"
        using run Some c by (auto simp: prepare_entry_on_def op_simps sql_delete_boot_epochs_def
            statement_def split: if_splits)
      then show ?thesis using None by (auto simp: find_epoch_def find_None_iff table_simps)
    next
      case (Some identity)
      then have "d1 = d" "epoch_host_id e = host identity" "epoch_boot_id e = boot identity"
        using run \<open>find_epoch i d = Some e\<close> c
        by (auto simp: prepare_entry_on_def op_simps split: if_splits)
      then show ?thesis using \<open>find_epoch i d = Some e\<close> Some e(2) c
        by (simp add: epoch_of_def)
    qed
  qed
qed

text \<open>
  C27: A lease authorises one backend entry. When \<open>enter_host_resource_lease_backend\<close> succeeds
  the lease was unentered, not aborted and not bound to another VM generation; it is now bound
  to this one, carries exactly the boot in which it was entered as its evidence, and every
  later attempt to enter it, for any generation, is refused and changes nothing.
\<close>

theorem lease_entered_once:
  assumes ok: "store_ok d"
    and run: "enter_host_resource_lease_backend rep current i vm d = (Inr (), d')"
  shows "(\<exists>l \<in> set (leases d). lease_id l = i \<and> \<not> lease_backend_entered l
        \<and> \<not> lease_allocation_aborted l \<and> (lease_vm_id l = None \<or> lease_vm_id l = Some vm))
    \<and> (\<exists>l \<in> set (leases d'). lease_id l = i \<and> lease_backend_entered l \<and> lease_vm_id l = Some vm)
    \<and> find_epoch i d' = map_option (epoch_of i) current
    \<and> enter_host_resource_lease_backend rep' current' i vm' d' = (Inl (HostResourceLeaseMismatch i), d')"
proof -
  obtain d1 where elig: "\<exists>l \<in> set (leases d). lease_enterable i vm l"
    and prep: "prepare_entry_on rep i current d = (Inr (), d1)"
    and d': "d' = d1\<lparr>leases := update_rows (lease_enterable i vm)
       (\<lambda>l. l\<lparr>lease_vm_id := Some vm, lease_backend_entered := True\<rparr>) (leases d)\<rparr>"
    by (rule enter_lease_ok [OF run])
  from elig obtain l where l: "l \<in> set (leases d)" "lease_enterable i vm l" by blast
  have u: "unique_on lease_id (leases d)" using ok by (simp add: store_ok_def leases_ok_def)
  have new: "l\<lparr>lease_vm_id := Some vm, lease_backend_entered := True\<rparr> \<in> set (leases d')"
    using l by (auto simp: d' set_update_rows)
  have entered: "lease_backend_entered q" if "q \<in> set (leases d')" "lease_id q = i" for q
  proof -
    from that(1) consider "q \<in> set (leases d)" "\<not> lease_enterable i vm q"
      | p where "q = p\<lparr>lease_vm_id := Some vm, lease_backend_entered := True\<rparr>"
      by (auto simp: d' set_update_rows)
    then show ?thesis
    proof cases
      case 1
      then have "q = l" using unique_onD [OF u] l that(2) by (auto simp: lease_enterable_def)
      then show ?thesis using 1 l(2) by simp
    qed simp
  qed
  then have "\<not> (\<exists>q \<in> set (leases d'). lease_enterable i vm' q)" by (auto simp: lease_enterable_def)
  then have "enter_host_resource_lease_backend rep' current' i vm' d' = (Inl (HostResourceLeaseMismatch i), d')"
    by (simp add: enter_host_resource_lease_backend_def op_simps)
  moreover have "find_epoch i d' = map_option (epoch_of i) current"
    using prepare_entry_epoch [OF ok prep] by (simp add: d' find_epoch_def)
  moreover have "\<exists>q \<in> set (leases d'). lease_id q = i \<and> lease_backend_entered q \<and> lease_vm_id q = Some vm"
    by (rule bexI [OF _ new]) (use l in \<open>simp add: lease_enterable_def\<close>)
  moreover have "\<exists>q \<in> set (leases d). lease_id q = i \<and> \<not> lease_backend_entered q
      \<and> \<not> lease_allocation_aborted q \<and> (lease_vm_id q = None \<or> lease_vm_id q = Some vm)"
    by (rule bexI [OF _ l(1)]) (use l(2) in \<open>simp add: lease_enterable_def\<close>)
  ultimately show ?thesis by simp
qed

definition boot_one :: HostBoot where "boot_one = \<lparr>host = 100, boot = 1\<rparr>"
definition boot_two :: HostBoot where "boot_two = \<lparr>host = 100, boot = 2\<rparr>"

definition entered_db :: db where
  "entered_db = leased_db\<lparr>boot_epochs := [epoch_of 50 boot_one],
     leases := [(lease_to_row sample_lease)\<lparr>lease_backend_entered := True\<rparr>]\<rparr>"

lemma sample_enter:
  "enter_host_resource_lease_backend rep (Some boot_one) 50 7 leased_db = (Inr (), entered_db)"
  by (simp add: enter_host_resource_lease_backend_def op_simps leased_db_def entered_db_def
      lease_enterable_def lease_to_row_def sample_lease_def prepare_entry_on_def find_epoch_def
      sql_insert_boot_epochs_def epoch_insert_triggers_def statement_def unique_on_def epoch_of_def
      sql_update_leases_def lease_update_triggers_def lease_identity_violation_def
      lease_plan_violation_def reboot_confirmed_def leases_constraints_def update_rows_def
      count_rows_def)

theorem lease_entered_once_witness:
  "enter_host_resource_lease_backend hd None 50 8 entered_db = (Inl (HostResourceLeaseMismatch 50), entered_db)"
  using lease_entered_once [OF leased_db_ok sample_enter [of hd], of hd None 8] by simp

lemma entered_db_ok: "store_ok entered_db"
  using withinD [OF keeps_lease_updates(1) sample_enter [of hd]] leased_db_ok by blast

subsection \<open>Host reboots as proof\<close>

text \<open>
  C29: Only a reboot of the same host counts. \<open>confirm_lease_reboot_on\<close> records the proof only
  for an entered lease whose evidence names this host and another boot than the running one: a
  restart of the daemon in the same boot, another host, an unreadable identity or a lease
  without evidence never produce it, and nothing but the evidence changes.
\<close>

theorem reboot_confirmed_only_by_reboot:
  assumes ok: "store_ok d"
    and run: "confirm_lease_reboot_on rep i current d = (x, d')"
    and before: "\<not> reboot_confirmed (boot_epochs d) i"
  shows "(reboot_confirmed (boot_epochs d') i \<longleftrightarrow> x = Inr True)
    \<and> (x = Inr True \<longrightarrow>
        (\<exists>e identity. e \<in> set (boot_epochs d) \<and> epoch_lease_id e = i \<and> current = Some identity
          \<and> host identity = epoch_host_id e \<and> boot identity \<noteq> epoch_boot_id e
          \<and> (\<exists>l \<in> set (leases d). lease_id l = i \<and> lease_backend_entered l)))
    \<and> (x \<noteq> Inr True \<longrightarrow> d' = d) \<and> leases d' = leases d"
proof -
  let ?P = "\<lambda>e. epoch_lease_id e = i \<and>
         (\<exists>l \<in> set (leases d). lease_id l = epoch_lease_id e \<and> lease_backend_entered l)"
  have same: "leases d' = leases d"
    using withinD [OF confirm_reboot_only_epochs run] by (rule only_epochs_leases)
  have u: "unique_on epoch_lease_id (boot_epochs d)" using ok by (simp add: store_ok_def leases_ok_def)
  show ?thesis
  proof (cases "find ?P (boot_epochs d)")
    case None
    then show ?thesis using run before by (auto simp: confirm_lease_reboot_on_def op_simps)
  next
    case (Some e)
    then have e: "e \<in> set (boot_epochs d)" "epoch_lease_id e = i"
      "\<exists>l \<in> set (leases d). lease_id l = i \<and> lease_backend_entered l"
      by (auto dest!: find_SomeD)
    have c: "\<not> epoch_confirmed e" using before e by (auto simp: reboot_confirmed_def)
    show ?thesis
    proof (cases "epoch_host_id e = 0 \<or> epoch_boot_id e = 0")
      case True
      then show ?thesis using run before Some by (auto simp: confirm_lease_reboot_on_def op_simps)
    next
      case nonnil: False
      show ?thesis
      proof (cases current)
        case None
        then show ?thesis using run before Some c nonnil by (auto simp: confirm_lease_reboot_on_def op_simps)
      next
        case cur: (Some identity)
        show ?thesis
        proof (cases "host identity \<noteq> epoch_host_id e \<or> boot identity = epoch_boot_id e \<or> boot identity = 0")
          case True
          then show ?thesis using run before Some c nonnil cur
            by (auto simp: confirm_lease_reboot_on_def op_simps)
        next
          case False
          let ?Q = "\<lambda>r. epoch_lease_id r = i \<and> epoch_host_id r = epoch_host_id e
            \<and> epoch_boot_id r = epoch_boot_id e \<and> (\<exists>l \<in> set (leases d). lease_id l = i \<and> lease_backend_entered l)"
          let ?d = "d\<lparr>boot_epochs := update_rows ?Q (\<lambda>r. r\<lparr>epoch_confirmed := True\<rparr>) (boot_epochs d)\<rparr>"
          have "find (\<lambda>r. epoch_lease_id r = i) (boot_epochs d) = Some e"
            using find_Some_iff_unique [OF u] e by blast
          from filter_unique_found [OF u this, of "\<lambda>r. epoch_host_id r = epoch_host_id e
            \<and> epoch_boot_id r = epoch_boot_id e \<and> (\<exists>l \<in> set (leases d). lease_id l = i \<and> lease_backend_entered l)"] e(3)
          have one: "filter ?Q (boot_epochs d) = [e]" by simp
          then have "count_rows ?Q (boot_epochs d) = 1" by (simp add: count_rows_def)
          then have "confirm_lease_reboot_on rep i current d = (Inr True, ?d)"
            using Some c nonnil cur False e(3)
            by (simp add: confirm_lease_reboot_on_def op_simps sql_update_boot_epochs_def statement_def)
          then have res: "x = Inr True" "d' = ?d" using run by auto
          have "e\<lparr>epoch_confirmed := True\<rparr> \<in> set (boot_epochs d')"
            using e by (auto simp: res(2) set_update_rows)
          then have "reboot_confirmed (boot_epochs d') i"
            using e(2) unfolding reboot_confirmed_def
            by (intro bexI [of _ "e\<lparr>epoch_confirmed := True\<rparr>"]) simp_all
          then show ?thesis using res(1) same cur False e by blast
        qed
      qed
    qed
  qed
qed

theorem reboot_confirmed_only_by_reboot_witness:
  "fst (confirm_lease_reboot_on hd 50 (Some boot_one) entered_db) \<noteq> Inr True
    \<and> reboot_confirmed (boot_epochs (snd (confirm_lease_reboot_on hd 50 (Some boot_two) entered_db))) 50"
proof -
  have before: "\<not> reboot_confirmed (boot_epochs entered_db) 50"
    by (simp add: reboot_confirmed_def entered_db_def epoch_of_def)
  have two: "fst (confirm_lease_reboot_on hd 50 (Some boot_two) entered_db) = Inr True"
    by (simp add: confirm_lease_reboot_on_def op_simps entered_db_def epoch_of_def boot_one_def
        boot_two_def lease_to_row_def sample_lease_def sql_update_boot_epochs_def statement_def
        count_rows_def)
  show ?thesis
    using reboot_confirmed_only_by_reboot [OF entered_db_ok surjective_pairing before, of hd "Some boot_one"]
      reboot_confirmed_only_by_reboot [OF entered_db_ok surjective_pairing before, of hd "Some boot_two"] two
    by (auto simp: entered_db_def epoch_of_def boot_one_def)
qed

subsection \<open>Releasing a lease\<close>

lemma find_lease_delete:
  assumes "unique_on lease_id (leases d)" "find (\<lambda>l. lease_id l = i) (leases d) = Some l"
  shows "(\<exists>q \<in> set (leases d). lease_id q = i \<and> lease_released_without_proof d q)
    \<longleftrightarrow> lease_released_without_proof d l"
  using find_Some_iff_unique [OF assms(1), of i] assms(2) by (metis option.inject)

lemma release_lease_refines:
  assumes ok: "store_ok d"
  shows "release_host_resource_lease rep i d =
    (case find (\<lambda>l. lease_id l = i) (leases d) of
       None \<Rightarrow> (Inr (), d)
     | Some l \<Rightarrow>
         (case try_u32 (lease_vsock_cid l) of
            None \<Rightarrow> (Inl (Database (IntegralValueOutOfRange 0 (lease_vsock_cid l))), d)
          | Some cid \<Rightarrow>
              if lease_backend_entered l \<and> \<not> lease_vm_destroyed l
                 \<and> \<not> reboot_confirmed (boot_epochs d) i
              then (Inl (HostResourceLeaseMismatch i), d)
              else (Inr (), (snd (sql_insert_or_ignore_freed_cids (lease_vsock_cid l) d))
                \<lparr>leases := delete_rows (\<lambda>l. lease_id l = i) (leases d),
                 boot_epochs := delete_rows (\<lambda>e. epoch_lease_id e = i) (boot_epochs d)\<rparr>)))"
proof (cases "find (\<lambda>l. lease_id l = i) (leases d)")
  case None
  then show ?thesis by (simp add: release_host_resource_lease_def op_simps)
next
  case (Some l)
  have u: "unique_on lease_id (leases d)" using ok by (simp add: store_ok_def leases_ok_def)
  have l: "l \<in> set (leases d)" "lease_id l = i" using find_SomeD [OF Some] by auto
  show ?thesis
  proof (cases "try_u32 (lease_vsock_cid l)")
    case None
    then show ?thesis using Some by (simp add: release_host_resource_lease_def op_simps get_u32_def)
  next
    case cid: (Some cid)
    show ?thesis
    proof (cases "lease_backend_entered l \<and> \<not> lease_vm_destroyed l \<and> \<not> reboot_confirmed (boot_epochs d) i")
      case True
      then show ?thesis using Some cid
        by (simp add: release_host_resource_lease_def op_simps get_u32_def confirmed_on_def)
    next
      case False
      obtain d0 where d0: "sql_insert_or_ignore_freed_cids (lease_vsock_cid l) d = (Inr (), d0)"
        "d0 = d\<lparr>freed_cids := freed_cids d0\<rparr>"
        by (rule insert_or_ignore_freed)
      have f: "leases d0 = leases d" "boot_epochs d0 = boot_epochs d" "vms d0 = vms d"
        by (subst d0(2), simp)+
      have ids: "lease_id ` set (filter (\<lambda>l. lease_id l = i) (leases d)) = {i}" using l by auto
      have "lease_released_without_proof d0 q = lease_released_without_proof d q" for q
        by (simp add: lease_released_without_proof_def f)
      then have "\<not> (\<exists>q \<in> set (leases d0). lease_id q = i \<and> lease_released_without_proof d0 q)"
        using find_lease_delete [OF u Some] False l by (auto simp: f lease_released_without_proof_def)
      then have del: "sql_delete_leases rep (\<lambda>l. lease_id l = i) d0 =
          (Inr (count_rows (\<lambda>l. lease_id l = i) (leases d)),
           d0\<lparr>leases := delete_rows (\<lambda>l. lease_id l = i) (leases d),
              boot_epochs := delete_rows (\<lambda>e. epoch_lease_id e = i) (boot_epochs d)\<rparr>)"
        unfolding sql_delete_leases_def statement_def f ids Let_def by simp
      show ?thesis
        using Some cid False d0(1) del try_u32_SomeD [OF cid]
        by (auto simp: release_host_resource_lease_def op_simps get_u32_def confirmed_on_def)
    qed
  qed
qed

text \<open>
  C26: A lease whose backend may still run is never given up. Releasing an entered lease
  without a destruction receipt and without the proof of a host reboot is refused and changes
  nothing; every other lease is removed and its CID returned. Releasing twice is harmless.
\<close>

theorem lease_released_with_proof:
  assumes ok: "store_ok d" and run: "release_host_resource_lease rep i d = (x, d')"
    and l: "l \<in> set (leases d)" "lease_id l = i" and cid: "lease_vsock_cid l = uint (cid :: u32)"
  shows "(if lease_backend_entered l \<and> \<not> lease_vm_destroyed l \<and> \<not> reboot_confirmed (boot_epochs d) i
      then x = Inl (HostResourceLeaseMismatch i) \<and> d' = d
      else x = Inr () \<and> leases d' = filter (\<lambda>q. lease_id q \<noteq> i) (leases d)
        \<and> set (freed_cids d') = insert (uint cid) (set (freed_cids d)) \<and> vms d' = vms d
        \<and> release_host_resource_lease rep i d' = (Inr (), d'))"
proof -
  have u: "unique_on lease_id (leases d)" using ok by (simp add: store_ok_def leases_ok_def)
  have f: "find (\<lambda>l. lease_id l = i) (leases d) = Some l"
    using find_Some_iff_unique [OF u] l by blast
  have ok': "store_ok d'" using withinD [OF keeps_lease_operations(4) run] ok by blast
  obtain d0 where d0: "sql_insert_or_ignore_freed_cids (uint cid) d = (Inr (), d0)"
    "set (freed_cids d0) = insert (uint cid) (set (freed_cids d))" "d0 = d\<lparr>freed_cids := freed_cids d0\<rparr>"
    by (rule insert_or_ignore_freed)
  have v: "vms d0 = vms d" by (subst d0(3)) simp
  show ?thesis
  proof (cases "lease_backend_entered l \<and> \<not> lease_vm_destroyed l \<and> \<not> reboot_confirmed (boot_epochs d) i")
    case True
    then show ?thesis using run f cid by (simp add: release_lease_refines [OF ok])
  next
    case False
    then have res: "x = Inr ()" "leases d' = delete_rows (\<lambda>l. lease_id l = i) (leases d)"
      "freed_cids d' = freed_cids d0" "vms d' = vms d0"
      using run f cid d0(1) by (auto simp: release_lease_refines [OF ok])
    then have "find (\<lambda>l. lease_id l = i) (leases d') = None"
      by (auto simp: find_None_iff table_simps)
    then have "release_host_resource_lease rep i d' = (Inr (), d')"
      by (simp add: release_lease_refines [OF ok'])
    then show ?thesis using False res d0(2) v by (simp add: delete_rows_def)
  qed
qed

theorem lease_released_with_proof_witness:
  "release_host_resource_lease hd 50 entered_db = (Inl (HostResourceLeaseMismatch 50), entered_db)
    \<and> fst (release_host_resource_lease hd 50 leased_db) = Inr ()"
proof -
  let ?l = "(lease_to_row sample_lease)\<lparr>lease_backend_entered := True\<rparr>"
  have "\<not> reboot_confirmed (boot_epochs entered_db) 50"
    by (simp add: reboot_confirmed_def entered_db_def epoch_of_def)
  then show ?thesis
    using lease_released_with_proof [OF entered_db_ok surjective_pairing, of ?l 50 3 hd]
      lease_released_with_proof [OF leased_db_ok surjective_pairing, of "lease_to_row sample_lease" 50 3 hd]
    by (simp add: entered_db_def leased_db_def lease_to_row_def sample_lease_def prod_eq_iff)
qed

subsection \<open>Committing a lease\<close>

lemma insert_expiration_frame:
  assumes "(case e of None \<Rightarrow> ok () | Some x \<Rightarrow> insert_vm_expiration_on rep x) d = (r, d')"
  shows "d' = d\<lparr>expirations := expirations d'\<rparr>"
  using assms by (cases e) (auto simp: insert_vm_expiration_on_def op_simps sql_insert_expirations_def
      statement_def split: if_splits)

lemma commit_lease_ok:
  assumes ok: "store_ok d"
    and run: "commit_vm_from_host_resource_lease_with_expiration rep r i e d = (Inr (), d')"
  obtains l where "l \<in> set (leases d)" "lease_id l = i" "lease_backend_entered l"
    "\<not> lease_vm_destroyed l" "lease_vm_id l = Some (vm_id r)" "lease_vm_name l = vm_name r"
    "lease_vsock_cid l = uint (vm_vsock_cid r)" "lease_tap_device l = vm_tap_device r"
    "lease_guest_ip l = vm_guest_ip r" "insertable d r"
    "d' = d\<lparr>vms := vms d @ [vm_to_row r], expirations := expirations d',
       leases := delete_rows (\<lambda>l. lease_id l = i) (leases d),
       boot_epochs := delete_rows (\<lambda>e. epoch_lease_id e = i) (boot_epochs d)\<rparr>"
proof -
  have "\<not> (\<exists>value. e = Some value \<and> exp_vm_id value \<noteq> vm_id r)"
    using run by (cases e) (auto simp: commit_vm_from_host_resource_lease_with_expiration_def err_def
        split: if_splits)
  with run have "bind_op (one_row (HostResourceLeaseNotFound i) row_to_lease
      (find (\<lambda>l. lease_id l = i) (leases d))) (commit_leased rep r i e) d = (Inr (), d')"
    by (simp add: commit_vm_from_host_resource_lease_with_expiration_def transaction_Inr)
  then obtain lease d0 where q: "one_row (HostResourceLeaseNotFound i) row_to_lease
      (find (\<lambda>l. lease_id l = i) (leases d)) d = (Inr lease, d0)"
    and go: "commit_leased rep r i e lease d0 = (Inr (), d')"
    by (rule bind_op_Inr)
  from q obtain l where l: "find (\<lambda>l. lease_id l = i) (leases d) = Some l"
    and lease: "row_to_lease l = Inr lease" and d0: "d0 = d"
    by (cases "find (\<lambda>l. lease_id l = i) (leases d)")
      (auto simp: err_def db_val_def lift_result_def map_sum_Inr)
  have m: "lease_matches lease r" using go by (auto simp: commit_leased_def err_def split: if_splits)
  then have match: "lease_backend_entered lease" "\<not> lease_vm_destroyed lease"
    "lease_vm_id lease = Some (vm_id r)" "lease_vm_name lease = vm_name r"
    "lease_vsock_cid lease = vm_vsock_cid r" "lease_tap_device lease = vm_tap_device r"
    "lease_guest_ip lease = vm_guest_ip r"
    by (simp_all add: lease_matches_def)
  from go m obtain u d1 where ins: "insert_vm_on rep r d = (Inr u, d1)"
    and go1: "bind_op (case e of None \<Rightarrow> ok () | Some e \<Rightarrow> insert_vm_expiration_on rep e) (\<lambda>_.
          bind_op (db_op (sql_delete_leases rep (\<lambda>l. lease_id l = i))) (\<lambda>_. ok ())) d1 = (Inr (), d')"
    by (auto simp: commit_leased_def d0 elim: bind_op_Inr)
  from bind_op_Inr [OF go1] obtain d2 v where
    exp: "(case e of None \<Rightarrow> ok () | Some e \<Rightarrow> insert_vm_expiration_on rep e) d1 = (Inr v, d2)"
    and go2: "bind_op (db_op (sql_delete_leases rep (\<lambda>l. lease_id l = i))) (\<lambda>_. ok ()) d2 = (Inr (), d')"
    by metis
  then obtain n where del: "sql_delete_leases rep (\<lambda>l. lease_id l = i) d2 = (Inr n, d')"
    by (auto simp: op_simps split: prod.splits sum.splits)
  have mem: "l \<in> set (leases d)" "lease_id l = i" using find_SomeD [OF l] by auto
  have ids: "lease_id ` set (filter (\<lambda>l. lease_id l = i) (leases d)) = {i}" using mem by auto
  have d1: "d1 = d\<lparr>vms := vms d @ [vm_to_row r]\<rparr>" using insert_vm_on_ok ins by simp
  have d2: "d2 = d1\<lparr>expirations := expirations d2\<rparr>" by (rule insert_expiration_frame [OF exp])
  have same: "leases d2 = leases d" "boot_epochs d2 = boot_epochs d" by (subst d2, simp add: d1)+
  have "d' = d2\<lparr>leases := delete_rows (\<lambda>l. lease_id l = i) (leases d),
       boot_epochs := delete_rows (\<lambda>e. epoch_lease_id e = i) (boot_epochs d)\<rparr>"
    using del unfolding sql_delete_leases_def statement_Inr same ids Let_def by simp
  then have d': "d' = d\<lparr>vms := vms d @ [vm_to_row r], expirations := expirations d2,
       leases := delete_rows (\<lambda>l. lease_id l = i) (leases d),
       boot_epochs := delete_rows (\<lambda>e. epoch_lease_id e = i) (boot_epochs d)\<rparr>"
    using d1 d2 by simp
  have row: "lease_backend_entered l = lease_backend_entered lease"
    "lease_vm_destroyed l = lease_vm_destroyed lease" "lease_vm_id l = lease_vm_id lease"
    "lease_vm_name l = lease_vm_name lease" "lease_vsock_cid l = uint (lease_vsock_cid lease)"
    "lease_tap_device l = lease_tap_device lease" "lease_guest_ip l = lease_guest_ip lease"
    using lease by (auto simp: row_to_lease_def and_then_def get_u32_def ok_or_def
        split: sum.splits option.splits dest: try_u32_SomeD)
  have "insertable d r"
    using ins insert_vm_iff_insertable [OF ok, of rep r d1] by (simp add: insert_vm_def)
  with d' show thesis
    using that [of l] mem row match by simp
qed

text \<open>
  C25: A commit hands over exactly what was leased. \<open>commit_vm_from_host_resource_lease\<close> either
  changes nothing, or the VM record carries the leased generation, name, CID, TAP device and
  address, the lease was entered and its backend not destroyed, the lease and its evidence are
  gone, and no CID is returned or taken, so at every moment either the lease or the VM owns
  the CID.
\<close>

theorem commit_transfers_lease:
  assumes ok: "store_ok d"
    and run: "commit_vm_from_host_resource_lease_with_expiration rep r i e d = (x, d')"
  shows "(\<forall>err. x = Inl err \<longrightarrow> d' = d)
    \<and> (x = Inr () \<longrightarrow>
        (\<exists>l \<in> set (leases d). lease_id l = i \<and> lease_backend_entered l \<and> \<not> lease_vm_destroyed l
          \<and> lease_vm_id l = Some (vm_id r) \<and> lease_vm_name l = vm_name r
          \<and> lease_vsock_cid l = uint (vm_vsock_cid r) \<and> lease_tap_device l = vm_tap_device r
          \<and> lease_guest_ip l = vm_guest_ip r)
        \<and> (\<forall>l \<in> set (leases d'). lease_id l \<noteq> i) \<and> find_epoch i d' = None
        \<and> get_vm (vm_id r) d' = (Inr r, d')
        \<and> freed_cids d' = freed_cids d \<and> next_cid d' = next_cid d)"
proof (cases x)
  case (Inl err)
  have "all_or_nothing (commit_vm_from_host_resource_lease_with_expiration rep r i e)"
    unfolding commit_vm_from_host_resource_lease_with_expiration_def
    by (intro all_or_nothing_if all_or_nothing_err transaction_all_or_nothing)
  then show ?thesis using run Inl unfolding all_or_nothing_def by auto
next
  case (Inr u)
  then have run': "commit_vm_from_host_resource_lease_with_expiration rep r i e d = (Inr (), d')"
    using run by simp
  obtain l where l: "l \<in> set (leases d)" "lease_id l = i" "lease_backend_entered l"
    "\<not> lease_vm_destroyed l" "lease_vm_id l = Some (vm_id r)" "lease_vm_name l = vm_name r"
    "lease_vsock_cid l = uint (vm_vsock_cid r)" "lease_tap_device l = vm_tap_device r"
    "lease_guest_ip l = vm_guest_ip r" and new: "insertable d r"
    and d': "d' = d\<lparr>vms := vms d @ [vm_to_row r], expirations := expirations d',
       leases := delete_rows (\<lambda>l. lease_id l = i) (leases d),
       boot_epochs := delete_rows (\<lambda>e. epoch_lease_id e = i) (boot_epochs d)\<rparr>"
    by (rule commit_lease_ok [OF ok run'])
  have f: "vms d' = vms d @ [vm_to_row r]" "leases d' = delete_rows (\<lambda>l. lease_id l = i) (leases d)"
    "boot_epochs d' = delete_rows (\<lambda>e. epoch_lease_id e = i) (boot_epochs d)"
    "freed_cids d' = freed_cids d" "next_cid d' = next_cid d"
    by (subst d', simp)+
  have "find (\<lambda>q. vm_id q = vm_id r) (vms d) = None"
    using new by (auto simp: insertable_def find_None_iff)
  then have "get_vm (vm_id r) d' = (Inr r, d')"
    by (simp add: vm_catalog.get_answer row_answer_def f find_append_new row_to_vm_record_vm_to_row
        vm_to_row_def [THEN arg_cong, of vm_id])
  moreover have "find_epoch i d' = None"
    by (auto simp: find_epoch_def find_None_iff f table_simps)
  moreover have "\<forall>l \<in> set (leases d'). lease_id l \<noteq> i" by (auto simp: f table_simps)
  ultimately show ?thesis using Inr l f(4,5) by blast
qed

definition committed_vm :: VmRecord where
  "committed_vm = sample_vm\<lparr>vm_tap_device := None, vm_guest_ip := None\<rparr>"

theorem commit_transfers_lease_witness:
  "fst (get_vm 7 (snd (commit_vm_from_host_resource_lease_with_expiration hd committed_vm 50 None entered_db)))
    = Inr committed_vm"
proof -
  let ?x = "commit_vm_from_host_resource_lease_with_expiration hd committed_vm 50 None entered_db"
  have row: "row_to_lease ((lease_to_row sample_lease)\<lparr>lease_backend_entered := True\<rparr>)
      = Inr (sample_lease\<lparr>lease_backend_entered := True\<rparr>)"
    by (simp add: row_to_lease_def lease_to_row_def)
  have new: "insertable entered_db committed_vm"
    by (simp add: insertable_def entered_db_def leased_db_def committed_vm_def)
  have ins: "insert_vm_on hd committed_vm entered_db
      = (Inr (), entered_db\<lparr>vms := [vm_to_row committed_vm]\<rparr>)"
    using insert_vm_iff_insertable [OF entered_db_ok, of hd committed_vm] new
    by (simp add: insert_vm_def entered_db_def leased_db_def)
  have id: "vm_id committed_vm = 7" "vm_name committed_vm = ''web''" "vm_vsock_cid committed_vm = 3"
    "vm_tap_device committed_vm = None" "vm_guest_ip committed_vm = None"
    by (simp_all add: committed_vm_def sample_vm_def)
  have "fst ?x = Inr ()"
    using ins row
    by (simp add: commit_vm_from_host_resource_lease_with_expiration_def commit_leased_def
        lease_matches_def op_simps entered_db_def leased_db_def id)
      (simp add: lease_to_row_def sample_lease_def sql_delete_leases_def statement_def
        lease_released_without_proof_def id vm_to_row_def)
  then show ?thesis
    using commit_transfers_lease [OF entered_db_ok surjective_pairing, of hd committed_vm 50 None] id
    by simp
qed

end
