(* ===== verification/Job_Budget.thy ===== *)
theory Job_Budget
  imports Catalogs
begin

text \<open>
  The types of the execution journal and the factory's resource budget
  (\<open>crates/husker-state/src/jobs.rs\<close>, \<open>factory_limits\<close> of \<open>crates/husker-types/src/lib.rs\<close>).

  \<open>serde_json\<close> is used through the interface \<open>json\<close>: parsing, printing, member access and
  update. The budget is checked in wrapping 64-bit arithmetic guarded by \<open>checked_add\<close> and
  \<open>checked_mul\<close>; the lemmas compare it with sums of unbounded integers.
\<close>

record 'v json =
  json_from_str :: "string \<Rightarrow> 'v option"
  json_to_string :: "'v \<Rightarrow> string"
  json_is_object :: "'v \<Rightarrow> bool"
  json_index :: "'v \<Rightarrow> string \<Rightarrow> 'v"
  json_as_u64 :: "'v \<Rightarrow> u64 option"
  json_has :: "'v \<Rightarrow> string \<Rightarrow> bool"
  json_set :: "'v \<Rightarrow> string \<Rightarrow> 'v \<Rightarrow> 'v"
  json_remove :: "'v \<Rightarrow> string \<Rightarrow> 'v"
  json_of_string :: "string \<Rightarrow> 'v"
  json_of_bool :: "bool \<Rightarrow> 'v"

subsection \<open>Errors, states, records\<close>

datatype JournalError =
  JState StateError
| JDatabase sql_error
| JNotFound Uuid
| SubmissionNotFound
| Conflict string
| Capacity string
| Invalid string

datatype JobState =
  JobAccepted | JobPreparing | JobRunning | JobCompleted | JobCommandFailed
| JobInfrastructureFailed | JobInterrupted | JobCancelled | JobTimedOut | JobUnknown

definition terminal :: "JobState \<Rightarrow> bool" where
  "terminal s \<longleftrightarrow> s \<notin> {JobAccepted, JobPreparing, JobRunning}"

fun job_as_str :: "JobState \<Rightarrow> string" where
  "job_as_str JobAccepted = ''accepted''"
| "job_as_str JobPreparing = ''preparing''"
| "job_as_str JobRunning = ''running''"
| "job_as_str JobCompleted = ''completed''"
| "job_as_str JobCommandFailed = ''command_failed''"
| "job_as_str JobInfrastructureFailed = ''infrastructure_failed''"
| "job_as_str JobInterrupted = ''interrupted''"
| "job_as_str JobCancelled = ''cancelled''"
| "job_as_str JobTimedOut = ''timed_out''"
| "job_as_str JobUnknown = ''unknown''"

definition job_parse :: "string \<Rightarrow> sql_error + JobState" where
  "job_parse v =
     (if v = ''accepted'' then Inr JobAccepted
      else if v = ''preparing'' then Inr JobPreparing
      else if v = ''running'' then Inr JobRunning
      else if v = ''completed'' then Inr JobCompleted
      else if v = ''command_failed'' then Inr JobCommandFailed
      else if v = ''infrastructure_failed'' then Inr JobInfrastructureFailed
      else if v = ''interrupted'' then Inr JobInterrupted
      else if v = ''cancelled'' then Inr JobCancelled
      else if v = ''timed_out'' then Inr JobTimedOut
      else if v = ''unknown'' then Inr JobUnknown
      else Inl InvalidQuery)"

datatype CollectionState = CollPending | CollComplete | CollTruncated | CollFailed

fun collection_as_str :: "CollectionState \<Rightarrow> string" where
  "collection_as_str CollPending = ''pending''"
| "collection_as_str CollComplete = ''complete''"
| "collection_as_str CollTruncated = ''truncated''"
| "collection_as_str CollFailed = ''failed''"

definition collection_parse :: "string \<Rightarrow> sql_error + CollectionState" where
  "collection_parse v =
     (if v = ''pending'' then Inr CollPending
      else if v = ''complete'' then Inr CollComplete
      else if v = ''truncated'' then Inr CollTruncated
      else if v = ''failed'' then Inr CollFailed
      else Inl InvalidQuery)"

record JobRecord =
  rec_id :: Uuid
  rec_specification_digest :: string
  rec_specification :: string
  rec_state :: JobState
  rec_created_at :: int
  rec_deadline :: int
  rec_retention_until :: int
  rec_vm_id :: "Uuid option"
  rec_vm_name :: "string option"
  rec_session_id :: Uuid
  rec_capture_cursor :: nat
  rec_retained_bytes :: nat
  rec_output_truncated :: bool
  rec_collection :: CollectionState
  rec_manifest :: "string option"
  rec_cleanup_pending :: bool
  rec_vm_destroyed :: bool
  rec_vm_allocation_aborted :: bool

record JobEvent =
  event_sequence :: nat
  event_stream :: string
  event_data :: bytes

record JobArtifactRecord =
  artifact_record_index :: nat
  artifact_record_path :: string
  artifact_record_digest :: string
  artifact_record_size_bytes :: nat

record JobEventPage =
  page_job :: JobRecord
  page_events :: "JobEvent list"
  page_next_cursor :: nat
  page_has_more :: bool

lemma job_parse_as_str [simp]: "job_parse (job_as_str s) = Inr s"
  by (cases s) (simp_all add: job_parse_def)

lemma collection_parse_as_str [simp]: "collection_parse (collection_as_str c) = Inr c"
  by (cases c) (simp_all add: collection_parse_def)

lemma job_parse_Inr: "job_parse v = Inr s \<longleftrightarrow> v = job_as_str s"
  by (cases s) (auto simp: job_parse_def)

lemma collection_parse_Inr: "collection_parse v = Inr c \<longleftrightarrow> v = collection_as_str c"
  by (cases c) (auto simp: collection_parse_def)

lemma job_as_str_inject [simp]: "job_as_str s = job_as_str t \<longleftrightarrow> s = t"
  by (metis job_parse_Inr sum.inject(2))

lemma collection_as_str_inject [simp]: "collection_as_str s = collection_as_str t \<longleftrightarrow> s = t"
  by (metis collection_parse_Inr sum.inject(2))

lemma job_as_str_known: "job_as_str s \<in> set known_job_states" "job_as_str s \<noteq> ''deleted''"
  by (cases s; simp add: known_job_states_def)+

lemma collection_as_str_known: "collection_as_str c \<in> set known_collections"
  by (cases c) (simp_all add: known_collections_def)

lemma known_job_state_cases:
  "v \<in> set known_job_states \<Longrightarrow> v = ''deleted'' \<or> (\<exists>s. v = job_as_str s)"
  unfolding known_job_states_def by (auto intro: job_as_str.simps [symmetric])

lemma known_collection_cases: "v \<in> set known_collections \<Longrightarrow> \<exists>c. v = collection_as_str c"
  unfolding known_collections_def by (auto intro: collection_as_str.simps [symmetric])

subsection \<open>The budget\<close>

definition MAX_RETAINED_JOBS :: nat where "MAX_RETAINED_JOBS = 64"
definition MAX_ACTIVE_JOBS :: nat where "MAX_ACTIVE_JOBS = 16"
definition MAX_SUBMISSION_RECEIPTS :: nat where "MAX_SUBMISSION_RECEIPTS = 4096"
definition MAX_SPEC_BYTES :: nat where "MAX_SPEC_BYTES = 64 * 1024"
definition MAX_MANIFEST_BYTES :: nat where "MAX_MANIFEST_BYTES = 64 * 1024"
definition MAX_OUTPUT_BYTES :: nat where "MAX_OUTPUT_BYTES = 4 * 1024 * 1024"
definition MAX_EVENTS :: nat where "MAX_EVENTS = 4096"
definition MAX_EVENT_BYTES :: nat where "MAX_EVENT_BYTES = 8192"
definition EVENT_PAGE_SIZE :: nat where "EVENT_PAGE_SIZE = 128"
definition MAX_ARTIFACT_BYTES :: nat where "MAX_ARTIFACT_BYTES = 4 * 1024 * 1024"
definition MAX_ARTIFACT_TOTAL_BYTES :: nat where "MAX_ARTIFACT_TOTAL_BYTES = 16 * 1024 * 1024"
definition MAX_ARTIFACTS :: nat where "MAX_ARTIFACTS = 16"

definition KERNEL_BYTES :: u64 where "KERNEL_BYTES = 256 * 1024 * 1024"
definition INITRD_BYTES :: u64 where "INITRD_BYTES = 512 * 1024 * 1024"
definition SERIAL_BYTES :: u64 where "SERIAL_BYTES = 8 * 1024 * 1024"
definition SERIAL_STORAGE_BYTES :: u64 where "SERIAL_STORAGE_BYTES = 2 * SERIAL_BYTES"
definition JOURNAL_HEADROOM_PER_RECEIPT :: u64 where
  "JOURNAL_HEADROOM_PER_RECEIPT = 64 * 1024 * 1024"

record FactoryResourceBudget =
  max_jobs :: nat
  max_vcpus :: u64
  max_memory_mib :: u64
  memory_overhead_mib :: u32
  max_root_disk_bytes :: u64
  max_boot_storage_bytes :: u64
  min_free_storage_bytes :: u64

record FactoryAvailableStorage =
  shared_filesystem :: bool
  boot_bytes :: u64
  journal_bytes :: u64

definition validate :: "FactoryResourceBudget \<Rightarrow> JournalError + unit" where
  "validate b =
     (if \<not> (1 \<le> max_jobs b \<and> max_jobs b \<le> MAX_ACTIVE_JOBS) \<or> max_vcpus b = 0
        \<or> max_memory_mib b \<le> ucast (memory_overhead_mib b) \<or> max_root_disk_bytes b = 0
        \<or> max_boot_storage_bytes b = 0 \<or> min_free_storage_bytes b = 0
      then Inl (Invalid ''invalid factory resource budget'') else Inr ())"

definition resource :: "'v json \<Rightarrow> 'v \<Rightarrow> string \<Rightarrow> JournalError + u64" where
  "resource js resources name =
     (case json_as_u64 js (json_index js resources name) of
        Some n \<Rightarrow> if n > 0 then Inr n else Inl (Capacity ''unaccounted execution reservation'')
      | None \<Rightarrow> Inl (Capacity ''unaccounted execution reservation''))"

record reservation =
  cpus :: u64
  memory :: u64
  disks :: u64
  boot_storage :: u64

text \<open>One iteration of the loop of \<open>check\<close>, which ends with the four comparisons, and the loop.\<close>

definition below_limits :: "FactoryResourceBudget \<Rightarrow> reservation \<Rightarrow> JournalError + reservation" where
  "below_limits b t =
     (if cpus t > max_vcpus b then Inl (Capacity ''factory vCPU budget'')
      else if memory t > max_memory_mib b then Inl (Capacity ''factory memory budget'')
      else if disks t > max_root_disk_bytes b then Inl (Capacity ''factory root disk budget'')
      else if boot_storage t > max_boot_storage_bytes b
        then Inl (Capacity ''factory boot storage budget'')
      else Inr t)"

definition charge ::
  "'v json \<Rightarrow> FactoryResourceBudget \<Rightarrow> string \<Rightarrow> reservation \<Rightarrow> JournalError + reservation" where
  "charge js b specification t =
     and_then (ok_or (Capacity ''unaccounted execution reservation'') (json_from_str js specification))
       (\<lambda>value.
     let resources = json_index js value ''resources'' in
     and_then (resource js resources ''vcpu_count'') (\<lambda>vcpu.
     and_then (ok_or (Capacity ''factory vCPU budget'') (checked_add (cpus t) vcpu)) (\<lambda>c.
     and_then (resource js resources ''mem_size_mib'') (\<lambda>mem.
     and_then (ok_or (Capacity ''factory memory budget'')
         (Option.bind (checked_add (memory t) mem) (\<lambda>n. checked_add n (ucast (memory_overhead_mib b)))))
       (\<lambda>m.
     and_then (resource js resources ''disk_size_bytes'') (\<lambda>disk.
     and_then (ok_or (Capacity ''factory root disk budget'') (checked_add (disks t) disk)) (\<lambda>ds.
     and_then (ok_or (Capacity ''factory boot storage budget'')
         (Option.bind (checked_mul disk 2) (\<lambda>n.
          Option.bind (checked_add n (KERNEL_BYTES + INITRD_BYTES + SERIAL_STORAGE_BYTES)) (\<lambda>n.
          checked_add (boot_storage t) n)))) (\<lambda>bs.
     below_limits b \<lparr>cpus = c, memory = m, disks = ds, boot_storage = bs\<rparr>))))))))"

fun charge_all ::
  "'v json \<Rightarrow> FactoryResourceBudget \<Rightarrow> string list \<Rightarrow> reservation \<Rightarrow> JournalError + reservation" where
  "charge_all js b [] t = Inr t"
| "charge_all js b (s # ss) t = and_then (charge js b s t) (charge_all js b ss)"

definition check :: "'v json \<Rightarrow> FactoryResourceBudget \<Rightarrow> string list \<Rightarrow> JournalError + u64" where
  "check js b specifications =
     and_then (charge_all js b specifications \<lparr>cpus = 0, memory = 0, disks = 0, boot_storage = 0\<rparr>)
       (\<lambda>t. Inr (boot_storage t))"

text \<open>The storage part of \<open>accept_job_inner\<close>: what both filesystems must still have free.\<close>

definition admit_storage ::
  "FactoryResourceBudget \<Rightarrow> u64 \<Rightarrow> nat \<Rightarrow> FactoryAvailableStorage \<Rightarrow> JournalError + unit" where
  "admit_storage b needed retained storage =
     and_then (ok_or (Capacity ''factory storage headroom overflow'')
         (checked_add needed (min_free_storage_bytes b))) (\<lambda>boot_required.
     and_then (ok_or (Capacity ''factory journal headroom overflow'')
         (Option.bind (checked_add (of_nat retained) 1) (\<lambda>n.
          Option.bind (checked_mul n JOURNAL_HEADROOM_PER_RECEIPT) (\<lambda>n.
          checked_add n (min_free_storage_bytes b))))) (\<lambda>journal_required.
     and_then (if shared_filesystem storage
         then ok_or (Capacity ''factory storage headroom overflow'')
           (checked_add boot_required (journal_required - min_free_storage_bytes b))
         else Inr boot_required) (\<lambda>boot_required.
     let boot_available =
       (if shared_filesystem storage then min (boot_bytes storage) (journal_bytes storage)
        else boot_bytes storage) in
     if boot_available < boot_required then Inl (Capacity ''factory boot filesystem pressure'')
     else if journal_bytes storage < journal_required
       then Inl (Capacity ''factory journal filesystem pressure'')
     else Inr ())))"

subsection \<open>The budget in unbounded arithmetic\<close>

text \<open>What a specification asks for, when it accounts for every resource.\<close>

definition wanted :: "'v json \<Rightarrow> string \<Rightarrow> (u64 \<times> u64 \<times> u64) option" where
  "wanted js s =
     (case json_from_str js s of None \<Rightarrow> None
      | Some value \<Rightarrow>
          (let r = json_index js value ''resources'' in
           case (resource js r ''vcpu_count'', resource js r ''mem_size_mib'',
                 resource js r ''disk_size_bytes'') of
             (Inr c, Inr m, Inr k) \<Rightarrow> Some (c, m, k) | _ \<Rightarrow> None))"

definition accounted :: "'v json \<Rightarrow> string \<Rightarrow> bool" where
  "accounted js s \<longleftrightarrow> wanted js s \<noteq> None"

definition need_cpus :: "'v json \<Rightarrow> string \<Rightarrow> int" where
  "need_cpus js s = (case wanted js s of Some (c, m, k) \<Rightarrow> uint c | None \<Rightarrow> 0)"

definition need_memory :: "'v json \<Rightarrow> FactoryResourceBudget \<Rightarrow> string \<Rightarrow> int" where
  "need_memory js b s =
     (case wanted js s of Some (c, m, k) \<Rightarrow> uint m + uint (memory_overhead_mib b) | None \<Rightarrow> 0)"

definition need_disk :: "'v json \<Rightarrow> string \<Rightarrow> int" where
  "need_disk js s = (case wanted js s of Some (c, m, k) \<Rightarrow> uint k | None \<Rightarrow> 0)"

text \<open>Two root disks, the bounded kernel and initrd, and the serial log: 784 MiB of overhead.\<close>

definition need_boot :: "'v json \<Rightarrow> string \<Rightarrow> int" where
  "need_boot js s = (case wanted js s of Some (c, m, k) \<Rightarrow> 2 * uint k + 784 * 1024 * 1024 | None \<Rightarrow> 0)"

definition within_budget :: "FactoryResourceBudget \<Rightarrow> int \<Rightarrow> int \<Rightarrow> int \<Rightarrow> int \<Rightarrow> bool" where
  "within_budget b c m k n \<longleftrightarrow>
     c \<le> uint (max_vcpus b) \<and> m \<le> uint (max_memory_mib b) \<and> k \<le> uint (max_root_disk_bytes b)
     \<and> n \<le> uint (max_boot_storage_bytes b)"

lemma need_nonneg:
  "0 \<le> need_cpus js s" "0 \<le> need_memory js b s" "0 \<le> need_disk js s" "0 \<le> need_boot js s"
  by (auto simp: need_cpus_def need_memory_def need_disk_def need_boot_def split: option.splits)

lemma uint_boot_overhead: "uint (KERNEL_BYTES + INITRD_BYTES + SERIAL_STORAGE_BYTES) = 784 * 1024 * 1024"
  by (simp add: KERNEL_BYTES_def INITRD_BYTES_def SERIAL_STORAGE_BYTES_def SERIAL_BYTES_def)

lemma uint_u64_ex: "0 \<le> v \<Longrightarrow> v \<le> uint (w :: u64) \<Longrightarrow> \<exists>n :: u64. uint n = v"
  using uint_lt2p [of w] by (intro exI [of _ "word_of_int v"]) (simp add: uint_word_of_int)

lemma checked_add3:
  "Option.bind (checked_add a m) (\<lambda>n. checked_add n k) = Some r \<longleftrightarrow> uint r = uint a + uint m + uint k"
proof -
  have "\<exists>n :: u64. uint n = uint a + uint m" if "uint r = uint a + uint m + uint k"
    using that uint_u64_ex [of "uint a + uint m" r] by simp
  then show ?thesis by (simp add: bind_eq_Some_conv checked_add_Some) metis
qed

lemma checked_boot:
  "Option.bind (checked_mul k 2) (\<lambda>n. Option.bind (checked_add n m) (\<lambda>n. checked_add a n)) = Some r
    \<longleftrightarrow> uint r = uint a + (2 * uint k + uint m)"
proof -
  have "\<exists>(n :: u64) (x :: u64). uint x = uint k * 2 \<and> uint n = uint x + uint m"
    if "uint r = uint a + (2 * uint k + uint m)"
  proof -
    have "0 \<le> uint k" "0 \<le> uint m" "0 \<le> uint a" by simp_all
    then have "uint k * 2 \<le> uint r" "uint k * 2 + uint m \<le> uint r" "0 \<le> uint k * 2 + uint m"
      using that by linarith+
    then obtain x n :: u64 where "uint x = uint k * 2" "uint n = uint k * 2 + uint m"
      using uint_u64_ex [of "uint k * 2" r] uint_u64_ex [of "uint k * 2 + uint m" r] by force
    then show ?thesis by metis
  qed
  then show ?thesis
    by (simp add: bind_eq_Some_conv checked_add_Some checked_mul_Some) (metis mult.commute)
qed

lemma below_limits_Inr:
  "below_limits b t = Inr t' \<longleftrightarrow> t' = t
     \<and> within_budget b (uint (cpus t)) (uint (memory t)) (uint (disks t)) (uint (boot_storage t))"
  by (auto simp: below_limits_def within_budget_def word_less_def not_less)

lemma charge_accounted:
  assumes "wanted js s = Some (c, m, k)"
  shows "charge js b s t = Inr t' \<longleftrightarrow>
     uint (cpus t') = uint (cpus t) + uint c
     \<and> uint (memory t') = uint (memory t) + uint m + uint (memory_overhead_mib b)
     \<and> uint (disks t') = uint (disks t) + uint k
     \<and> uint (boot_storage t') = uint (boot_storage t) + (2 * uint k + 784 * 1024 * 1024)
     \<and> within_budget b (uint (cpus t')) (uint (memory t')) (uint (disks t')) (uint (boot_storage t'))"
    (is "_ \<longleftrightarrow> ?R")
proof -
  let ?over = "KERNEL_BYTES + INITRD_BYTES + SERIAL_STORAGE_BYTES"
  let ?mem = "Option.bind (checked_add (memory t) m) (\<lambda>n. checked_add n (ucast (memory_overhead_mib b)))"
  let ?boot = "Option.bind (checked_mul k 2) (\<lambda>n. Option.bind (checked_add n ?over)
     (\<lambda>n. checked_add (boot_storage t) n))"
  obtain v where v: "json_from_str js s = Some v"
    "resource js (json_index js v ''resources'') ''vcpu_count'' = Inr c"
    "resource js (json_index js v ''resources'') ''mem_size_mib'' = Inr m"
    "resource js (json_index js v ''resources'') ''disk_size_bytes'' = Inr k"
    using assms by (auto simp: wanted_def Let_def split: option.splits sum.splits)
  have ov: "uint (ucast (memory_overhead_mib b) :: u64) = uint (memory_overhead_mib b)"
    by (simp add: uint_up_ucast is_up)
  have ch: "charge js b s t = Inr t' \<longleftrightarrow>
      (\<exists>x. checked_add (cpus t) c = Some x \<and> (\<exists>y. ?mem = Some y \<and> (\<exists>z. checked_add (disks t) k = Some z
        \<and> (\<exists>w. ?boot = Some w
          \<and> below_limits b \<lparr>cpus = x, memory = y, disks = z, boot_storage = w\<rparr> = Inr t'))))"
    unfolding charge_def by (simp only: v Let_def ok_or_simps and_then_simps and_then_Inr ok_or_Inr)
  show ?thesis
  proof
    assume "charge js b s t = Inr t'"
    then obtain x y z w where xyzw: "checked_add (cpus t) c = Some x" "?mem = Some y"
      "checked_add (disks t) k = Some z" "?boot = Some w"
      "below_limits b \<lparr>cpus = x, memory = y, disks = z, boot_storage = w\<rparr> = Inr t'"
      unfolding ch by blast
    then show ?R
      by (simp add: checked_add_Some checked_add3 checked_boot below_limits_Inr ov uint_boot_overhead)
  next
    assume R: ?R
    then have "checked_add (cpus t) c = Some (cpus t')" "?mem = Some (memory t')"
      "checked_add (disks t) k = Some (disks t')" "?boot = Some (boot_storage t')"
      by (simp_all add: checked_add_Some checked_add3 checked_boot ov uint_boot_overhead)
    moreover have "below_limits b t' = Inr t'" using R unfolding below_limits_Inr by blast
    then have "below_limits b \<lparr>cpus = cpus t', memory = memory t', disks = disks t',
        boot_storage = boot_storage t'\<rparr> = Inr t'"
      by (cases t') simp
    ultimately show "charge js b s t = Inr t'" unfolding ch by blast
  qed
qed

lemma charge_unaccounted: "wanted js s = None \<Longrightarrow> charge js b s t \<noteq> Inr t'"
  unfolding charge_def wanted_def Let_def
  by (auto simp: and_then_def ok_or_def split: option.splits sum.splits)

lemma charge_exact:
  "charge js b s t = Inr t' \<longleftrightarrow>
     accounted js s \<and> uint (cpus t') = uint (cpus t) + need_cpus js s
     \<and> uint (memory t') = uint (memory t) + need_memory js b s
     \<and> uint (disks t') = uint (disks t) + need_disk js s
     \<and> uint (boot_storage t') = uint (boot_storage t) + need_boot js s
     \<and> within_budget b (uint (cpus t')) (uint (memory t')) (uint (disks t')) (uint (boot_storage t'))"
proof (cases "wanted js s")
  case None
  then show ?thesis using charge_unaccounted by (simp add: accounted_def)
next
  case (Some w)
  obtain c m k where w: "w = (c, m, k)" by (cases w)
  show ?thesis
    unfolding charge_accounted [OF Some [unfolded w]]
    by (simp add: Some w accounted_def need_cpus_def need_memory_def need_disk_def need_boot_def add.assoc)
qed

lemma reservation_ex:
  assumes "0 \<le> c" "0 \<le> m" "0 \<le> k" "0 \<le> n"
    "c \<le> uint (cpus t')" "m \<le> uint (memory t')" "k \<le> uint (disks t')" "n \<le> uint (boot_storage t')"
  shows "\<exists>t :: reservation. uint (cpus t) = c \<and> uint (memory t) = m \<and> uint (disks t) = k \<and> uint (boot_storage t) = n"
proof -
  obtain c' m' k' n' where "uint (c' :: u64) = c" "uint (m' :: u64) = m" "uint (k' :: u64) = k"
    "uint (n' :: u64) = n"
    using assms uint_u64_ex by metis
  then show ?thesis
    by (intro exI [of _ "\<lparr>cpus = c', memory = m', disks = k', boot_storage = n'\<rparr>"]) simp
qed

lemma needs_nonneg:
  "0 \<le> (\<Sum>s\<leftarrow>ss. need_cpus js s)" "0 \<le> (\<Sum>s\<leftarrow>ss. need_memory js b s)"
  "0 \<le> (\<Sum>s\<leftarrow>ss. need_disk js s)" "0 \<le> (\<Sum>s\<leftarrow>ss. need_boot js s)"
  by (rule sum_list_nonneg; auto simp: need_nonneg)+

lemma charge_all_exact:
  "charge_all js b ss t = Inr t' \<longleftrightarrow>
     list_all (accounted js) ss \<and> uint (cpus t') = uint (cpus t) + (\<Sum>s\<leftarrow>ss. need_cpus js s)
     \<and> uint (memory t') = uint (memory t) + (\<Sum>s\<leftarrow>ss. need_memory js b s)
     \<and> uint (disks t') = uint (disks t) + (\<Sum>s\<leftarrow>ss. need_disk js s)
     \<and> uint (boot_storage t') = uint (boot_storage t) + (\<Sum>s\<leftarrow>ss. need_boot js s)
     \<and> (ss \<noteq> [] \<longrightarrow> within_budget b (uint (cpus t')) (uint (memory t')) (uint (disks t'))
          (uint (boot_storage t')))"
proof (induction ss arbitrary: t)
  case Nil
  have "t = t' \<longleftrightarrow> cpus t' = cpus t \<and> memory t' = memory t \<and> disks t' = disks t
      \<and> boot_storage t' = boot_storage t"
    by (cases t; cases t') auto
  then have "t = t' \<longleftrightarrow> uint (cpus t') = uint (cpus t) \<and> uint (memory t') = uint (memory t)
      \<and> uint (disks t') = uint (disks t) \<and> uint (boot_storage t') = uint (boot_storage t)"
    by (simp add: word_uint_eq_iff)
  then show ?case by auto
next
  case (Cons s ss)
  let ?c = "uint (cpus t) + need_cpus js s" and ?m = "uint (memory t) + need_memory js b s"
  let ?k = "uint (disks t) + need_disk js s" and ?n = "uint (boot_storage t) + need_boot js s"
  note nonneg = need_nonneg(1,3,4) [of js s] need_nonneg(2) [of js b s]
    needs_nonneg(1,3,4) [where ss = ss and js = js]
    needs_nonneg(2) [where ss = ss and js = js and b = b]
  show ?case
  proof
    assume "charge_all js b (s # ss) t = Inr t'"
    then obtain t1 where "charge js b s t = Inr t1" "charge_all js b ss t1 = Inr t'"
      by (auto simp: and_then_Inr)
    then show "list_all (accounted js) (s # ss)
       \<and> uint (cpus t') = uint (cpus t) + (\<Sum>s\<leftarrow>s # ss. need_cpus js s)
       \<and> uint (memory t') = uint (memory t) + (\<Sum>s\<leftarrow>s # ss. need_memory js b s)
       \<and> uint (disks t') = uint (disks t) + (\<Sum>s\<leftarrow>s # ss. need_disk js s)
       \<and> uint (boot_storage t') = uint (boot_storage t) + (\<Sum>s\<leftarrow>s # ss. need_boot js s)
       \<and> (s # ss \<noteq> [] \<longrightarrow> within_budget b (uint (cpus t')) (uint (memory t')) (uint (disks t'))
            (uint (boot_storage t')))"
      unfolding charge_exact Cons.IH by (cases ss) auto
  next
    assume R: "list_all (accounted js) (s # ss)
       \<and> uint (cpus t') = uint (cpus t) + (\<Sum>s\<leftarrow>s # ss. need_cpus js s)
       \<and> uint (memory t') = uint (memory t) + (\<Sum>s\<leftarrow>s # ss. need_memory js b s)
       \<and> uint (disks t') = uint (disks t) + (\<Sum>s\<leftarrow>s # ss. need_disk js s)
       \<and> uint (boot_storage t') = uint (boot_storage t) + (\<Sum>s\<leftarrow>s # ss. need_boot js s)
       \<and> (s # ss \<noteq> [] \<longrightarrow> within_budget b (uint (cpus t')) (uint (memory t')) (uint (disks t'))
            (uint (boot_storage t')))"
    then have le: "?c \<le> uint (cpus t')" "?m \<le> uint (memory t')" "?k \<le> uint (disks t')"
      "?n \<le> uint (boot_storage t')"
      using nonneg by simp_all
    have "0 \<le> ?c" "0 \<le> ?m" "0 \<le> ?k" "0 \<le> ?n" using nonneg by simp_all
    from reservation_ex [OF this le] obtain t1 :: reservation where t1: "uint (cpus t1) = ?c"
      "uint (memory t1) = ?m" "uint (disks t1) = ?k" "uint (boot_storage t1) = ?n"
      by blast
    have lim: "within_budget b (uint (cpus t')) (uint (memory t')) (uint (disks t')) (uint (boot_storage t'))"
      using R by (elim conjE mp) simp
    with le have "within_budget b ?c ?m ?k ?n" unfolding within_budget_def by linarith
    then have "charge js b s t = Inr t1" using R t1 by (simp add: charge_exact)
    moreover have "charge_all js b ss t1 = Inr t'"
      unfolding Cons.IH using R t1 lim by (intro conjI impI) (simp_all only: list.map sum_list.Cons list.pred_inject add.assoc)
    ultimately show "charge_all js b (s # ss) t = Inr t'" by (simp add: and_then_Inr)
  qed
qed

lemma check_exact:
  "check js b ss = Inr boot \<longleftrightarrow>
     list_all (accounted js) ss
     \<and> within_budget b (\<Sum>s\<leftarrow>ss. need_cpus js s) (\<Sum>s\<leftarrow>ss. need_memory js b s)
         (\<Sum>s\<leftarrow>ss. need_disk js s) (\<Sum>s\<leftarrow>ss. need_boot js s)
     \<and> uint boot = (\<Sum>s\<leftarrow>ss. need_boot js s)"
proof -
  let ?none = "\<lparr>cpus = 0, memory = 0, disks = 0, boot_storage = 0\<rparr> :: reservation"
  have "within_budget b 0 0 0 0" by (simp add: within_budget_def)
  then have all: "charge_all js b ss ?none = Inr t \<longleftrightarrow>
     list_all (accounted js) ss
     \<and> uint (cpus t) = (\<Sum>s\<leftarrow>ss. need_cpus js s) \<and> uint (memory t) = (\<Sum>s\<leftarrow>ss. need_memory js b s)
     \<and> uint (disks t) = (\<Sum>s\<leftarrow>ss. need_disk js s) \<and> uint (boot_storage t) = (\<Sum>s\<leftarrow>ss. need_boot js s)
     \<and> within_budget b (\<Sum>s\<leftarrow>ss. need_cpus js s) (\<Sum>s\<leftarrow>ss. need_memory js b s)
         (\<Sum>s\<leftarrow>ss. need_disk js s) (\<Sum>s\<leftarrow>ss. need_boot js s)" for t
    unfolding charge_all_exact by (cases "ss = []") auto
  have "\<exists>t :: reservation. uint (cpus t) = (\<Sum>s\<leftarrow>ss. need_cpus js s)
       \<and> uint (memory t) = (\<Sum>s\<leftarrow>ss. need_memory js b s) \<and> uint (disks t) = (\<Sum>s\<leftarrow>ss. need_disk js s)
       \<and> uint (boot_storage t) = (\<Sum>s\<leftarrow>ss. need_boot js s)"
    if "within_budget b (\<Sum>s\<leftarrow>ss. need_cpus js s) (\<Sum>s\<leftarrow>ss. need_memory js b s)
         (\<Sum>s\<leftarrow>ss. need_disk js s) (\<Sum>s\<leftarrow>ss. need_boot js s)"
    by (rule reservation_ex [where t' = "\<lparr>cpus = max_vcpus b, memory = max_memory_mib b,
          disks = max_root_disk_bytes b, boot_storage = max_boot_storage_bytes b\<rparr>"])
      (use that needs_nonneg in \<open>auto simp: within_budget_def\<close>)
  then show ?thesis
    unfolding check_def and_then_Inr all by (auto simp: word_uint_eq_iff)
qed

text \<open>
  C33: The budget check is exact and free of overflow. \<open>check\<close> accepts a list of specifications
  exactly when each of them states its vCPUs, memory and disk, and the four totals, taken in
  unbounded arithmetic over all specifications and with the memory overhead, the second disk
  and the boot inputs charged per job, are within the budget. It then returns the total boot
  storage. Every case in which the 64-bit arithmetic would wrap is a refusal.
\<close>

theorem budget_check_exact:
  "check js b ss = Inr boot \<longleftrightarrow>
     list_all (accounted js) ss
     \<and> within_budget b (\<Sum>s\<leftarrow>ss. need_cpus js s) (\<Sum>s\<leftarrow>ss. need_memory js b s)
         (\<Sum>s\<leftarrow>ss. need_disk js s) (\<Sum>s\<leftarrow>ss. need_boot js s)
     \<and> uint boot = (\<Sum>s\<leftarrow>ss. need_boot js s)"
  by (rule check_exact)

lemma checked_headroom:
  assumes "retained < 2 ^ 32"
  shows "Option.bind (checked_add (of_nat retained) 1) (\<lambda>n.
      Option.bind (checked_mul n JOURNAL_HEADROOM_PER_RECEIPT) (\<lambda>n. checked_add n f)) = Some r
    \<longleftrightarrow> uint r = (int retained + 1) * (64 * 1024 * 1024) + uint f"
proof -
  have h: "uint JOURNAL_HEADROOM_PER_RECEIPT = 64 * 1024 * 1024"
    by (simp add: JOURNAL_HEADROOM_PER_RECEIPT_def)
  have r: "uint (of_nat retained :: u64) = int retained"
    using assms by (simp add: uint_nat unat_of_nat)
  have n: "uint (of_nat (Suc retained) :: u64) = int retained + 1"
    using assms by (simp only: uint_nat unat_of_nat) simp
  have "\<exists>m :: u64. uint m = (int retained + 1) * (64 * 1024 * 1024)"
    if "uint r = (int retained + 1) * (64 * 1024 * 1024) + uint f"
    using that by (intro uint_u64_ex [of _ r]) simp_all
  moreover have "checked_add (of_nat retained) 1 = Some (of_nat (Suc retained))"
    unfolding checked_add_Some n r by simp
  ultimately show ?thesis
    unfolding bind_eq_Some_conv checked_mul_Some checked_add_Some h
    by (metis n option.inject)
qed

lemma word_min: "uint (min a b) = min (uint a) (uint (b :: u64))"
  by (simp add: min_def word_le_def)

text \<open>
  C34: The storage reserve of an admission. A job is admitted exactly when the journal's
  filesystem has 64 MiB per retained receipt, the new one included, beyond the configured
  reserve, and the boot filesystem has the boot storage of all reservations beyond the
  reserve, a filesystem that serves both carrying the sum of the two. The comparison is the
  one of unbounded arithmetic: an overflow is a refusal, and the subtraction for a shared
  filesystem does not wrap.
\<close>

theorem storage_headroom_exact:
  assumes "retained < 2 ^ 32"
  shows "admit_storage b needed retained st = Inr () \<longleftrightarrow>
     (int retained + 1) * (64 * 1024 * 1024) + uint (min_free_storage_bytes b)
       \<le> uint (journal_bytes st)
     \<and> (if shared_filesystem st
        then uint needed + (int retained + 1) * (64 * 1024 * 1024) + uint (min_free_storage_bytes b)
          \<le> min (uint (boot_bytes st)) (uint (journal_bytes st))
        else uint needed + uint (min_free_storage_bytes b) \<le> uint (boot_bytes st))"
    (is "_ \<longleftrightarrow> ?h + ?r \<le> ?j \<and> ?boot")
proof
  assume "admit_storage b needed retained st = Inr ()"
  then obtain x j y where x: "uint x = uint needed + ?r" and j: "uint j = ?h + ?r"
    and y: "(if shared_filesystem st
         then ok_or (Capacity ''factory storage headroom overflow'')
           (checked_add x (j - min_free_storage_bytes b)) else Inr x) = Inr y"
    and lim: "(if (if shared_filesystem st then min (boot_bytes st) (journal_bytes st)
         else boot_bytes st) < y then Inl (Capacity ''factory boot filesystem pressure'')
       else if journal_bytes st < j then Inl (Capacity ''factory journal filesystem pressure'')
       else Inr ()) = Inr ()"
    unfolding admit_storage_def and_then_Inr ok_or_Inr checked_headroom [OF assms] checked_add_Some
      Let_def
    by blast
  have le: "y \<le> (if shared_filesystem st then min (boot_bytes st) (journal_bytes st)
        else boot_bytes st)" "j \<le> journal_bytes st"
    using lim by (metis Inl_Inr_False not_less)+
  have "uint (j - min_free_storage_bytes b) = ?h"
    using j uint_sub_lem [of "min_free_storage_bytes b" j] by simp
  then have "uint y = uint needed + ?r + (if shared_filesystem st then ?h else 0)"
    using y x by (cases "shared_filesystem st") (simp_all add: ok_or_Inr checked_add_Some)
  then show "?h + ?r \<le> ?j \<and> ?boot"
    using le j by (cases "shared_filesystem st") (simp_all add: word_le_def word_min)
next
  assume R: "?h + ?r \<le> ?j \<and> ?boot"
  have h0: "0 \<le> ?h" by simp
  obtain j :: u64 where j: "uint j = ?h + ?r" using R uint_u64_ex [of "?h + ?r" "journal_bytes st"] by auto
  have "uint needed + ?r \<le> uint (boot_bytes st)"
    using R h0 by (auto split: if_splits)
  then obtain x :: u64 where x: "uint x = uint needed + ?r"
    using uint_u64_ex [of "uint needed + ?r" "boot_bytes st"] by auto
  have sub: "uint (j - min_free_storage_bytes b) = ?h"
    using j uint_sub_lem [of "min_free_storage_bytes b" j] by simp
  obtain y :: u64 where y: "uint y = uint x + ?h" if "shared_filesystem st"
    using R x h0 uint_u64_ex [of "uint x + ?h" "boot_bytes st"] by (cases "shared_filesystem st") auto
  have xs: "checked_add needed (min_free_storage_bytes b) = Some x" using x by (simp add: checked_add_Some)
  note js = checked_headroom [OF assms, THEN iffD2, OF j]
  show "admit_storage b needed retained st = Inr ()"
  proof (cases "shared_filesystem st")
    case True
    have ys: "checked_add x (j - min_free_storage_bytes b) = Some y"
      using y [OF True] sub by (simp add: checked_add_Some)
    have "\<not> min (boot_bytes st) (journal_bytes st) < y" "\<not> journal_bytes st < j"
      using R True x j y [OF True] by (auto simp: word_less_def word_min)
    then show ?thesis
      unfolding admit_storage_def xs js ok_or_simps and_then_simps using True ys by (simp add: Let_def)
  next
    case False
    have "\<not> boot_bytes st < x" "\<not> journal_bytes st < j"
      using R False x j by (auto simp: word_less_def)
    then show ?thesis
      unfolding admit_storage_def xs js ok_or_simps and_then_simps using False by (simp add: Let_def)
  qed
qed

theorem storage_headroom_exact_witness:
  "admit_storage \<lparr>max_jobs = 2, max_vcpus = 8, max_memory_mib = 4096, memory_overhead_mib = 64,
       max_root_disk_bytes = 2 ^ 34, max_boot_storage_bytes = 2 ^ 35, min_free_storage_bytes = 4096\<rparr>
     (2 ^ 30) 3 \<lparr>shared_filesystem = True, boot_bytes = 2 ^ 31, journal_bytes = 2 ^ 32\<rparr> = Inr ()"
  by (subst storage_headroom_exact) simp_all

end
