(* ===== verification/Job_Journal.thy ===== *)
theory Job_Journal
  imports Job_Budget Leases
begin

text \<open>
  The execution journal (\<open>crates/husker-state/src/jobs.rs\<close>): acceptance, ownership of a VM,
  captured output, artifacts, the terminal result, cleanup and retention of a job.

  Parameters stand for what the code takes from elsewhere: \<open>sha\<close> is \<open>hex::encode\<close> of
  \<open>Sha256::digest\<close>, \<open>js\<close> is \<open>serde_json\<close>, \<open>hyphenated\<close> the text of a UUID, \<open>now\<close> is
  \<open>Utc::now()\<close>, and fresh UUIDs are arguments. A failed \<open>query_row(...)?\<close> or
  \<open>execute(...)?\<close> is \<open>JDatabase\<close>.
\<close>

type_synonym 'a journal_op = "(db, JournalError, 'a) op"

definition jdb_op :: "'a stmt \<Rightarrow> 'a journal_op" where
  [op_simps]: "jdb_op m = map_err JDatabase m"

definition jdb_val :: "sql_error + 'a \<Rightarrow> 'a journal_op" where
  [op_simps]: "jdb_val r = lift_result (map_sum JDatabase id r)"

lemma within_jdb_op [within_intros]: "within R m \<Longrightarrow> within R (jdb_op m)"
  by (simp add: jdb_op_def within_map_err)

lemma within_jdb_val [within_intros]: "preorder_on_states R \<Longrightarrow> within R (jdb_val r)"
  by (simp add: jdb_val_def within_lift_result)

definition bytes_of :: "string \<Rightarrow> bytes" where
  "bytes_of s = map of_char s"

subsection \<open>Reading a job\<close>

text \<open>\<open>row.get::<_, u32>\<close> on a counter column, widened afterwards.\<close>

definition get_counter :: "nat \<Rightarrow> nat \<Rightarrow> sql_error + nat" where
  "get_counter i v =
     (if int v < 2 ^ 32 then Inr v else Inl (IntegralValueOutOfRange i (int v)))"

definition read_record :: "job_row \<Rightarrow> sql_error + JobRecord" where
  "read_record row =
    and_then (ok_or (InvalidColumnType 2) (job_specification row)) (\<lambda>specification.
    and_then (job_parse (job_state row)) (\<lambda>state.
    and_then (get_counter 10 (job_capture_cursor row)) (\<lambda>cursor.
    and_then (get_counter 11 (job_retained_bytes row)) (\<lambda>retained.
    and_then (collection_parse (job_collection row)) (\<lambda>collection.
    Inr \<lparr>rec_id = job_id row, rec_specification_digest = job_spec_digest row,
      rec_specification = specification, rec_state = state, rec_created_at = job_created_at row,
      rec_deadline = job_deadline row, rec_retention_until = job_retention_until row,
      rec_vm_id = job_vm_id row, rec_vm_name = job_vm_name row,
      rec_session_id = job_session_id row, rec_capture_cursor = cursor,
      rec_retained_bytes = retained, rec_output_truncated = job_output_truncated row,
      rec_collection = collection, rec_manifest = job_manifest row,
      rec_cleanup_pending = job_cleanup_pending row, rec_vm_destroyed = job_vm_destroyed row,
      rec_vm_allocation_aborted = job_vm_allocation_aborted row\<rparr>)))))"

definition get_on :: "Uuid \<Rightarrow> JobRecord journal_op" where
  "get_on i =
     bind_op (query (\<lambda>d. find (\<lambda>j. job_id j = i \<and> job_state j \<noteq> ''deleted'') (jobs d))) (\<lambda>row.
     case row of None \<Rightarrow> err (JNotFound i) | Some j \<Rightarrow> jdb_val (read_record j))"

definition get_job :: "Uuid \<Rightarrow> JobRecord journal_op" where
  "get_job i = get_on i"

definition bounded_json :: "'v json \<Rightarrow> string \<Rightarrow> nat \<Rightarrow> JournalError + unit" where
  "bounded_json js value limit =
     (if length value > limit
        \<or> \<not> (case json_from_str js value of Some v \<Rightarrow> json_is_object js v | None \<Rightarrow> False)
      then Inl (Invalid ''expected a bounded JSON object'') else Inr ())"

subsection \<open>Acceptance\<close>

text \<open>The SQL condition of an execution reservation.\<close>

definition active_row :: "job_row \<Rightarrow> bool" where
  "active_row j \<longleftrightarrow>
     job_state j \<in> {''accepted'', ''preparing'', ''running''} \<or> job_cleanup_pending j"

definition check_budget ::
  "'v json \<Rightarrow> FactoryResourceBudget \<Rightarrow> JournalError + FactoryAvailableStorage \<Rightarrow> string \<Rightarrow> nat
    \<Rightarrow> nat \<Rightarrow> unit journal_op" where
  "check_budget js budget observed specification retained active =
     (if active \<ge> max_jobs budget then err (Capacity ''factory job budget'')
      else
        bind_op (query (\<lambda>d. map job_specification (filter active_row (jobs d)))) (\<lambda>column.
        bind_op (jdb_val (collect_results (map (ok_or (InvalidColumnType 0)) column))) (\<lambda>specifications.
        bind_op (lift_result (check js budget (specifications @ [specification]))) (\<lambda>needed.
        bind_op (lift_result observed) (\<lambda>storage.
        lift_result (admit_storage budget needed retained storage))))))"

definition new_job ::
  "Uuid \<Rightarrow> Uuid \<Rightarrow> string \<Rightarrow> string \<Rightarrow> string \<Rightarrow> DateTime \<Rightarrow> DateTime \<Rightarrow> DateTime \<Rightarrow> job_row" where
  "new_job i session key digest specification now deadline retention_until =
     \<lparr>job_id = i, job_submission_key = key, job_spec_digest = digest,
      job_specification = Some specification, job_state = ''accepted'',
      job_created_at = timestamp now, job_deadline = timestamp deadline,
      job_retention_until = timestamp retention_until, job_vm_id = None, job_vm_name = None,
      job_session_id = session, job_capture_cursor = 0, job_retained_bytes = 0,
      job_output_truncated = False, job_collection = ''pending'', job_manifest = None,
      job_cleanup_pending = False, job_vm_destroyed = False, job_vm_allocation_aborted = False\<rparr>"

definition invalid_key :: "string \<Rightarrow> bool" where
  "invalid_key key \<longleftrightarrow> key = [] \<or> length key > 128 \<or> any_control key"

definition spec_digest :: "(bytes \<Rightarrow> string) \<Rightarrow> bytes \<Rightarrow> string" where
  "spec_digest sha data = ''sha256:'' @ sha data"

text \<open>The branch of \<open>accept_job_inner\<close> for a key that has a receipt.\<close>

definition replay_job :: "string \<Rightarrow> DateTime \<Rightarrow> job_row \<Rightarrow> (JobRecord \<times> bool) journal_op" where
  "replay_job digest deadline old =
     (if job_state old = ''deleted''
        then err (Conflict ''evidence explicitly deleted; use a new key'')
      else if job_spec_digest old \<noteq> digest \<or> job_deadline old \<noteq> timestamp deadline
        then err (Conflict ''immutable specification or deadline changed'')
      else bind_op (get_on (job_id old)) (\<lambda>record. ok (record, False)))"

text \<open>The branch for a new key.\<close>

definition admit_job ::
  "reporter \<Rightarrow> 'v json \<Rightarrow> DateTime \<Rightarrow> Uuid \<Rightarrow> Uuid \<Rightarrow> string \<Rightarrow> string \<Rightarrow> string \<Rightarrow> DateTime \<Rightarrow> DateTime
    \<Rightarrow> (FactoryResourceBudget \<times> (JournalError + FactoryAvailableStorage)) option
    \<Rightarrow> (JobRecord \<times> bool) journal_op" where
  "admit_job rep js now new_id session key digest specification deadline retention_until budget =
     (if timestamp deadline \<le> timestamp now \<or> retention_until \<le> deadline
         \<or> retention_until > now + days 30
      then err (Invalid ''deadline must be future; retention must exceed deadline and be at most 30 days'')
      else
        bind_op (query (\<lambda>d. (length (jobs d), count_rows (\<lambda>j. job_state j \<noteq> ''deleted'') (jobs d),
            count_rows active_row (jobs d)))) (\<lambda>(receipts, retained, active).
        if receipts \<ge> MAX_SUBMISSION_RECEIPTS then err (Capacity ''submission receipts'')
        else if retained \<ge> MAX_RETAINED_JOBS then err (Capacity ''retained jobs'')
        else if active \<ge> MAX_ACTIVE_JOBS then err (Capacity ''active jobs'')
        else
          bind_op (case budget of None \<Rightarrow> ok ()
            | Some (b, observed) \<Rightarrow> check_budget js b observed specification retained active) (\<lambda>_.
          bind_op (jdb_op (sql_insert_jobs rep
            (new_job new_id session key digest specification now deadline retention_until))) (\<lambda>_.
          bind_op (get_on new_id) (\<lambda>record. ok (record, True))))))"

definition accept_job_inner ::
  "reporter \<Rightarrow> (bytes \<Rightarrow> string) \<Rightarrow> 'v json \<Rightarrow> DateTime \<Rightarrow> Uuid \<Rightarrow> Uuid \<Rightarrow> string \<Rightarrow> string
    \<Rightarrow> DateTime \<Rightarrow> DateTime \<Rightarrow> (FactoryResourceBudget \<times> (JournalError + FactoryAvailableStorage)) option
    \<Rightarrow> (JobRecord \<times> bool) journal_op" where
  "accept_job_inner rep sha js now new_id session key specification deadline retention_until budget =
     (if invalid_key key
      then err (Invalid (''submission key must be 1'' @ [CHR 0xE2, CHR 0x80, CHR 0x93]
        @ ''128 printable UTF-8 bytes''))
      else
        bind_op (lift_result (bounded_json js specification MAX_SPEC_BYTES)) (\<lambda>_.
        let digest = spec_digest sha (bytes_of specification) in
        transaction (
          bind_op (jdb_op (sql_delete_jobs
            (\<lambda>j. job_state j = ''deleted'' \<and> job_deadline j \<le> timestamp now))) (\<lambda>_.
          bind_op (query (\<lambda>d. find (\<lambda>j. job_submission_key j = key) (jobs d))) (\<lambda>old.
          case old of
            Some row \<Rightarrow> replay_job digest deadline row
          | None \<Rightarrow> admit_job rep js now new_id session key digest specification deadline
              retention_until budget)))))"

definition accept_job ::
  "reporter \<Rightarrow> (bytes \<Rightarrow> string) \<Rightarrow> 'v json \<Rightarrow> DateTime \<Rightarrow> Uuid \<Rightarrow> Uuid \<Rightarrow> string \<Rightarrow> string
    \<Rightarrow> DateTime \<Rightarrow> DateTime \<Rightarrow> (JobRecord \<times> bool) journal_op" where
  "accept_job rep sha js now new_id session key specification deadline retention_until =
     accept_job_inner rep sha js now new_id session key specification deadline retention_until None"

definition accept_job_with_budget ::
  "reporter \<Rightarrow> (bytes \<Rightarrow> string) \<Rightarrow> 'v json \<Rightarrow> DateTime \<Rightarrow> Uuid \<Rightarrow> Uuid \<Rightarrow> string \<Rightarrow> string
    \<Rightarrow> DateTime \<Rightarrow> DateTime \<Rightarrow> FactoryResourceBudget \<Rightarrow> JournalError + FactoryAvailableStorage
    \<Rightarrow> (JobRecord \<times> bool) journal_op" where
  "accept_job_with_budget rep sha js now new_id session key specification deadline retention_until
      budget observed =
     bind_op (lift_result (validate budget)) (\<lambda>_.
     accept_job_inner rep sha js now new_id session key specification deadline retention_until
       (Some (budget, observed)))"

definition find_job_submission :: "string \<Rightarrow> string \<Rightarrow> JobRecord journal_op" where
  "find_job_submission key expected =
     (if invalid_key key \<or> length expected \<noteq> 71 \<or> \<not> starts_with expected ''sha256:''
        \<or> \<not> list_all (\<lambda>c. c \<in> set ''0123456789abcdef'') (drop 7 expected)
      then err (Invalid ''invalid submission lookup identity'')
      else
        bind_op (query (\<lambda>d. find (\<lambda>j. job_submission_key j = key) (jobs d))) (\<lambda>found.
        case found of None \<Rightarrow> err SubmissionNotFound
        | Some row \<Rightarrow>
            if job_spec_digest row \<noteq> expected then err (Conflict ''immutable specification changed'')
            else if job_state row = ''deleted''
              then err (Conflict ''evidence deleted; submission tombstone retained'')
            else get_on (job_id row)))"

subsection \<open>Ownership of a VM\<close>

text \<open>The columns an \<open>UPDATE ... SET\<close> of a job names, with its \<open>WHERE\<close> and effect.\<close>

definition update_job ::
  "reporter \<Rightarrow> string list \<Rightarrow> (job_row \<Rightarrow> bool) \<Rightarrow> (job_row \<Rightarrow> job_row) \<Rightarrow> nat journal_op" where
  "update_job rep cols P f = jdb_op (sql_update_jobs rep cols P f)"

definition bind_on ::
  "reporter \<Rightarrow> DateTime \<Rightarrow> Uuid \<Rightarrow> Uuid \<Rightarrow> string \<Rightarrow> unit journal_op" where
  "bind_on rep now i vm name =
     (if name = [] \<or> length name > 255 \<or> any_control name then err (Invalid ''invalid VM name'')
      else
        bind_op (get_on i) (\<lambda>job.
        if rec_vm_allocation_aborted job
          then err (Conflict ''VM allocation was permanently aborted'')
        else case rec_vm_id job of
          Some bound \<Rightarrow>
            if bound \<noteq> vm \<or> rec_vm_name job \<noteq> Some name then err (Conflict ''VM generation changed'')
            else ok ()
        | None \<Rightarrow>
            bind_op
              (if rec_vm_name job \<noteq> None
               then (if rec_vm_name job \<noteq> Some name \<or> \<not> rec_cleanup_pending job
                     then err (Conflict ''VM reservation changed or released'') else ok ())
               else if rec_state job \<noteq> JobAccepted \<or> rec_deadline job \<le> timestamp now
                 then err (Conflict ''job is no longer accepting a VM'')
               else ok ()) (\<lambda>_.
            bind_op (query (\<lambda>d. \<exists>j \<in> set (jobs d). job_vm_id j = Some vm
                \<or> (job_vm_name j = Some name \<and> job_cleanup_pending j \<and> job_id j \<noteq> i))) (\<lambda>owned.
            if owned then err (Conflict ''VM is already owned by another job'')
            else
              bind_op (update_job rep [''vm_id'', ''vm_name'', ''state'', ''cleanup_pending'']
                (\<lambda>j. job_id j = i)
                (\<lambda>j. j\<lparr>job_vm_id := Some vm, job_vm_name := Some name,
                   job_state := (if job_state j = ''accepted'' then ''preparing'' else job_state j),
                   job_cleanup_pending := True\<rparr>)) (\<lambda>_. ok ())))))"

definition vm_name_of :: "(Uuid \<Rightarrow> string) \<Rightarrow> Uuid \<Rightarrow> string" where
  "vm_name_of hyphenated i = ''job-'' @ hyphenated i"

definition reserve_job_vm_inner ::
  "reporter \<Rightarrow> (Uuid \<Rightarrow> string) \<Rightarrow> DateTime \<Rightarrow> Uuid \<Rightarrow> bool \<Rightarrow> JobRecord journal_op" where
  "reserve_job_vm_inner rep hyphenated now i replay = transaction (
     bind_op (get_on i) (\<lambda>job.
     if rec_vm_name job \<noteq> None \<and> \<not> replay then err (Conflict ''allocation already claimed'')
     else
       bind_op
         (if rec_vm_name job = None then
            (if rec_state job \<noteq> JobAccepted \<or> rec_deadline job \<le> timestamp now
             then err (Conflict ''job is no longer accepting a VM'')
             else bind_op (update_job rep [''vm_name'', ''state'', ''cleanup_pending'']
               (\<lambda>j. job_id j = i)
               (\<lambda>j. j\<lparr>job_vm_name := Some (vm_name_of hyphenated i), job_state := ''preparing'',
                  job_cleanup_pending := True\<rparr>)) (\<lambda>_. ok ()))
          else ok ()) (\<lambda>_. get_on i)))"

definition reserve_job_vm ::
  "reporter \<Rightarrow> (Uuid \<Rightarrow> string) \<Rightarrow> DateTime \<Rightarrow> Uuid \<Rightarrow> JobRecord journal_op" where
  "reserve_job_vm rep hyphenated now i = reserve_job_vm_inner rep hyphenated now i True"

definition claim_job_vm ::
  "reporter \<Rightarrow> (Uuid \<Rightarrow> string) \<Rightarrow> DateTime \<Rightarrow> Uuid \<Rightarrow> JobRecord journal_op" where
  "claim_job_vm rep hyphenated now i = reserve_job_vm_inner rep hyphenated now i False"

definition bind_job_vm ::
  "reporter \<Rightarrow> DateTime \<Rightarrow> Uuid \<Rightarrow> Uuid \<Rightarrow> string \<Rightarrow> JobRecord journal_op" where
  "bind_job_vm rep now i vm name = transaction (bind_op (bind_on rep now i vm name) (\<lambda>_. get_on i))"

definition bind_job_vm_with_lease ::
  "reporter \<Rightarrow> HostBoot option \<Rightarrow> Uuid \<Rightarrow> DateTime \<Rightarrow> Uuid \<Rightarrow> Uuid \<Rightarrow> string
    \<Rightarrow> (JobRecord \<times> HostResourceLease) journal_op" where
  "bind_job_vm_with_lease rep current new_lease now i vm name = transaction (
     bind_op (get_on i) (\<lambda>job.
     if rec_vm_id job \<noteq> None then err (Conflict ''VM generation is already bound'')
     else
       bind_op (bind_on rep now i vm name) (\<lambda>_.
       bind_op (map_err JState (insert_host_resource_lease rep current new_lease now name (Some vm)))
         (\<lambda>lease.
       bind_op (get_on i) (\<lambda>job. ok (job, lease))))))"

definition mark_job_running :: "reporter \<Rightarrow> DateTime \<Rightarrow> Uuid \<Rightarrow> unit journal_op" where
  "mark_job_running rep now i =
     bind_op (update_job rep [''state'']
       (\<lambda>j. job_id j = i \<and> job_state j = ''preparing'' \<and> job_vm_id j \<noteq> None
          \<and> \<not> job_vm_destroyed j \<and> \<not> job_vm_allocation_aborted j \<and> job_deadline j > timestamp now)
       (\<lambda>j. j\<lparr>job_state := ''running''\<rparr>)) (\<lambda>changed.
     if changed = 0 then
       bind_op (get_on i) (\<lambda>job.
       if rec_state job \<noteq> JobRunning \<or> rec_vm_destroyed job \<or> rec_vm_allocation_aborted job
       then err (Conflict ''job cannot enter running state'') else ok ())
     else ok ())"

subsection \<open>Captured output\<close>

record capture =
  cap_cursor :: nat
  cap_bytes :: nat
  cap_truncated :: bool
  cap_dropped :: bool

definition invalid_event :: "JobEvent \<Rightarrow> bool" where
  "invalid_event e \<longleftrightarrow>
     event_sequence e = 0 \<or> event_sequence e > MAX_EVENTS \<or> event_data e = []
     \<or> length (event_data e) > MAX_EVENT_BYTES \<or> event_stream e \<notin> {''stdout'', ''stderr''}"

text \<open>One iteration of the loop of \<open>append_job_events\<close>, and the loop.\<close>

definition append_event ::
  "reporter \<Rightarrow> (bytes \<Rightarrow> string) \<Rightarrow> Uuid \<Rightarrow> JobEvent \<Rightarrow> capture \<Rightarrow> capture journal_op" where
  "append_event rep sha i e c =
     (if invalid_event e then err (Invalid ''invalid event sequence, stream or size'')
      else
        let digest = sha (event_data e) in
        if event_sequence e \<le> cap_cursor c then
          bind_op (query (\<lambda>d. find (\<lambda>r. ev_job_id r = i \<and> ev_sequence r = event_sequence e)
              (job_events d))) (\<lambda>old.
          if map_option (\<lambda>r. (ev_stream r, ev_digest r)) old \<noteq> Some (event_stream e, digest)
          then err (Conflict ''guest event replay changed'') else ok c)
        else if event_sequence e \<noteq> cap_cursor c + 1 then err (Invalid ''event cursor has a gap'')
        else
          let keep = (\<not> cap_dropped c \<and> cap_bytes c + length (event_data e) \<le> MAX_OUTPUT_BYTES) in
          bind_op (jdb_op (sql_insert_job_events rep
            \<lparr>ev_job_id = i, ev_sequence = event_sequence e, ev_stream = event_stream e,
             ev_digest = digest, ev_data = (if keep then Some (event_data e) else None)\<rparr>)) (\<lambda>_.
          ok \<lparr>cap_cursor = event_sequence e,
              cap_bytes = (if keep then cap_bytes c + length (event_data e) else cap_bytes c),
              cap_truncated = (if keep then cap_truncated c else True),
              cap_dropped = (if keep then cap_dropped c else True)\<rparr>))"

fun append_events ::
  "reporter \<Rightarrow> (bytes \<Rightarrow> string) \<Rightarrow> Uuid \<Rightarrow> JobEvent list \<Rightarrow> capture \<Rightarrow> capture journal_op" where
  "append_events rep sha i [] c = ok c"
| "append_events rep sha i (e # es) c =
     bind_op (append_event rep sha i e c) (append_events rep sha i es)"

definition append_job_events ::
  "reporter \<Rightarrow> (bytes \<Rightarrow> string) \<Rightarrow> Uuid \<Rightarrow> JobEvent list \<Rightarrow> bool \<Rightarrow> unit journal_op" where
  "append_job_events rep sha i events guest_truncated =
     (if length events > EVENT_PAGE_SIZE then err (Invalid ''event batch exceeds page limit'')
      else transaction (
        bind_op (get_on i) (\<lambda>job.
        if rec_collection job \<noteq> CollPending then err (Conflict ''evidence collection is sealed'')
        else
          bind_op (query (\<lambda>d. \<exists>r \<in> set (job_events d). ev_job_id r = i \<and> ev_data r = None)) (\<lambda>dropped.
          bind_op (append_events rep sha i events
            \<lparr>cap_cursor = rec_capture_cursor job, cap_bytes = rec_retained_bytes job,
             cap_truncated = (rec_output_truncated job \<or> guest_truncated), cap_dropped = dropped\<rparr>) (\<lambda>c.
          bind_op (update_job rep [''capture_cursor'', ''retained_bytes'', ''output_truncated'']
            (\<lambda>j. job_id j = i)
            (\<lambda>j. j\<lparr>job_capture_cursor := cap_cursor c, job_retained_bytes := cap_bytes c,
               job_output_truncated := cap_truncated c\<rparr>)) (\<lambda>_. ok ()))))))"

definition events_after :: "Uuid \<Rightarrow> nat \<Rightarrow> db \<Rightarrow> JobEvent list" where
  "events_after i after d =
     map (\<lambda>r. \<lparr>event_sequence = ev_sequence r, event_stream = ev_stream r, event_data = the (ev_data r)\<rparr>)
       (sort_key ev_sequence
         (filter (\<lambda>r. ev_job_id r = i \<and> ev_sequence r > after \<and> ev_data r \<noteq> None) (job_events d)))"

definition job_events_page :: "Uuid \<Rightarrow> nat \<Rightarrow> JobEventPage journal_op" where
  "job_events_page i after =
     (if after > MAX_EVENTS then err (Invalid ''event cursor exceeds limit'')
      else
        bind_op (get_on i) (\<lambda>job.
        bind_op (query (\<lambda>d. take (EVENT_PAGE_SIZE + 1) (events_after i after d))) (\<lambda>events.
        let has_more = length events > EVENT_PAGE_SIZE;
            events = take EVENT_PAGE_SIZE events;
            next_cursor =
              (if has_more then (if events = [] then after else event_sequence (last events))
               else max after (rec_capture_cursor job)) in
        ok \<lparr>page_job = job, page_events = events, page_next_cursor = next_cursor,
            page_has_more = has_more\<rparr>)))"

subsection \<open>Manifest and artifacts\<close>

definition stage_job_manifest :: "reporter \<Rightarrow> 'v json \<Rightarrow> Uuid \<Rightarrow> string \<Rightarrow> unit journal_op" where
  "stage_job_manifest rep js i manifest =
     bind_op (lift_result (bounded_json js manifest MAX_MANIFEST_BYTES)) (\<lambda>_.
     transaction (
       bind_op (get_on i) (\<lambda>job.
       if rec_state job \<noteq> JobRunning \<or> rec_collection job \<noteq> CollPending
         then err (Conflict ''manifest collection is not active'')
       else if (case rec_manifest job of Some old \<Rightarrow> old \<noteq> manifest | None \<Rightarrow> False)
         then err (Conflict ''staged guest manifest changed'')
       else
         bind_op (update_job rep [''manifest''] (\<lambda>j. job_id j = i)
           (\<lambda>j. j\<lparr>job_manifest := Some manifest\<rparr>)) (\<lambda>_. ok ()))))"

definition invalid_artifact :: "nat \<Rightarrow> string \<Rightarrow> bytes \<Rightarrow> bool" where
  "invalid_artifact index path data \<longleftrightarrow>
     index \<ge> MAX_ARTIFACTS \<or> length data > MAX_ARTIFACT_BYTES \<or> path = [] \<or> length path > 255
     \<or> CHR 0x5C \<in> set path \<or> any_control path
     \<or> (\<exists>part \<in> set (split_on (CHR ''/'') path). part \<in> {[], ''.'', ''..''})"

definition artifacts_of :: "Uuid \<Rightarrow> db \<Rightarrow> artifact_row list" where
  "artifacts_of i d = filter (\<lambda>a. art_job_id a = i) (job_artifacts d)"

text \<open>The decision of \<open>retain_job_artifact\<close>: a replay, or a new artifact.\<close>

definition keep_artifact ::
  "reporter \<Rightarrow> artifact_row \<Rightarrow> JobRecord \<Rightarrow> artifact_row option \<Rightarrow> unit journal_op" where
  "keep_artifact rep new job old =
     (case old of
        Some a \<Rightarrow>
          if (art_path a, art_digest a, art_data a) \<noteq> (art_path new, art_digest new, art_data new)
          then err (Conflict ''retained artifact replay changed'') else ok ()
      | None \<Rightarrow>
          if rec_state job \<noteq> JobRunning \<or> rec_collection job \<noteq> CollPending
            then err (Conflict ''artifact collection is not active'')
          else
            bind_op (query (\<lambda>d. \<Sum>a\<leftarrow>artifacts_of (art_job_id new) d. length (art_data a))) (\<lambda>sum.
            bind_op (jdb_val (get_counter 0 sum)) (\<lambda>total.
            if total + length (art_data new) > MAX_ARTIFACT_TOTAL_BYTES
              then err (Capacity ''artifact total exceeds 16 MiB'')
            else
              bind_op (query (\<lambda>d. \<exists>a \<in> set (job_artifacts d).
                  art_job_id a = art_job_id new \<and> art_path a = art_path new)) (\<lambda>path_exists.
              if path_exists then err (Conflict ''artifact path already retained'')
              else jdb_op (sql_insert_job_artifacts rep new)))))"

definition retain_job_artifact ::
  "reporter \<Rightarrow> (bytes \<Rightarrow> string) \<Rightarrow> Uuid \<Rightarrow> nat \<Rightarrow> string \<Rightarrow> string \<Rightarrow> bytes
    \<Rightarrow> JobArtifactRecord journal_op" where
  "retain_job_artifact rep sha i index path expected data =
     (if invalid_artifact index path data
        then err (Invalid ''invalid artifact path, index or size'')
      else if spec_digest sha data \<noteq> expected then err (Invalid ''artifact digest mismatch'')
      else transaction (
        bind_op (get_on i) (\<lambda>job.
        bind_op (query (\<lambda>d. find (\<lambda>a. art_job_id a = i \<and> art_index a = index) (job_artifacts d))) (\<lambda>old.
        bind_op (keep_artifact rep \<lparr>art_job_id = i, art_index = index, art_path = path,
            art_digest = spec_digest sha data, art_data = data\<rparr> job old) (\<lambda>_.
        ok \<lparr>artifact_record_index = index, artifact_record_path = path,
            artifact_record_digest = spec_digest sha data,
            artifact_record_size_bytes = length data\<rparr>)))))"

definition artifact_row_record :: "artifact_row \<Rightarrow> JobArtifactRecord" where
  "artifact_row_record a =
     \<lparr>artifact_record_index = art_index a, artifact_record_path = art_path a,
      artifact_record_digest = art_digest a, artifact_record_size_bytes = length (art_data a)\<rparr>"

definition job_artifacts_list :: "Uuid \<Rightarrow> JobArtifactRecord list journal_op" where
  "job_artifacts_list i =
     bind_op (get_on i) (\<lambda>_.
     query (\<lambda>d. map artifact_row_record (sort_key art_index (artifacts_of i d))))"

definition job_artifact :: "Uuid \<Rightarrow> nat \<Rightarrow> bytes journal_op" where
  "job_artifact i index =
     (if index \<ge> MAX_ARTIFACTS then err (Invalid ''artifact index exceeds limit'')
      else
        bind_op (get_on i) (\<lambda>_.
        bind_op (query (\<lambda>d. find (\<lambda>a. art_job_id a = i \<and> art_index a = index) (job_artifacts d))) (\<lambda>row.
        case row of None \<Rightarrow> err (Invalid ''artifact not retained'') | Some a \<Rightarrow> ok (art_data a))))"

subsection \<open>The terminal result\<close>

text \<open>The envelope of a host failure, with the staged guest receipt merged in.\<close>

definition merge_receipt ::
  "(bytes \<Rightarrow> string) \<Rightarrow> 'v json \<Rightarrow> string \<Rightarrow> string option \<Rightarrow> JournalError + string" where
  "merge_receipt sha js manifest staged =
     and_then (ok_or (Invalid ''invalid failure envelope'') (json_from_str js manifest)) (\<lambda>envelope.
     case staged of None \<Rightarrow> Inr (json_to_string js envelope)
     | Some text \<Rightarrow>
         and_then (ok_or (Invalid ''staged guest receipt is unreadable'') (json_from_str js text)) (\<lambda>guest.
         let merged = json_set js envelope ''guest_result'' guest in
         Inr (json_to_string js
           (if length (json_to_string js merged) > MAX_MANIFEST_BYTES
            then json_set js (json_set js (json_remove js merged ''guest_result'')
                ''guest_result_sha256'' (json_of_string js (spec_digest sha (bytes_of text))))
              ''guest_result_body_truncated'' (json_of_bool js True)
            else merged))))"

text \<open>The decision of \<open>finish_job_inner\<close> on the job as read.\<close>

definition publish_result ::
  "reporter \<Rightarrow> (bytes \<Rightarrow> string) \<Rightarrow> 'v json \<Rightarrow> Uuid \<Rightarrow> JobState \<Rightarrow> CollectionState \<Rightarrow> string \<Rightarrow> bool
    \<Rightarrow> JobRecord \<Rightarrow> unit journal_op" where
  "publish_result rep sha js i state collection manifest preserve_staged old =
     (if terminal (rec_state old) then
        (if preserve_staged then err (Conflict ''terminal evidence is immutable'')
         else if rec_state old \<noteq> state \<or> rec_collection old \<noteq> collection
             \<or> rec_manifest old \<noteq> Some manifest
           then err (Conflict ''terminal evidence is immutable'')
         else ok ())
      else if state \<in> {JobCompleted, JobCommandFailed} \<and> rec_state old \<noteq> JobRunning
        then err (Conflict ''unexecuted job cannot publish command completion'')
      else if rec_output_truncated old \<and> collection = CollComplete
        then err (Invalid ''truncated logs cannot be marked complete'')
      else
        bind_op (lift_result (if preserve_staged
            then merge_receipt sha js manifest (rec_manifest old) else Inr manifest)) (\<lambda>manifest.
        bind_op (lift_result (bounded_json js manifest MAX_MANIFEST_BYTES)) (\<lambda>_.
        bind_op (update_job rep [''state'', ''collection'', ''manifest''] (\<lambda>j. job_id j = i)
          (\<lambda>j. j\<lparr>job_state := job_as_str state, job_collection := collection_as_str collection,
             job_manifest := Some manifest\<rparr>)) (\<lambda>_. ok ()))))"

definition finish_job_inner ::
  "reporter \<Rightarrow> (bytes \<Rightarrow> string) \<Rightarrow> 'v json \<Rightarrow> Uuid \<Rightarrow> JobState \<Rightarrow> CollectionState \<Rightarrow> string \<Rightarrow> bool
    \<Rightarrow> JobRecord journal_op" where
  "finish_job_inner rep sha js i state collection manifest preserve_staged =
     (if \<not> terminal state \<or> collection = CollPending
      then err (Invalid ''terminal result and explicit collection status required'')
      else
        bind_op (lift_result (bounded_json js manifest MAX_MANIFEST_BYTES)) (\<lambda>_.
        transaction (
          bind_op (get_on i) (\<lambda>old.
          bind_op (publish_result rep sha js i state collection manifest preserve_staged old) (\<lambda>_.
          get_on i)))))"

definition finish_job ::
  "reporter \<Rightarrow> (bytes \<Rightarrow> string) \<Rightarrow> 'v json \<Rightarrow> Uuid \<Rightarrow> JobState \<Rightarrow> CollectionState \<Rightarrow> string
    \<Rightarrow> JobRecord journal_op" where
  "finish_job rep sha js i state collection manifest =
     finish_job_inner rep sha js i state collection manifest False"

definition finish_job_failure ::
  "reporter \<Rightarrow> (bytes \<Rightarrow> string) \<Rightarrow> 'v json \<Rightarrow> Uuid \<Rightarrow> JobState \<Rightarrow> string \<Rightarrow> JobRecord journal_op" where
  "finish_job_failure rep sha js i state envelope =
     (if state \<in> {JobCompleted, JobCommandFailed}
      then err (Invalid ''host failure cannot publish a command result'')
      else
        bind_op (lift_result (bounded_json js envelope MAX_MANIFEST_BYTES)) (\<lambda>_.
        bind_op (lift_result (ok_or (Invalid ''invalid failure envelope'') (json_from_str js envelope)))
          (\<lambda>value.
        if list_ex (json_has js value)
            [''guest_result'', ''guest_result_sha256'', ''guest_result_body_truncated'']
          then err (Invalid ''guest receipt fields are journal-owned'')
        else finish_job_inner rep sha js i state CollFailed envelope True)))"

subsection \<open>Cleanup\<close>

definition job_for_pending_vm_name :: "string \<Rightarrow> JobRecord option journal_op" where
  "job_for_pending_vm_name name =
     bind_op (query (\<lambda>d. find (\<lambda>j. job_vm_name j = Some name \<and> job_cleanup_pending j) (jobs d)))
       (\<lambda>row. jdb_val (traverse_option read_record row))"

definition job_for_vm :: "Uuid \<Rightarrow> JobRecord option journal_op" where
  "job_for_vm vm =
     bind_op (query (\<lambda>d. find (\<lambda>j. job_vm_id j = Some vm \<and> job_state j \<noteq> ''deleted'') (jobs d)))
       (\<lambda>row. jdb_val (traverse_option read_record row))"

definition record_job_vm_destruction :: "reporter \<Rightarrow> Uuid \<Rightarrow> unit journal_op" where
  "record_job_vm_destruction rep vm =
     bind_op (update_job rep [''vm_destroyed''] (\<lambda>j. job_vm_id j = Some vm)
       (\<lambda>j. j\<lparr>job_vm_destroyed := True\<rparr>)) (\<lambda>_. ok ())"

definition abortable_states :: "string list" where
  "abortable_states = [''preparing'', ''infrastructure_failed'', ''interrupted'', ''cancelled'',
     ''timed_out'', ''unknown'']"

text \<open>\<open>if changed == 0 { get_on(&conn, id)?; return Err(...) }\<close>\<close>

definition changed_or :: "Uuid \<Rightarrow> JournalError \<Rightarrow> nat \<Rightarrow> unit journal_op" where
  "changed_or i e changed =
     (if changed = 0 then bind_op (get_on i) (\<lambda>_. err e) else ok ())"

definition record_job_vm_allocation_abort :: "reporter \<Rightarrow> Uuid \<Rightarrow> Uuid \<Rightarrow> unit journal_op" where
  "record_job_vm_allocation_abort rep i vm =
     bind_op (update_job rep [''vm_allocation_aborted'']
       (\<lambda>j. job_id j = i \<and> job_vm_id j = Some vm \<and> \<not> job_vm_destroyed j \<and> job_cleanup_pending j
          \<and> job_state j \<in> set abortable_states)
       (\<lambda>j. j\<lparr>job_vm_allocation_aborted := True\<rparr>))
     (changed_or i (Conflict ''allocation abort ownership or state mismatch''))"

definition record_job_leased_prebackend_abort ::
  "reporter \<Rightarrow> (Uuid \<Rightarrow> string) \<Rightarrow> Uuid \<Rightarrow> Uuid \<Rightarrow> Uuid \<Rightarrow> unit journal_op" where
  "record_job_leased_prebackend_abort rep hyphenated i vm lease = transaction (
     bind_op (get_on i) (\<lambda>job.
     let name = vm_name_of hyphenated i in
     if rec_vm_id job \<noteq> Some vm \<or> rec_vm_name job \<noteq> Some name \<or> rec_vm_destroyed job
        \<or> \<not> rec_cleanup_pending job
        \<or> rec_state job \<notin> {JobPreparing, JobInfrastructureFailed, JobInterrupted, JobCancelled,
            JobTimedOut, JobUnknown}
     then err (Conflict ''pre-backend abort job ownership mismatch'')
     else
       bind_op (query (\<lambda>d. (\<exists>r \<in> set (vms d). vm_id r = vm \<or> vm_name r = name)
          \<or> (\<exists>l \<in> set (leases d). lease_id l \<noteq> lease
               \<and> (lease_vm_id l = Some vm \<or> lease_vm_name l = name)))) (\<lambda>has_conflict.
       bind_op (if has_conflict then ok 0
         else jdb_op (sql_update_leases rep [''allocation_aborted'']
           (\<lambda>l. lease_id l = lease \<and> lease_vm_name l = name \<and> lease_vm_id l = Some vm
              \<and> \<not> lease_backend_entered l \<and> \<not> lease_vm_destroyed l)
           (\<lambda>l. l\<lparr>lease_allocation_aborted := True\<rparr>))) (\<lambda>fenced.
       if fenced \<noteq> 1 then err (Conflict ''exact unentered creation lease required'')
       else
         bind_op (update_job rep [''vm_allocation_aborted''] (\<lambda>j. job_id j = i)
           (\<lambda>j. j\<lparr>job_vm_allocation_aborted := True\<rparr>)) (\<lambda>_. ok ())))))"

definition ended_row :: "job_row \<Rightarrow> bool" where
  "ended_row j \<longleftrightarrow> job_state j \<notin> {''accepted'', ''preparing'', ''running'', ''deleted''}"

definition confirm_job_cleanup :: "reporter \<Rightarrow> Uuid \<Rightarrow> Uuid \<Rightarrow> unit journal_op" where
  "confirm_job_cleanup rep i vm =
     bind_op (update_job rep [''cleanup_pending'']
       (\<lambda>j. job_id j = i \<and> job_vm_id j = Some vm
          \<and> (job_vm_destroyed j \<or> job_vm_allocation_aborted j) \<and> ended_row j)
       (\<lambda>j. j\<lparr>job_cleanup_pending := False\<rparr>))
     (changed_or i (Conflict ''cleanup generation or terminal state mismatch''))"

definition confirm_unallocated_job_cleanup :: "reporter \<Rightarrow> Uuid \<Rightarrow> string \<Rightarrow> unit journal_op" where
  "confirm_unallocated_job_cleanup rep i name =
     bind_op (update_job rep [''cleanup_pending'']
       (\<lambda>j. job_id j = i \<and> job_vm_id j = None \<and> job_vm_name j = Some name \<and> ended_row j)
       (\<lambda>j. j\<lparr>job_cleanup_pending := False\<rparr>))
     (changed_or i (Conflict ''unallocated cleanup ownership or terminal state mismatch''))"

definition recoverable_jobs :: "(Uuid \<Rightarrow> string) \<Rightarrow> JobRecord list journal_op" where
  "recoverable_jobs hyphenated =
     bind_op (query (\<lambda>d. sort_key job_created_at (sort_key (\<lambda>j. hyphenated (job_id j))
       (filter active_row (jobs d))))) (\<lambda>rows.
     jdb_val (collect_results (map read_record rows)))"

subsection \<open>Retention\<close>

definition delete_job_evidence :: "reporter \<Rightarrow> Uuid \<Rightarrow> unit journal_op" where
  "delete_job_evidence rep i = transaction (
     bind_op (get_on i) (\<lambda>job.
     if \<not> terminal (rec_state job) \<or> rec_cleanup_pending job
       then err (Conflict ''active execution or unconfirmed VM cleanup'')
     else
       bind_op (jdb_op (sql_delete_job_artifacts (\<lambda>a. art_job_id a = i))) (\<lambda>_.
       bind_op (jdb_op (sql_delete_job_events (\<lambda>e. ev_job_id e = i))) (\<lambda>_.
       bind_op (update_job rep
         [''state'', ''specification'', ''manifest'', ''capture_cursor'', ''retained_bytes'']
         (\<lambda>j. job_id j = i)
         (\<lambda>j. j\<lparr>job_state := ''deleted'', job_specification := None, job_manifest := None,
            job_capture_cursor := 0, job_retained_bytes := 0\<rparr>)) (\<lambda>_. ok ())))))"

definition expired_jobs :: "DateTime \<Rightarrow> db \<Rightarrow> Uuid list" where
  "expired_jobs now d =
     map job_id (filter (\<lambda>j. ended_row j \<and> \<not> job_cleanup_pending j
       \<and> job_retention_until j \<le> timestamp now) (jobs d))"

definition expire_job_evidence :: "reporter \<Rightarrow> DateTime \<Rightarrow> nat journal_op" where
  "expire_job_evidence rep now =
     bind_op (query (expired_jobs now)) (\<lambda>ids.
     bind_op (for_each (delete_job_evidence rep) ids) (\<lambda>_. ok (length ids)))"

subsection \<open>Every operation keeps the schema invariant\<close>

lemma keeps_update_job:
  "(\<And>j. job_id (f j) = job_id j) \<Longrightarrow> keeps store_ok (update_job rep cols P f)"
  unfolding update_job_def by (intro within_intros keeps_update_jobs)

lemma within_get_on [within_intros]: "preorder_on_states R \<Longrightarrow> within R (get_on i)"
  unfolding get_on_def by (intro within_intros)

lemma within_replay_job [within_intros]: "preorder_on_states R \<Longrightarrow> within R (replay_job g t r)"
  unfolding replay_job_def by (intro within_intros)

lemma within_check_budget [within_intros]:
  "preorder_on_states R \<Longrightarrow> within R (check_budget js b obs s n m)"
  unfolding check_budget_def by (intro within_intros)

lemma within_changed_or [within_intros]: "preorder_on_states R \<Longrightarrow> within R (changed_or i e n)"
  unfolding changed_or_def by (intro within_intros)

lemma keeps_accept [keeps_store_ok]:
  "keeps store_ok (accept_job_inner rep sha js now i s k sp dl ru b)"
  "keeps store_ok (accept_job rep sha js now i s k sp dl ru)"
  "keeps store_ok (accept_job_with_budget rep sha js now i s k sp dl ru bd obs)"
  unfolding accept_job_inner_def accept_job_def accept_job_with_budget_def admit_job_def
  by (intro within_intros keeps_store_ok preorder_keeps)+

lemma keeps_bind_on [keeps_store_ok]: "keeps store_ok (bind_on rep now i vm n)"
  unfolding bind_on_def
  by (intro within_intros keeps_store_ok keeps_update_job preorder_keeps) simp

lemma keeps_job_ownership [keeps_store_ok]:
  "keeps store_ok (reserve_job_vm_inner rep hy now i replay)"
  "keeps store_ok (reserve_job_vm rep hy now i)"
  "keeps store_ok (claim_job_vm rep hy now i)"
  "keeps store_ok (bind_job_vm rep now i vm n)"
  "keeps store_ok (bind_job_vm_with_lease rep current l now i vm n)"
  "keeps store_ok (mark_job_running rep now i)"
  unfolding reserve_job_vm_inner_def reserve_job_vm_def claim_job_vm_def bind_job_vm_def
    bind_job_vm_with_lease_def mark_job_running_def
  by (intro within_intros keeps_store_ok keeps_update_job preorder_keeps; simp)+

lemma keeps_append_events [keeps_store_ok]: "keeps store_ok (append_events rep sha i es c)"
proof (induction es arbitrary: c)
  case Nil
  then show ?case by (simp add: within_ok)
next
  case (Cons e es)
  have "keeps store_ok (append_event rep sha i e c)"
    unfolding append_event_def by (intro within_intros keeps_store_ok preorder_keeps)
  then show ?case using Cons by (simp add: within_bind)
qed

lemma keeps_job_evidence [keeps_store_ok]:
  "keeps store_ok (append_job_events rep sha i es g)"
  "keeps store_ok (stage_job_manifest rep js i mf)"
  "keeps store_ok (retain_job_artifact rep sha i n p x bs)"
  "keeps store_ok (finish_job_inner rep sha js i st co mf pre)"
  "keeps store_ok (finish_job rep sha js i st co mf)"
  "keeps store_ok (finish_job_failure rep sha js i st env)"
  unfolding append_job_events_def stage_job_manifest_def retain_job_artifact_def
    keep_artifact_def publish_result_def finish_job_inner_def finish_job_def finish_job_failure_def
  by (intro within_intros keeps_store_ok keeps_update_job preorder_keeps; simp)+

lemma keeps_job_cleanup [keeps_store_ok]:
  "keeps store_ok (record_job_vm_destruction rep vm)"
  "keeps store_ok (record_job_vm_allocation_abort rep i vm)"
  "keeps store_ok (confirm_job_cleanup rep i vm)"
  "keeps store_ok (confirm_unallocated_job_cleanup rep i n)"
  "keeps store_ok (delete_job_evidence rep i)"
  unfolding record_job_vm_destruction_def record_job_vm_allocation_abort_def
    confirm_job_cleanup_def confirm_unallocated_job_cleanup_def delete_job_evidence_def
  by (intro within_intros keeps_store_ok keeps_update_job preorder_keeps; simp)+

lemma keeps_prebackend_abort [keeps_store_ok]:
  "keeps store_ok (record_job_leased_prebackend_abort rep hy i vm l)"
  unfolding record_job_leased_prebackend_abort_def
  by (intro within_intros keeps_store_ok keeps_update_job keeps_update_leases preorder_keeps;
      simp add: lease_frame_def)

lemma keeps_expire [keeps_store_ok]: "keeps store_ok (expire_job_evidence rep now)"
  unfolding expire_job_evidence_def by (intro within_intros keeps_store_ok preorder_keeps)

end
