(* ===== verification/Job_Machine.thy ===== *)
theory Job_Machine
  imports Job_Budget
begin

text \<open>
  The execution journal as a state machine: what one call to the journal may do to the three
  tables of \<open>crates/husker-state/src/jobs.rs\<close>, without the queries, statements and errors by
  which the code does it. \<open>job_update\<close> is the life of one job's row, \<open>journal_step\<close> that of the
  tables. The invariants of the journal are proved here, by rule induction; that every
  operation of the code takes such steps is proved in \<open>Job_Refinement\<close>.
\<close>

subsection \<open>The life of one job\<close>

definition in_progress :: "job_row \<Rightarrow> bool" where
  "in_progress r \<longleftrightarrow> job_state r \<in> {''accepted'', ''preparing'', ''running''}"

definition is_tombstone :: "job_row \<Rightarrow> bool" where
  "is_tombstone r \<longleftrightarrow> job_state r = ''deleted''"

inductive job_update :: "job_row \<Rightarrow> job_row \<Rightarrow> bool" where
  reserve: "job_state r = ''accepted'' \<Longrightarrow> job_vm_name r = None \<Longrightarrow>
    job_update r (r\<lparr>job_vm_name := Some n, job_state := ''preparing'', job_cleanup_pending := True\<rparr>)"
| bind: "\<not> is_tombstone r \<Longrightarrow> job_vm_id r = None \<Longrightarrow> \<not> job_vm_allocation_aborted r \<Longrightarrow>
    job_vm_name r = Some n \<and> job_cleanup_pending r
      \<or> job_vm_name r = None \<and> job_state r = ''accepted'' \<Longrightarrow>
    job_update r (r\<lparr>job_vm_id := Some vm, job_vm_name := Some n,
       job_state := (if job_state r = ''accepted'' then ''preparing'' else job_state r),
       job_cleanup_pending := True\<rparr>)"
| run: "job_state r = ''preparing'' \<Longrightarrow> job_vm_id r \<noteq> None \<Longrightarrow> \<not> job_vm_destroyed r \<Longrightarrow>
    \<not> job_vm_allocation_aborted r \<Longrightarrow> job_update r (r\<lparr>job_state := ''running''\<rparr>)"
| truncate: "\<not> is_tombstone r \<Longrightarrow> job_collection r = ''pending'' \<Longrightarrow>
    job_update r (r\<lparr>job_output_truncated := True\<rparr>)"
| stage: "job_state r = ''running'' \<Longrightarrow> job_collection r = ''pending'' \<Longrightarrow>
    job_manifest r \<in> {None, Some m} \<Longrightarrow> job_update r (r\<lparr>job_manifest := Some m\<rparr>)"
| finish: "in_progress r \<Longrightarrow> terminal st \<Longrightarrow> c \<noteq> CollPending \<Longrightarrow>
    (st \<in> {JobCompleted, JobCommandFailed} \<longrightarrow> job_state r = ''running'') \<Longrightarrow>
    \<not> (job_output_truncated r \<and> c = CollComplete) \<Longrightarrow>
    job_update r (r\<lparr>job_state := job_as_str st, job_collection := collection_as_str c,
       job_manifest := Some m\<rparr>)"
| destroy: "job_vm_id r \<noteq> None \<Longrightarrow> \<not> job_vm_allocation_aborted r \<Longrightarrow>
    job_update r (r\<lparr>job_vm_destroyed := True\<rparr>)"
| abort: "job_vm_id r \<noteq> None \<Longrightarrow> \<not> job_vm_destroyed r \<Longrightarrow> job_cleanup_pending r \<Longrightarrow>
    job_state r \<notin> {''accepted'', ''running'', ''completed'', ''command_failed''} \<Longrightarrow>
    job_update r (r\<lparr>job_vm_allocation_aborted := True\<rparr>)"
| release: "\<not> in_progress r \<Longrightarrow> \<not> is_tombstone r \<Longrightarrow>
    (if job_vm_id r = None then job_vm_name r \<noteq> None
     else job_vm_destroyed r \<or> job_vm_allocation_aborted r) \<Longrightarrow>
    job_update r (r\<lparr>job_cleanup_pending := False\<rparr>)"

subsection \<open>The tables\<close>

record journal =
  j_jobs :: "job_row list"
  j_events :: "event_row list"
  j_artifacts :: "artifact_row list"

definition put_job :: "job_row \<Rightarrow> job_row list \<Rightarrow> job_row list" where
  "put_job r js = update_rows (\<lambda>j. job_id j = job_id r) (\<lambda>_. r) js"

definition log_of :: "Uuid \<Rightarrow> event_row list \<Rightarrow> event_row list" where
  "log_of i es = filter (\<lambda>e. ev_job_id e = i) es"

definition kept_of :: "Uuid \<Rightarrow> artifact_row list \<Rightarrow> artifact_row list" where
  "kept_of i as = filter (\<lambda>a. art_job_id a = i) as"

definition reserved_row :: "job_row \<Rightarrow> bool" where
  "reserved_row j \<longleftrightarrow> in_progress j \<or> job_cleanup_pending j"

definition accepted_job :: "job_row \<Rightarrow> bool" where
  "accepted_job r \<longleftrightarrow> job_state r = ''accepted'' \<and> job_specification r \<noteq> None \<and> job_vm_id r = None
     \<and> job_vm_name r = None \<and> job_capture_cursor r = 0 \<and> job_retained_bytes r = 0
     \<and> \<not> job_output_truncated r \<and> job_collection r = ''pending'' \<and> job_manifest r = None
     \<and> \<not> job_cleanup_pending r \<and> \<not> job_vm_destroyed r \<and> \<not> job_vm_allocation_aborted r"

text \<open>The tombstone a deletion of the evidence leaves.\<close>

definition tombstone :: "job_row \<Rightarrow> job_row" where
  "tombstone r = r\<lparr>job_state := ''deleted'', job_specification := None, job_manifest := None,
     job_capture_cursor := 0, job_retained_bytes := 0\<rparr>"

text \<open>The next event is kept as long as nothing was dropped before it and the output fits.\<close>

definition keeps_data :: "job_row \<Rightarrow> event_row list \<Rightarrow> bytes \<Rightarrow> bool" where
  "keeps_data r es data \<longleftrightarrow>
     \<not> (\<exists>e \<in> set (log_of (job_id r) es). ev_data e = None)
     \<and> job_retained_bytes r + length data \<le> MAX_OUTPUT_BYTES"

definition captured :: "job_row \<Rightarrow> bool \<Rightarrow> bytes \<Rightarrow> job_row" where
  "captured r keep data =
     r\<lparr>job_capture_cursor := job_capture_cursor r + 1,
       job_retained_bytes := job_retained_bytes r + (if keep then length data else 0),
       job_output_truncated := (job_output_truncated r \<or> \<not> keep)\<rparr>"

inductive journal_step :: "journal \<Rightarrow> journal \<Rightarrow> bool" where
  purge: "journal_step s (s\<lparr>j_jobs := delete_rows (\<lambda>j. is_tombstone j \<and> job_deadline j \<le> t) (j_jobs s),
      j_events := delete_rows (\<lambda>e. ev_job_id e \<in> job_id ` set (filter
        (\<lambda>j. is_tombstone j \<and> job_deadline j \<le> t) (j_jobs s))) (j_events s),
      j_artifacts := delete_rows (\<lambda>a. art_job_id a \<in> job_id ` set (filter
        (\<lambda>j. is_tombstone j \<and> job_deadline j \<le> t) (j_jobs s))) (j_artifacts s)\<rparr>)"
| accept: "accepted_job r \<Longrightarrow> job_id r \<notin> job_id ` set (j_jobs s) \<Longrightarrow>
    job_submission_key r \<notin> job_submission_key ` set (j_jobs s) \<Longrightarrow>
    length (j_jobs s) < MAX_SUBMISSION_RECEIPTS \<Longrightarrow>
    count_rows (\<lambda>j. \<not> is_tombstone j) (j_jobs s) < MAX_RETAINED_JOBS \<Longrightarrow>
    count_rows reserved_row (j_jobs s) < MAX_ACTIVE_JOBS \<Longrightarrow>
    journal_step s (s\<lparr>j_jobs := j_jobs s @ [r]\<rparr>)"
| update: "r \<in> set (j_jobs s) \<Longrightarrow> job_update r r' \<Longrightarrow> journal_step s (s\<lparr>j_jobs := put_job r' (j_jobs s)\<rparr>)"
| capture: "r \<in> set (j_jobs s) \<Longrightarrow> \<not> is_tombstone r \<Longrightarrow> job_collection r = ''pending'' \<Longrightarrow>
    job_capture_cursor r < MAX_EVENTS \<Longrightarrow> keep = keeps_data r (j_events s) data \<Longrightarrow>
    e = \<lparr>ev_job_id = job_id r, ev_sequence = job_capture_cursor r + 1, ev_stream = stream,
      ev_digest = digest, ev_data = (if keep then Some data else None)\<rparr> \<Longrightarrow>
    journal_step s (s\<lparr>j_jobs := put_job (captured r keep data) (j_jobs s),
      j_events := j_events s @ [e]\<rparr>)"
| retain: "r \<in> set (j_jobs s) \<Longrightarrow> job_state r = ''running'' \<Longrightarrow> job_collection r = ''pending'' \<Longrightarrow>
    art_job_id a = job_id r \<Longrightarrow> art_index a < MAX_ARTIFACTS \<Longrightarrow>
    art_index a \<notin> art_index ` set (kept_of (job_id r) (j_artifacts s)) \<Longrightarrow>
    art_path a \<notin> art_path ` set (kept_of (job_id r) (j_artifacts s)) \<Longrightarrow>
    (\<Sum>b\<leftarrow>kept_of (job_id r) (j_artifacts s). length (art_data b)) + length (art_data a)
      \<le> MAX_ARTIFACT_TOTAL_BYTES \<Longrightarrow>
    journal_step s (s\<lparr>j_artifacts := j_artifacts s @ [a]\<rparr>)"
| delete: "r \<in> set (j_jobs s) \<Longrightarrow> \<not> is_tombstone r \<Longrightarrow> \<not> in_progress r \<Longrightarrow> \<not> job_cleanup_pending r \<Longrightarrow>
    journal_step s (s\<lparr>j_jobs := put_job (tombstone r) (j_jobs s),
      j_events := delete_rows (\<lambda>e. ev_job_id e = job_id r) (j_events s),
      j_artifacts := delete_rows (\<lambda>a. art_job_id a = job_id r) (j_artifacts s)\<rparr>)"

inductive_cases job_updateE: "job_update r r'"
inductive_cases journal_stepE: "journal_step s s'"

subsection \<open>What a row always satisfies\<close>

definition row_inv :: "job_row \<Rightarrow> bool" where
  "row_inv r \<longleftrightarrow>
     job_state r \<in> set known_job_states \<and> job_collection r \<in> set known_collections
     \<and> (is_tombstone r \<longleftrightarrow> job_specification r = None)
     \<and> (in_progress r \<longleftrightarrow> job_collection r = ''pending'')
     \<and> (job_state r = ''accepted'' \<longrightarrow> job_vm_name r = None \<and> \<not> job_cleanup_pending r)
     \<and> (job_state r \<in> {''preparing'', ''running''} \<longrightarrow> job_vm_name r \<noteq> None \<and> job_cleanup_pending r)
     \<and> (job_state r = ''running'' \<longrightarrow> job_vm_id r \<noteq> None)
     \<and> (job_vm_id r \<noteq> None \<longrightarrow> job_vm_name r \<noteq> None)
     \<and> (job_cleanup_pending r \<longrightarrow> job_vm_name r \<noteq> None \<and> \<not> is_tombstone r)
     \<and> (job_vm_destroyed r \<or> job_vm_allocation_aborted r \<longrightarrow> job_vm_id r \<noteq> None)
     \<and> \<not> (job_vm_destroyed r \<and> job_vm_allocation_aborted r)
     \<and> (is_tombstone r \<longrightarrow> job_capture_cursor r = 0 \<and> job_retained_bytes r = 0)
     \<and> (job_vm_id r \<noteq> None \<and> \<not> job_cleanup_pending r \<longrightarrow>
          job_vm_destroyed r \<or> job_vm_allocation_aborted r)"

lemmas row_state_defs = in_progress_def is_tombstone_def

lemma terminal_as_str:
  "terminal st \<longleftrightarrow> job_as_str st \<notin> {''accepted'', ''preparing'', ''running''}"
  by (cases st) (auto simp: terminal_def)

lemma row_inv_accepted: "accepted_job r \<Longrightarrow> row_inv r"
  by (auto simp: accepted_job_def row_inv_def row_state_defs known_job_states_def
      known_collections_def)

lemma row_inv_update:
  assumes "job_update r r'" "row_inv r"
  shows "row_inv r'"
  using assms(1)
proof cases
  case (reserve n)
  then show ?thesis using assms(2)
    by (auto simp: row_inv_def row_state_defs known_job_states_def)
next
  case (bind n vm)
  then show ?thesis using assms(2)
    by (auto simp: row_inv_def row_state_defs known_job_states_def)
next
  case run
  then show ?thesis using assms(2)
    by (auto simp: row_inv_def row_state_defs known_job_states_def)
next
  case truncate
  then show ?thesis using assms(2) by (auto simp: row_inv_def row_state_defs)
next
  case (stage m)
  then show ?thesis using assms(2) by (auto simp: row_inv_def row_state_defs)
next
  case (finish st c m)
  have "collection_as_str c \<noteq> ''pending''" using finish(4) by (cases c) auto
  moreover note terminal_as_str [of st] job_as_str_known [of st] collection_as_str_known [of c]
  ultimately show ?thesis using finish assms(2)
    by (auto simp: row_inv_def row_state_defs)
next
  case destroy
  then show ?thesis using assms(2) by (auto simp: row_inv_def row_state_defs)
next
  case abort
  then show ?thesis using assms(2) by (auto simp: row_inv_def row_state_defs)
next
  case release
  then show ?thesis using assms(2) by (auto simp: row_inv_def row_state_defs split: if_splits)
qed

lemma row_inv_captured: "row_inv r \<Longrightarrow> \<not> is_tombstone r \<Longrightarrow> row_inv (captured r k bs)"
  by (simp add: row_inv_def row_state_defs captured_def)

lemma row_inv_tombstone:
  "row_inv r \<Longrightarrow> \<not> in_progress r \<Longrightarrow> \<not> job_cleanup_pending r \<Longrightarrow> row_inv (tombstone r)"
  by (auto simp: row_inv_def row_state_defs tombstone_def known_job_states_def)

subsection \<open>What the tables always satisfy\<close>

definition has_data :: "event_row \<Rightarrow> bool" where
  "has_data e \<longleftrightarrow> ev_data e \<noteq> None"

definition data_size :: "event_row \<Rightarrow> nat" where
  "data_size e = (case ev_data e of None \<Rightarrow> 0 | Some bs \<Rightarrow> length bs)"

text \<open>
  The log of a job: numbered from 1 without a gap up to the cursor, with the data of a prefix,
  whose size is the job's count; a shorter prefix is marked as truncated.
\<close>

definition log_inv :: "job_row \<Rightarrow> event_row list \<Rightarrow> bool" where
  "log_inv r log \<longleftrightarrow>
     map ev_sequence log = [1..<job_capture_cursor r + 1]
     \<and> job_capture_cursor r \<le> MAX_EVENTS
     \<and> job_retained_bytes r = sum_list (map data_size log) \<and> job_retained_bytes r \<le> MAX_OUTPUT_BYTES
     \<and> list_all (\<lambda>e. \<not> has_data e) (dropWhile has_data log)
     \<and> (list_ex (\<lambda>e. \<not> has_data e) log \<longrightarrow> job_output_truncated r)"

definition kept_inv :: "job_row \<Rightarrow> artifact_row list \<Rightarrow> bool" where
  "kept_inv r kept \<longleftrightarrow>
     unique_on art_index kept \<and> unique_on art_path kept
     \<and> list_all (\<lambda>a. art_index a < MAX_ARTIFACTS) kept
     \<and> sum_list (map (\<lambda>a. length (art_data a)) kept) \<le> MAX_ARTIFACT_TOTAL_BYTES
     \<and> (is_tombstone r \<longrightarrow> kept = [])"

definition capacity_inv :: "job_row list \<Rightarrow> bool" where
  "capacity_inv js \<longleftrightarrow>
     length js \<le> MAX_SUBMISSION_RECEIPTS
     \<and> count_rows (\<lambda>j. \<not> is_tombstone j) js \<le> MAX_RETAINED_JOBS
     \<and> count_rows reserved_row js \<le> MAX_ACTIVE_JOBS"

definition journal_inv :: "journal \<Rightarrow> bool" where
  "journal_inv s \<longleftrightarrow>
     unique_on job_id (j_jobs s) \<and> unique_on job_submission_key (j_jobs s)
     \<and> (\<forall>r \<in> set (j_jobs s). row_inv r \<and> log_inv r (log_of (job_id r) (j_events s))
          \<and> kept_inv r (kept_of (job_id r) (j_artifacts s)))
     \<and> (\<forall>e \<in> set (j_events s). ev_job_id e \<in> job_id ` set (j_jobs s))
     \<and> (\<forall>a \<in> set (j_artifacts s). art_job_id a \<in> job_id ` set (j_jobs s))
     \<and> capacity_inv (j_jobs s)"

lemma job_update_identity:
  assumes "job_update r r'"
  shows "job_id r' = job_id r" "job_submission_key r' = job_submission_key r"
    "job_capture_cursor r' = job_capture_cursor r" "job_retained_bytes r' = job_retained_bytes r"
    "job_output_truncated r \<longrightarrow> job_output_truncated r'"
    "job_spec_digest r' = job_spec_digest r" "job_deadline r' = job_deadline r"
    "job_session_id r' = job_session_id r" "job_specification r' = job_specification r"
    "job_retention_until r' = job_retention_until r"
  using assms by (cases; simp)+

lemma job_update_kind:
  assumes "job_update r r'"
  shows "is_tombstone r' \<longleftrightarrow> is_tombstone r" "reserved_row r' \<longrightarrow> reserved_row r"
  using assms
  by (cases; auto simp: is_tombstone_def in_progress_def reserved_row_def job_as_str_known(2)
      terminal_as_str)+

lemma set_put_job:
  assumes "unique_on job_id js" "r \<in> set js" "job_id r' = job_id r"
  shows "set (put_job r' js) = insert r' (set js - {r})"
proof -
  have "j = r" if "j \<in> set js" "job_id j = job_id r" for j
    using unique_onD [OF assms(1) that(1) assms(2)] that(2) by simp
  then show ?thesis using assms(2,3) by (auto simp: put_job_def set_update_rows)
qed

lemma unique_on_put_job:
  assumes "unique_on job_id js" "r \<in> set js" "job_id r' = job_id r" "unique_on key js" "key r' = key r"
  shows "unique_on key (put_job r' js)"
proof -
  have "j = r" if "j \<in> set js" "job_id j = job_id r" for j
    using unique_onD [OF assms(1) that(1) assms(2)] that(2) by simp
  then show ?thesis unfolding put_job_def using assms(3-5) by (intro unique_on_update) auto
qed

lemma length_filter_map_le:
  "(\<And>x. x \<in> set xs \<Longrightarrow> P (g x) \<Longrightarrow> P x) \<Longrightarrow> length (filter P (map g xs)) \<le> length (filter P xs)"
proof (induction xs)
  case Nil
  then show ?case by simp
next
  case (Cons x xs)
  have "length (filter P (map g xs)) \<le> length (filter P xs)" using Cons.prems by (intro Cons.IH) simp
  moreover have "P (g x) \<Longrightarrow> P x" using Cons.prems by simp
  ultimately show ?case by simp
qed

lemma count_put_job:
  assumes "unique_on job_id js" "r \<in> set js" "job_id r' = job_id r" "P r' \<longrightarrow> P r"
  shows "count_rows P (put_job r' js) \<le> count_rows P js"
  unfolding count_rows_def put_job_def update_rows_def
proof (rule length_filter_map_le)
  fix j assume j: "j \<in> set js" "P (if job_id j = job_id r' then r' else j)"
  show "P j"
  proof (cases "job_id j = job_id r'")
    case True
    then have "j = r" using unique_onD [OF assms(1) j(1) assms(2)] assms(3) by simp
    then show ?thesis using True j(2) assms(4) by simp
  next
    case False
    then show ?thesis using j(2) by simp
  qed
qed

lemma capacity_put_job:
  assumes "capacity_inv js" "unique_on job_id js" "r \<in> set js" "job_id r' = job_id r"
    "is_tombstone r \<longrightarrow> is_tombstone r'" "reserved_row r' \<longrightarrow> reserved_row r"
  shows "capacity_inv (put_job r' js)"
proof -
  have "count_rows (\<lambda>j. \<not> is_tombstone j) (put_job r' js) \<le> count_rows (\<lambda>j. \<not> is_tombstone j) js"
    using assms by (intro count_put_job [of js r]) auto
  moreover have "count_rows reserved_row (put_job r' js) \<le> count_rows reserved_row js"
    using assms by (intro count_put_job [of js r]) auto
  moreover have "length (put_job r' js) = length js" by (simp add: put_job_def update_rows_def)
  ultimately show ?thesis using assms(1) by (simp add: capacity_inv_def)
qed

lemma ids_put_job: "job_id ` set (put_job r' js) = job_id ` set js"
proof -
  have "map job_id (put_job r' js) = map job_id js"
    unfolding put_job_def by (rule map_update_rows) simp
  then show ?thesis by (metis set_map)
qed

text \<open>A row may be replaced when it keeps its identity and its own log and artifacts fit it.\<close>

lemma journal_inv_put_job:
  assumes inv: "journal_inv s" and r: "r \<in> set (j_jobs s)"
    and same: "job_id r' = job_id r" "job_submission_key r' = job_submission_key r"
    and row: "row_inv r'" "is_tombstone r \<longrightarrow> is_tombstone r'" "reserved_row r' \<longrightarrow> reserved_row r"
    and log: "log_inv r' (log_of (job_id r) es)" "\<And>i. i \<noteq> job_id r \<Longrightarrow> log_of i es = log_of i (j_events s)"
    and kept: "kept_inv r' (kept_of (job_id r) as)"
      "\<And>i. i \<noteq> job_id r \<Longrightarrow> kept_of i as = kept_of i (j_artifacts s)"
    and refs: "\<And>e. e \<in> set es \<Longrightarrow> ev_job_id e \<in> job_id ` set (j_jobs s)"
      "\<And>a. a \<in> set as \<Longrightarrow> art_job_id a \<in> job_id ` set (j_jobs s)"
  shows "journal_inv \<lparr>j_jobs = put_job r' (j_jobs s), j_events = es, j_artifacts = as\<rparr>"
proof -
  let ?js = "j_jobs s"
  have u: "unique_on job_id ?js" "unique_on job_submission_key ?js"
    using inv by (simp_all add: journal_inv_def)
  have set: "set (put_job r' ?js) = insert r' (set ?js - {r})" by (rule set_put_job [OF u(1) r same(1)])
  have other: "job_id q \<noteq> job_id r" if "q \<in> set ?js - {r}" for q
    using unique_onD [OF u(1) _ r] that by blast
  have rows: "row_inv q \<and> log_inv q (log_of (job_id q) es) \<and> kept_inv q (kept_of (job_id q) as)"
    if "q \<in> set (put_job r' ?js)" for q
  proof (cases "q = r'")
    case True
    then show ?thesis using row(1) log(1) kept(1) same(1) by simp
  next
    case False
    then have q: "q \<in> set ?js - {r}" using that set by blast
    then show ?thesis using inv other [OF q] log(2) kept(2) by (simp add: journal_inv_def)
  qed
  show ?thesis
    unfolding journal_inv_def journal.simps ids_put_job
    using unique_on_put_job [OF u(1) r same(1) u(1) same(1)]
      unique_on_put_job [OF u(1) r same(1) u(2) same(2)] rows refs
      capacity_put_job [OF _ u(1) r same(1) row(2,3)] inv
    by (auto simp: journal_inv_def)
qed

lemma log_inv_same:
  assumes "log_inv r log" "job_capture_cursor r' = job_capture_cursor r"
    "job_retained_bytes r' = job_retained_bytes r" "job_output_truncated r \<longrightarrow> job_output_truncated r'"
  shows "log_inv r' log"
  using assms by (simp add: log_inv_def)

lemma journal_inv_update:
  assumes inv: "journal_inv s" and r: "r \<in> set (j_jobs s)" and up: "job_update r r'"
  shows "journal_inv (s\<lparr>j_jobs := put_job r' (j_jobs s)\<rparr>)"
proof -
  note id = job_update_identity [OF up] and kind = job_update_kind [OF up]
  have r_ok: "row_inv r" "log_inv r (log_of (job_id r) (j_events s))"
    "kept_inv r (kept_of (job_id r) (j_artifacts s))"
    using inv r by (auto simp: journal_inv_def)
  have "s\<lparr>j_jobs := put_job r' (j_jobs s)\<rparr>
      = \<lparr>j_jobs = put_job r' (j_jobs s), j_events = j_events s, j_artifacts = j_artifacts s\<rparr>"
    by (cases s) simp
  moreover have "journal_inv \<dots>"
  proof (rule journal_inv_put_job [OF inv r])
    show "log_inv r' (log_of (job_id r) (j_events s))"
      by (rule log_inv_same [OF r_ok(2) id(3,4,5)])
    show "kept_inv r' (kept_of (job_id r) (j_artifacts s))"
      using r_ok(3) kind(1) by (simp add: kept_inv_def)
  qed (use inv id kind row_inv_update [OF up r_ok(1)] in \<open>auto simp: journal_inv_def\<close>)
  ultimately show ?thesis by (simp only:)
qed

lemma log_of_simps:
  "log_of i (es @ [e]) = log_of i es @ (if ev_job_id e = i then [e] else [])"
  "log_of i (delete_rows (\<lambda>e. ev_job_id e = k) es) = (if i = k then [] else log_of i es)"
  "kept_of i (as @ [a]) = kept_of i as @ (if art_job_id a = i then [a] else [])"
  "kept_of i (delete_rows (\<lambda>a. art_job_id a = k) as) = (if i = k then [] else kept_of i as)"
  by (auto simp: log_of_def kept_of_def delete_rows_def filter_empty_conv intro!: filter_cong)

text \<open>Appending to a log that is a prefix with data followed by events without.\<close>

lemma dropWhile_snoc:
  "list_all (\<lambda>e. \<not> P e) (dropWhile P (xs @ [x])) \<longleftrightarrow>
     list_all (\<lambda>e. \<not> P e) (dropWhile P xs) \<and> (P x \<longrightarrow> list_all P xs)"
  by (induction xs) auto

lemma log_inv_capture:
  assumes inv: "log_inv r (log_of (job_id r) es)" and cursor: "job_capture_cursor r < MAX_EVENTS"
    and keep: "keep = keeps_data r es data"
  shows "log_inv (captured r keep data) (log_of (job_id r) es @
     [\<lparr>ev_job_id = job_id r, ev_sequence = job_capture_cursor r + 1, ev_stream = stream,
       ev_digest = digest, ev_data = (if keep then Some data else None)\<rparr>])"
    (is "log_inv _ (?log @ [?e])")
proof -
  have all: "list_all has_data ?log" if keep
    using that keep by (auto simp: keeps_data_def has_data_def list_all_iff)
  have size: "job_retained_bytes r + length data \<le> MAX_OUTPUT_BYTES" if keep
    using that keep by (simp add: keeps_data_def)
  have e: "has_data ?e \<longleftrightarrow> keep" "data_size ?e = (if keep then length data else 0)"
    by (simp_all add: has_data_def data_size_def)
  show ?thesis
    unfolding log_inv_def dropWhile_snoc e list_ex_append
    using inv cursor all size e unfolding log_inv_def by (auto simp: captured_def)
qed

lemma unique_on_snoc: "unique_on key (t @ [r]) \<longleftrightarrow> unique_on key t \<and> key r \<notin> key ` set t"
  by (auto simp: unique_on_def)

lemma length_filter_conj: "length (filter (\<lambda>r. P r \<and> Q r) xs) \<le> length (filter Q xs)"
  by (induction xs) auto

lemma journal_inv_purge:
  assumes inv: "journal_inv s" and gone_def: "gone = job_id ` set (filter P (j_jobs s))"
  shows "journal_inv (s\<lparr>j_jobs := delete_rows P (j_jobs s),
      j_events := delete_rows (\<lambda>e. ev_job_id e \<in> gone) (j_events s),
      j_artifacts := delete_rows (\<lambda>a. art_job_id a \<in> gone) (j_artifacts s)\<rparr>)"
proof -
  let ?js = "j_jobs s"
  have u: "unique_on job_id ?js" "unique_on job_submission_key ?js"
    using inv by (simp_all add: journal_inv_def)
  have stays: "job_id r \<notin> gone" if "r \<in> set ?js" "\<not> P r" for r
    using unique_onD [OF u(1) that(1)] that(2) by (auto simp: gone_def)
  have log: "log_of i (delete_rows (\<lambda>e. ev_job_id e \<in> gone) (j_events s)) = log_of i (j_events s)"
    and kept: "kept_of i (delete_rows (\<lambda>a. art_job_id a \<in> gone) (j_artifacts s)) = kept_of i (j_artifacts s)"
    if "i \<notin> gone" for i
    using that by (auto simp: log_of_def kept_of_def delete_rows_def intro!: filter_cong)
  have refs: "i \<in> job_id ` {r \<in> set ?js. \<not> P r}" if "i \<in> job_id ` set ?js" "i \<notin> gone" for i
    using that by (auto simp: gone_def)
  have count: "count_rows Q (delete_rows P ?js) \<le> count_rows Q ?js" for Q
    using length_filter_conj [of "\<lambda>r. \<not> P r" Q ?js] by (simp add: count_rows_def delete_rows_def)
  have len: "length (delete_rows P ?js) \<le> length ?js" by (simp add: delete_rows_def)
  have "capacity_inv (delete_rows P ?js)"
    using inv count [of "\<lambda>j. \<not> is_tombstone j"] count [of reserved_row] len
    unfolding journal_inv_def capacity_inv_def by linarith
  then show ?thesis
    using inv unique_on_delete [OF u(1)] unique_on_delete [OF u(2)] stays log kept refs
    by (auto simp: journal_inv_def set_delete_rows)
qed

lemma journal_inv_accept:
  assumes inv: "journal_inv s" and r: "accepted_job r" and new: "job_id r \<notin> job_id ` set (j_jobs s)"
    "job_submission_key r \<notin> job_submission_key ` set (j_jobs s)"
    and room: "length (j_jobs s) < MAX_SUBMISSION_RECEIPTS"
      "count_rows (\<lambda>j. \<not> is_tombstone j) (j_jobs s) < MAX_RETAINED_JOBS"
      "count_rows reserved_row (j_jobs s) < MAX_ACTIVE_JOBS"
  shows "journal_inv (s\<lparr>j_jobs := j_jobs s @ [r]\<rparr>)"
proof -
  have none: "log_of (job_id r) (j_events s) = []" "kept_of (job_id r) (j_artifacts s) = []"
    using inv new(1) unfolding journal_inv_def log_of_def kept_of_def filter_empty_conv by metis+
  have r_ok: "row_inv r" "log_inv r []" "kept_inv r []"
    using r row_inv_accepted by (auto simp: accepted_job_def log_inv_def kept_inv_def unique_on_def
        MAX_OUTPUT_BYTES_def)
  have "capacity_inv (j_jobs s @ [r])"
    using room by (simp add: capacity_inv_def count_rows_def)
  moreover have "unique_on job_id (j_jobs s @ [r])" "unique_on job_submission_key (j_jobs s @ [r])"
    using inv new by (auto simp: journal_inv_def unique_on_snoc)
  ultimately show ?thesis
    using inv r_ok none by (auto simp: journal_inv_def)
qed

lemma journal_inv_capture:
  assumes inv: "journal_inv s" and r: "r \<in> set (j_jobs s)" "\<not> is_tombstone r"
    and cursor: "job_capture_cursor r < MAX_EVENTS" and keep: "keep = keeps_data r (j_events s) data"
    and e: "e = \<lparr>ev_job_id = job_id r, ev_sequence = job_capture_cursor r + 1, ev_stream = stream,
      ev_digest = digest, ev_data = (if keep then Some data else None)\<rparr>"
  shows "journal_inv (s\<lparr>j_jobs := put_job (captured r keep data) (j_jobs s), j_events := j_events s @ [e]\<rparr>)"
proof -
  have r_ok: "row_inv r" "log_inv r (log_of (job_id r) (j_events s))"
    "kept_inv r (kept_of (job_id r) (j_artifacts s))"
    using inv r by (auto simp: journal_inv_def)
  have "s\<lparr>j_jobs := put_job (captured r keep data) (j_jobs s), j_events := j_events s @ [e]\<rparr>
      = \<lparr>j_jobs = put_job (captured r keep data) (j_jobs s), j_events = j_events s @ [e],
         j_artifacts = j_artifacts s\<rparr>"
    by (cases s) simp
  moreover have "journal_inv \<dots>"
  proof (rule journal_inv_put_job [OF inv r(1)])
    show "log_inv (captured r keep data) (log_of (job_id r) (j_events s @ [e]))"
      using log_inv_capture [OF r_ok(2) cursor keep, of stream digest] by (simp add: log_of_simps e)
    show "kept_inv (captured r keep data) (kept_of (job_id r) (j_artifacts s))"
      using r_ok(3) by (simp add: kept_inv_def captured_def is_tombstone_def)
    show "row_inv (captured r keep data)" using row_inv_captured r_ok(1) r(2) .
  qed (use inv r in \<open>auto simp: journal_inv_def log_of_simps e captured_def is_tombstone_def
        reserved_row_def in_progress_def\<close>)
  ultimately show ?thesis by (simp only:)
qed

lemma journal_inv_retain:
  assumes inv: "journal_inv s" and r: "r \<in> set (j_jobs s)" "\<not> is_tombstone r"
    and a: "art_job_id a = job_id r" "art_index a < MAX_ARTIFACTS"
      "art_index a \<notin> art_index ` set (kept_of (job_id r) (j_artifacts s))"
      "art_path a \<notin> art_path ` set (kept_of (job_id r) (j_artifacts s))"
    and total: "(\<Sum>b\<leftarrow>kept_of (job_id r) (j_artifacts s). length (art_data b)) + length (art_data a)
      \<le> MAX_ARTIFACT_TOTAL_BYTES"
  shows "journal_inv (s\<lparr>j_artifacts := j_artifacts s @ [a]\<rparr>)"
proof -
  have u: "unique_on job_id (j_jobs s)" using inv by (simp add: journal_inv_def)
  have "kept_inv r (kept_of (job_id r) (j_artifacts s))" using inv r by (simp add: journal_inv_def)
  then have new: "kept_inv r (kept_of (job_id r) (j_artifacts s) @ [a])"
    using a total r(2) by (auto simp: kept_inv_def unique_on_snoc)
  have "kept_inv q (kept_of (job_id q) (j_artifacts s @ [a]))" if "q \<in> set (j_jobs s)" for q
  proof (cases "job_id q = job_id r")
    case True
    then have "q = r" using unique_onD [OF u that r(1)] by simp
    then show ?thesis using new a(1) by (simp add: log_of_simps)
  next
    case False
    then show ?thesis using inv that a(1) by (simp add: log_of_simps journal_inv_def)
  qed
  then show ?thesis using inv a(1) r(1) by (auto simp: journal_inv_def)
qed

lemma journal_inv_delete:
  assumes inv: "journal_inv s" and r: "r \<in> set (j_jobs s)" "\<not> is_tombstone r" "\<not> in_progress r"
    "\<not> job_cleanup_pending r"
  shows "journal_inv (s\<lparr>j_jobs := put_job (tombstone r) (j_jobs s),
      j_events := delete_rows (\<lambda>e. ev_job_id e = job_id r) (j_events s),
      j_artifacts := delete_rows (\<lambda>a. art_job_id a = job_id r) (j_artifacts s)\<rparr>)"
proof -
  let ?es = "delete_rows (\<lambda>e. ev_job_id e = job_id r) (j_events s)"
  let ?as = "delete_rows (\<lambda>a. art_job_id a = job_id r) (j_artifacts s)"
  have row: "row_inv r" using inv r by (simp add: journal_inv_def)
  have "s\<lparr>j_jobs := put_job (tombstone r) (j_jobs s), j_events := ?es, j_artifacts := ?as\<rparr>
      = \<lparr>j_jobs = put_job (tombstone r) (j_jobs s), j_events = ?es, j_artifacts = ?as\<rparr>"
    by (cases s) simp
  moreover have "journal_inv \<dots>"
  proof (rule journal_inv_put_job [OF inv r(1)])
    show "log_inv (tombstone r) (log_of (job_id r) ?es)"
      by (simp add: log_of_simps log_inv_def tombstone_def MAX_OUTPUT_BYTES_def)
    show "kept_inv (tombstone r) (kept_of (job_id r) ?as)"
      by (simp add: log_of_simps kept_inv_def unique_on_def)
    show "row_inv (tombstone r)" using row_inv_tombstone row r(3,4) .
  qed (use inv r in \<open>auto simp: journal_inv_def log_of_simps tombstone_def is_tombstone_def
        reserved_row_def in_progress_def set_delete_rows\<close>)
  ultimately show ?thesis by (simp only:)
qed

lemma journal_inv_step:
  assumes "journal_step s s'" "journal_inv s"
  shows "journal_inv s'"
  using assms
proof (induction rule: journal_step.induct)
  case (purge s t)
  then show ?case by (intro journal_inv_purge [OF _ refl])
next
  case (accept r s)
  then show ?case by (intro journal_inv_accept)
next
  case (update r s r')
  then show ?case by (intro journal_inv_update)
next
  case (capture r s keep data e stream digest)
  then show ?case by (intro journal_inv_capture)
next
  case (retain r s a)
  then show ?case by (intro journal_inv_retain) (auto simp: is_tombstone_def)
next
  case (delete r s)
  then show ?case by (intro journal_inv_delete)
qed

subsection \<open>The history of a job\<close>

text \<open>
  What a later row of a job has in common with an earlier one: its identity, every binding and
  receipt once given, a log that only grows, and from the end of the execution on the result
  itself. A tombstone keeps the identity and loses the evidence.
\<close>

definition same_identity :: "job_row \<Rightarrow> job_row \<Rightarrow> bool" where
  "same_identity r q \<longleftrightarrow>
     job_id q = job_id r \<and> job_submission_key q = job_submission_key r
     \<and> job_spec_digest q = job_spec_digest r \<and> job_deadline q = job_deadline r
     \<and> job_session_id q = job_session_id r"

definition receipts_kept :: "job_row \<Rightarrow> job_row \<Rightarrow> bool" where
  "receipts_kept r q \<longleftrightarrow>
     (job_vm_id r \<noteq> None \<longrightarrow> job_vm_id q = job_vm_id r)
     \<and> (job_vm_name r \<noteq> None \<longrightarrow> job_vm_name q = job_vm_name r)
     \<and> (job_vm_destroyed r \<longrightarrow> job_vm_destroyed q)
     \<and> (job_vm_allocation_aborted r \<longrightarrow> job_vm_allocation_aborted q)"

fun phase :: "string \<Rightarrow> nat" where
  "phase s = (if s = ''accepted'' then 0 else if s = ''preparing'' then 1
     else if s = ''running'' then 2 else if s = ''deleted'' then 4 else 3)"

definition evidence_kept :: "job_row \<Rightarrow> job_row \<Rightarrow> bool" where
  "evidence_kept r q \<longleftrightarrow>
     (\<not> is_tombstone q \<longrightarrow>
        job_specification q = job_specification r \<and> job_capture_cursor r \<le> job_capture_cursor q
        \<and> (job_output_truncated r \<longrightarrow> job_output_truncated q)
        \<and> (\<not> in_progress r \<longrightarrow> job_state q = job_state r \<and> job_collection q = job_collection r
             \<and> job_manifest q = job_manifest r \<and> job_capture_cursor q = job_capture_cursor r))"

definition released_stays :: "job_row \<Rightarrow> job_row \<Rightarrow> bool" where
  "released_stays r q \<longleftrightarrow>
     (\<not> in_progress r \<and> \<not> job_cleanup_pending r \<longrightarrow>
        \<not> job_cleanup_pending q \<and> job_vm_id q = job_vm_id r)"

definition evolves :: "job_row \<Rightarrow> job_row \<Rightarrow> bool" where
  "evolves r q \<longleftrightarrow> same_identity r q \<and> receipts_kept r q \<and> phase (job_state r) \<le> phase (job_state q)
     \<and> evidence_kept r q \<and> released_stays r q"

lemmas evolves_defs = evolves_def same_identity_def receipts_kept_def evidence_kept_def
  released_stays_def

lemma phase_iff:
  "in_progress r \<longleftrightarrow> phase (job_state r) \<le> 2" "is_tombstone r \<longleftrightarrow> phase (job_state r) = 4"
  "phase (job_state r) \<le> 4"
  by (auto simp: row_state_defs)

lemma evolves_refl: "evolves r r"
  by (simp add: evolves_defs)

lemma evolves_trans:
  assumes rq: "evolves r q" and qp: "evolves q p"
  shows "evolves r p"
proof -
  have le: "phase (job_state r) \<le> phase (job_state q)" "phase (job_state q) \<le> phase (job_state p)"
    using rq qp unfolding evolves_def by blast+
  have t: "\<not> is_tombstone p \<Longrightarrow> \<not> is_tombstone q" and g: "\<not> in_progress r \<Longrightarrow> \<not> in_progress q"
    using le phase_iff(3) [of p] unfolding phase_iff(1,2) by linarith+
  have "same_identity r p" using rq qp unfolding evolves_def same_identity_def by simp
  moreover have "receipts_kept r p" using rq qp unfolding evolves_def receipts_kept_def by auto
  moreover have "evidence_kept r p"
    unfolding evidence_kept_def
  proof (intro impI)
    assume p: "\<not> is_tombstone p"
    have q: "\<not> is_tombstone q" by (rule t [OF p])
    have 1: "evidence_kept r q" and 2: "evidence_kept q p" using rq qp unfolding evolves_def by blast+
    show "job_specification p = job_specification r \<and> job_capture_cursor r \<le> job_capture_cursor p
        \<and> (job_output_truncated r \<longrightarrow> job_output_truncated p)
        \<and> (\<not> in_progress r \<longrightarrow> job_state p = job_state r \<and> job_collection p = job_collection r
             \<and> job_manifest p = job_manifest r \<and> job_capture_cursor p = job_capture_cursor r)"
      using 1 [unfolded evidence_kept_def, rule_format, OF q]
        2 [unfolded evidence_kept_def, rule_format, OF p] g by auto
  qed
  moreover have "released_stays r p"
    using rq qp g unfolding evolves_def released_stays_def by metis
  ultimately show ?thesis using le unfolding evolves_def by linarith
qed

lemma evolves_update:
  assumes "job_update r q" "row_inv r"
  shows "evolves r q"
  using assms(1)
proof cases
  case (reserve n)
  then show ?thesis using assms(2) by (simp add: evolves_defs row_inv_def row_state_defs)
next
  case (bind n vm)
  then show ?thesis using assms(2) by (auto simp: evolves_defs row_inv_def row_state_defs)
next
  case run
  then show ?thesis using assms(2) by (simp add: evolves_defs row_inv_def row_state_defs)
next
  case truncate
  then show ?thesis using assms(2) by (simp add: evolves_defs row_inv_def row_state_defs)
next
  case (stage m)
  then show ?thesis using assms(2) by (simp add: evolves_defs row_inv_def row_state_defs)
next
  case (finish st c m)
  then have "\<not> is_tombstone r" by (auto simp: row_state_defs)
  then show ?thesis using finish assms(2) terminal_as_str [of st] job_as_str_known [of st]
    by (auto simp: evolves_defs row_inv_def row_state_defs)
next
  case destroy
  then show ?thesis using assms(2) by (simp add: evolves_defs row_inv_def row_state_defs)
next
  case abort
  then show ?thesis using assms(2) by (simp add: evolves_defs row_inv_def row_state_defs)
next
  case release
  then show ?thesis using assms(2) by (simp add: evolves_defs row_inv_def row_state_defs)
qed

lemma evolves_captured:
  "row_inv r \<Longrightarrow> \<not> is_tombstone r \<Longrightarrow> job_collection r = ''pending'' \<Longrightarrow> evolves r (captured r k bs)"
  by (simp add: evolves_defs captured_def row_inv_def row_state_defs)

lemma evolves_tombstone: "\<not> in_progress r \<Longrightarrow> \<not> job_cleanup_pending r \<Longrightarrow> evolves r (tombstone r)"
  by (simp add: evolves_defs tombstone_def row_state_defs)

text \<open>
  Every row is carried on, or has become a tombstone before it was removed. A tombstone is
  released: whatever VM the job had is known to be destroyed or never allocated.
\<close>

definition carried :: "journal \<Rightarrow> journal \<Rightarrow> bool" where
  "carried s s' \<longleftrightarrow>
     (\<forall>r \<in> set (j_jobs s). (\<exists>q \<in> set (j_jobs s'). evolves r q)
        \<or> (\<exists>q. evolves r q \<and> is_tombstone q \<and> row_inv q))"

lemma carried_refl: "carried s s"
  using evolves_refl by (auto simp: carried_def)

lemma carried_trans: "carried s t \<Longrightarrow> carried t u \<Longrightarrow> carried s u"
  unfolding carried_def by (meson evolves_trans)

lemma carried_put_job:
  assumes "unique_on job_id js" "r \<in> set js" "evolves r r'" "q \<in> set js"
  shows "\<exists>p \<in> set (put_job r' js). evolves q p"
proof -
  have "job_id r' = job_id r" using assms(3) by (simp add: evolves_defs)
  then have "set (put_job r' js) = insert r' (set js - {r})" by (rule set_put_job [OF assms(1,2)])
  then show ?thesis using assms(3,4) evolves_refl by (cases "q = r") auto
qed

lemma carried_step:
  assumes "journal_step s s'" "journal_inv s"
  shows "carried s s'"
  using assms
proof (induction rule: journal_step.induct)
  case (purge s t)
  show ?case
    unfolding carried_def
  proof (intro ballI, simp add: set_delete_rows)
    fix r assume r: "r \<in> set (j_jobs s)"
    have "evolves r r" "row_inv r" using evolves_refl r purge by (auto simp: journal_inv_def)
    then show "(\<exists>q. q \<in> set (j_jobs s) \<and> (is_tombstone q \<longrightarrow> \<not> job_deadline q \<le> t) \<and> evolves r q)
        \<or> (\<exists>q. evolves r q \<and> is_tombstone q \<and> row_inv q)"
      using r by blast
  qed
next
  case (accept r s)
  then show ?case using evolves_refl by (auto simp: carried_def)
next
  case (update r s r')
  have u: "unique_on job_id (j_jobs s)" and "row_inv r" using update by (auto simp: journal_inv_def)
  then show ?case
    using carried_put_job [OF u update(1) evolves_update [OF update(2)]] by (simp add: carried_def)
next
  case (capture r s keep data e stream digest)
  have u: "unique_on job_id (j_jobs s)" and "row_inv r" using capture by (auto simp: journal_inv_def)
  then show ?case
    using carried_put_job [OF u capture(1) evolves_captured [OF _ capture(2,3)]]
    by (simp add: carried_def)
next
  case (retain r s a)
  then show ?case using evolves_refl by (auto simp: carried_def)
next
  case (delete r s)
  have u: "unique_on job_id (j_jobs s)" using delete by (auto simp: journal_inv_def)
  then show ?case
    using carried_put_job [OF u delete(1) evolves_tombstone [OF delete(3,4)]] by (simp add: carried_def)
qed

lemma journal_steps:
  assumes "journal_step\<^sup>*\<^sup>* s s'" "journal_inv s"
  shows "journal_inv s' \<and> carried s s'"
  using assms
proof (induction rule: rtranclp_induct)
  case base
  then show ?case by (simp add: carried_refl)
next
  case (step t u)
  then show ?case using journal_inv_step carried_step carried_trans by blast
qed

end
