(* ===== verification/Job_Refinement.thy ===== *)
theory Job_Refinement
  imports Job_Journal Job_Machine
begin

text \<open>
  The journal's operations (\<open>Job_Journal\<close>) take only the steps of the abstract machine
  (\<open>Job_Machine\<close>): whatever its arguments and its answer, each operation leaves the three
  tables either as they were or as a sequence of steps does. The guards of a step are what the
  code has read and checked before its statement, together with the schema's constraints.
\<close>

definition journal_of :: "db \<Rightarrow> journal" where
  "journal_of d = \<lparr>j_jobs = jobs d, j_events = job_events d, j_artifacts = job_artifacts d\<rparr>"

lemma journal_of_simps [simp]:
  "j_jobs (journal_of d) = jobs d" "j_events (journal_of d) = job_events d"
  "j_artifacts (journal_of d) = job_artifacts d"
  by (simp_all add: journal_of_def)

lemma journal_of_jobs:
  "journal_of (d\<lparr>jobs := js\<rparr>) = (journal_of d)\<lparr>j_jobs := js\<rparr>"
  by (simp add: journal_of_def)

abbreviation steps :: "db \<Rightarrow> db \<Rightarrow> bool" where
  "steps d d' \<equiv> journal_step\<^sup>*\<^sup>* (journal_of d) (journal_of d')"

definition job_refines :: "'a journal_op \<Rightarrow> bool" where
  "job_refines m \<longleftrightarrow> (\<forall>d x d'. store_ok d \<longrightarrow> m d = (x, d') \<longrightarrow> steps d d')"

lemma steps_eq: "journal_of d' = journal_of d \<Longrightarrow> steps d d'"
  by simp

lemma job_refines_transaction:
  assumes "\<And>d x d'. store_ok d \<Longrightarrow> m d = (Inr x, d') \<Longrightarrow> steps d d'"
  shows "job_refines (transaction m)"
  unfolding job_refines_def
proof (intro allI impI)
  fix d x d' assume ok: "store_ok d" and run: "transaction m d = (x, d')"
  show "steps d d'"
  proof (cases x)
    case (Inl e)
    then have "d' = d" using run by (auto simp: transaction_def split: prod.splits sum.splits)
    then show ?thesis by simp
  next
    case (Inr y)
    then show ?thesis using assms [OF ok] run by (simp add: transaction_Inr)
  qed
qed

lemma job_refines_err: "job_refines (err e)"
  by (simp add: job_refines_def err_def)

lemma job_refines_if: "job_refines m \<Longrightarrow> job_refines n \<Longrightarrow> job_refines (if b then m else n)"
  by simp

lemma job_refines_lift:
  assumes "\<And>y. job_refines (f y)"
  shows "job_refines (bind_op (lift_result r) f)"
  using assms by (cases r) (auto simp: job_refines_def op_simps)

subsection \<open>Reading\<close>

lemma store_ok_jobs:
  "store_ok d \<Longrightarrow> unique_on job_id (jobs d)"
  "store_ok d \<Longrightarrow> unique_on job_submission_key (jobs d)"
  "store_ok d \<Longrightarrow> r \<in> set (jobs d) \<Longrightarrow> raised (job_checks r) = []"
  by (simp_all add: store_ok_def journal_ok_def)

lemma get_on_state: "get_on i d = (x, d') \<Longrightarrow> d' = d"
  by (auto simp: get_on_def op_simps split: option.splits sum.splits)

lemma get_on_Inr:
  assumes "get_on i d = (Inr job, d')"
  obtains r where "r \<in> set (jobs d)" "job_id r = i" "\<not> is_tombstone r" "read_record r = Inr job" "d' = d"
proof -
  obtain r where f: "find (\<lambda>j. job_id j = i \<and> job_state j \<noteq> ''deleted'') (jobs d) = Some r"
    and r: "read_record r = Inr job" and d: "d' = d"
    using assms by (auto simp: get_on_def op_simps map_sum_Inr split: option.splits)
  then show ?thesis using that find_SomeD [OF f] by (auto simp: is_tombstone_def)
qed

lemma read_record_Inr:
  assumes "read_record r = Inr job"
  shows "job_state r = job_as_str (rec_state job)" "job_collection r = collection_as_str (rec_collection job)"
    "rec_id job = job_id r" "rec_vm_id job = job_vm_id r" "rec_vm_name job = job_vm_name r"
    "rec_capture_cursor job = job_capture_cursor r" "rec_retained_bytes job = job_retained_bytes r"
    "rec_output_truncated job = job_output_truncated r" "rec_manifest job = job_manifest r"
    "rec_cleanup_pending job = job_cleanup_pending r" "rec_vm_destroyed job = job_vm_destroyed r"
    "rec_vm_allocation_aborted job = job_vm_allocation_aborted r" "rec_deadline job = job_deadline r"
    "job_specification r = Some (rec_specification job)"
    "rec_specification_digest job = job_spec_digest r"
  using assms
  by (auto simp: read_record_def and_then_Inr ok_or_Inr job_parse_Inr collection_parse_Inr
      get_counter_def split: if_splits)

text \<open>Every row that the schema admits and that has its specification can be read.\<close>

lemma read_record_total:
  assumes "raised (job_checks r) = []" "\<not> is_tombstone r" "job_specification r \<noteq> None"
  shows "\<exists>job. read_record r = Inr job"
proof -
  have "job_state r \<in> set known_job_states" "job_collection r \<in> set known_collections"
    "job_capture_cursor r \<le> 4096" "job_retained_bytes r \<le> 4194304"
    using assms(1) by (auto simp: job_checks_def split: if_splits)
  then show ?thesis
    using assms(2,3) known_job_state_cases [of "job_state r"] known_collection_cases [of "job_collection r"]
    by (auto simp: read_record_def is_tombstone_def get_counter_def)
qed

lemma job_as_str_iff:
  "job_as_str s = ''accepted'' \<longleftrightarrow> s = JobAccepted" "job_as_str s = ''preparing'' \<longleftrightarrow> s = JobPreparing"
  "job_as_str s = ''running'' \<longleftrightarrow> s = JobRunning" "job_as_str s = ''completed'' \<longleftrightarrow> s = JobCompleted"
  "job_as_str s = ''command_failed'' \<longleftrightarrow> s = JobCommandFailed"
  by (cases s; simp)+

lemma collection_as_str_iff: "collection_as_str c = ''pending'' \<longleftrightarrow> c = CollPending"
  by (cases c) simp_all

subsection \<open>Updating one job\<close>

lemma update_job_Inr:
  "update_job rep cols P f d = (Inr n, d') \<longleftrightarrow>
     raised (concat (map (\<lambda>j. job_update_triggers cols j (f j)) (filter P (jobs d)))) = []
     \<and> raised (jobs_constraints (update_rows P f (jobs d))) = []
     \<and> n = count_rows P (jobs d) \<and> d' = d\<lparr>jobs := update_rows P f (jobs d)\<rparr>"
  by (auto simp: update_job_def jdb_op_def map_err_def sql_update_jobs_def statement_def
      split: prod.splits sum.splits if_splits)

lemma update_job_Inl: "update_job rep cols P f d = (Inl e, d') \<Longrightarrow> d' = d"
  by (auto simp: update_job_def jdb_op_def map_err_def sql_update_jobs_def statement_def
      split: prod.splits sum.splits if_splits)

lemma update_rows_single:
  assumes "unique_on job_id js" "r \<in> set js" "\<And>j. j \<in> set js \<Longrightarrow> P j \<longleftrightarrow> j = r" "job_id (f r) = job_id r"
  shows "update_rows P f js = put_job (f r) js"
  unfolding update_rows_def put_job_def
proof (rule map_cong [OF refl])
  fix j assume j: "j \<in> set js"
  show "(if P j then f j else j) = (if job_id j = job_id (f r) then f r else j)"
  proof (cases "j = r")
    case True
    then show ?thesis using assms(3) [OF j] assms(4) by simp
  next
    case False
    then have "job_id j \<noteq> job_id r" using unique_onD [OF assms(1) j assms(2)] by metis
    then show ?thesis using False assms(3) [OF j] assms(4) by simp
  qed
qed

lemma update_rows_by_id:
  assumes "unique_on job_id js" "r \<in> set js" "job_id (f r) = job_id r"
  shows "update_rows (\<lambda>j. job_id j = job_id r) f js = put_job (f r) js"
  using assms(3)
  by (intro update_rows_single [OF assms(1,2)]) (metis unique_onD [OF assms(1)] assms(2))+

lemma update_job_id:
  assumes ok: "store_ok d" and r: "r \<in> set (jobs d)" "job_id r = i" and f: "job_id (f r) = i"
    and run: "update_job rep cols (\<lambda>j. job_id j = i) f d = (Inr n, d')"
  shows "d' = d\<lparr>jobs := put_job (f r) (jobs d)\<rparr>"
  using update_rows_by_id [OF store_ok_jobs(1) [OF ok] r(1), of f] run r(2) f
  by (simp add: update_job_Inr)

lemma update_job_guarded:
  assumes ok: "store_ok d" and run: "update_job rep cols (\<lambda>j. job_id j = i \<and> Q j) f d = (Inr n, d')"
    and f: "\<And>j. job_id (f j) = job_id j"
  obtains "n = 0" "d' = d"
  | r where "r \<in> set (jobs d)" "job_id r = i" "Q r" "d' = d\<lparr>jobs := put_job (f r) (jobs d)\<rparr>" "n \<noteq> 0"
      "raised (job_checks (f r)) = []"
proof (cases "\<exists>r \<in> set (jobs d). job_id r = i \<and> Q r")
  case True
  then obtain r where r: "r \<in> set (jobs d)" "job_id r = i" "Q r" by blast
  have "j = r" if "j \<in> set (jobs d)" "job_id j = i" for j
    using unique_onD [OF store_ok_jobs(1) [OF ok] that(1) r(1)] that(2) r(2) by simp
  then have "update_rows (\<lambda>j. job_id j = i \<and> Q j) f (jobs d) = put_job (f r) (jobs d)"
    using r f by (intro update_rows_single [OF store_ok_jobs(1) [OF ok]]) metis+
  moreover have "count_rows (\<lambda>j. job_id j = i \<and> Q j) (jobs d) \<noteq> 0"
    using r by (auto simp: count_rows_0)
  moreover have "f r \<in> set (update_rows (\<lambda>j. job_id j = i \<and> Q j) f (jobs d))"
    using r by (auto simp: set_update_rows)
  then have "raised (job_checks (f r)) = []"
    using run unfolding update_job_Inr raised_jobs_constraints by blast
  ultimately show ?thesis using that(2) [OF r] run by (simp add: update_job_Inr)
next
  case False
  then have "update_rows (\<lambda>j. job_id j = i \<and> Q j) f (jobs d) = jobs d"
    "count_rows (\<lambda>j. job_id j = i \<and> Q j) (jobs d) = 0"
    by (auto simp: update_rows_none filter_empty_conv count_rows_0)
  then show ?thesis using that(1) run by (simp add: update_job_Inr)
qed

lemma steps_update:
  assumes "r \<in> set (jobs d)" "job_update r r'" "d' = d\<lparr>jobs := put_job r' (jobs d)\<rparr>"
  shows "steps d d'"
  using journal_step.update [of r "journal_of d" r'] assms by (simp add: journal_of_jobs r_into_rtranclp)

lemma if_err_Inr: "(if b then err e else m) d = (Inr x, d') \<longleftrightarrow> \<not> b \<and> m d = (Inr x, d')"
  by (simp add: err_def)

lemma ok_Inr: "ok y d = (Inr x, d') \<longleftrightarrow> x = y \<and> d' = d"
  by (auto simp: ok_def)

lemma err_Inr: "err e d = (Inr x, d') \<longleftrightarrow> False"
  by (simp add: err_def)

lemma lift_Inr: "lift_result r d = (Inr x, d') \<longleftrightarrow> r = Inr x \<and> d' = d"
  by (auto simp: lift_result_def)

lemmas run_simps = if_err_Inr ok_Inr err_Inr lift_Inr transaction_Inr

lemma bind_get_on_Inr:
  assumes "bind_op (get_on i) f d = (Inr y, d')"
  obtains job r where "f job d = (Inr y, d')" "r \<in> set (jobs d)" "job_id r = i" "\<not> is_tombstone r"
    "read_record r = Inr job"
  using assms by (elim bind_op_Inr get_on_Inr) simp

lemma steps_job_update:
  assumes "store_ok d" "r \<in> set (jobs d)" "job_id r = i" "job_update r (f r)"
    "update_job rep cols (\<lambda>j. job_id j = i) f d = (Inr n, d')"
  shows "steps d d'"
  by (rule steps_update [OF assms(2,4)], rule update_job_id [OF assms(1-3) _ assms(5)])
    (use job_update_identity(1) [OF assms(4)] assms(3) in simp)

subsection \<open>Ownership\<close>

lemma job_refinesI:
  assumes "all_or_nothing m" "\<And>d x d'. store_ok d \<Longrightarrow> m d = (Inr x, d') \<Longrightarrow> steps d d'"
  shows "job_refines m"
  unfolding job_refines_def
proof (intro allI impI)
  fix d x d' assume ok: "store_ok d" and run: "m d = (x, d')"
  show "steps d d'"
  proof (cases x)
    case (Inl e)
    then have "d' = d" using assms(1) run by (auto simp: all_or_nothing_def)
    then show ?thesis by simp
  next
    case (Inr y)
    then show ?thesis using assms(2) [OF ok] run by simp
  qed
qed

lemma reserve_refines: "job_refines (reserve_job_vm_inner rep hy now i replay)"
proof (rule job_refinesI)
  show "all_or_nothing (reserve_job_vm_inner rep hy now i replay)"
    unfolding reserve_job_vm_inner_def by (rule transaction_all_or_nothing)
next
  let ?f = "\<lambda>j. j\<lparr>job_vm_name := Some (vm_name_of hy i), job_state := ''preparing'',
     job_cleanup_pending := True\<rparr>"
  fix d x d' assume ok: "store_ok d" and run: "reserve_job_vm_inner rep hy now i replay d = (Inr x, d')"
  obtain job r where r: "r \<in> set (jobs d)" "job_id r = i" "read_record r = Inr job"
    and cases: "rec_vm_name job = None \<and> rec_state job = JobAccepted
        \<and> (\<exists>n. update_job rep [''vm_name'', ''state'', ''cleanup_pending''] (\<lambda>j. job_id j = i) ?f d = (Inr n, d'))
      \<or> d' = d"
    using run unfolding reserve_job_vm_inner_def transaction_Inr
    by (elim bind_get_on_Inr) (auto simp: run_simps elim!: bind_op_Inr dest: get_on_state split: if_splits)
  note rec = read_record_Inr [OF r(3)]
  from cases show "steps d d'"
  proof
    assume "rec_vm_name job = None \<and> rec_state job = JobAccepted
        \<and> (\<exists>n. update_job rep [''vm_name'', ''state'', ''cleanup_pending''] (\<lambda>j. job_id j = i) ?f d = (Inr n, d'))"
    moreover from this have "job_update r (?f r)" using rec by (intro job_update.reserve) simp_all
    ultimately show ?thesis using steps_job_update [OF ok r(1,2), where f = ?f] by blast
  qed simp
qed

lemma bind_on_Inr:
  assumes run: "bind_on rep now i vm n d = (Inr x, d')"
  obtains (bound) r where "r \<in> set (jobs d)" "job_id r = i" "\<not> is_tombstone r"
      "job_vm_id r = Some vm" "job_vm_name r = Some n" "\<not> job_vm_allocation_aborted r" "d' = d"
  | (new) r k where "r \<in> set (jobs d)" "job_id r = i" "\<not> is_tombstone r" "job_vm_id r = None"
      "\<not> job_vm_allocation_aborted r"
      "job_vm_name r = Some n \<and> job_cleanup_pending r \<or> job_vm_name r = None \<and> job_state r = ''accepted''"
      "\<forall>j \<in> set (jobs d). job_vm_id j \<noteq> Some vm"
      "update_job rep [''vm_id'', ''vm_name'', ''state'', ''cleanup_pending''] (\<lambda>j. job_id j = i)
         (\<lambda>j. j\<lparr>job_vm_id := Some vm, job_vm_name := Some n,
           job_state := (if job_state j = ''accepted'' then ''preparing'' else job_state j),
           job_cleanup_pending := True\<rparr>) d = (Inr k, d')"
proof -
  let ?f = "\<lambda>j. j\<lparr>job_vm_id := Some vm, job_vm_name := Some n,
     job_state := (if job_state j = ''accepted'' then ''preparing'' else job_state j),
     job_cleanup_pending := True\<rparr>"
  obtain job r where r: "r \<in> set (jobs d)" "job_id r = i" "\<not> is_tombstone r" "read_record r = Inr job"
    and free: "\<not> rec_vm_allocation_aborted job"
    and cases: "rec_vm_id job = None \<and> (rec_vm_name job = Some n \<and> rec_cleanup_pending job
           \<or> rec_vm_name job = None \<and> rec_state job = JobAccepted)
        \<and> \<not> (\<exists>j \<in> set (jobs d). job_vm_id j = Some vm
                \<or> (job_vm_name j = Some n \<and> job_cleanup_pending j \<and> job_id j \<noteq> i))
        \<and> (\<exists>k. update_job rep [''vm_id'', ''vm_name'', ''state'', ''cleanup_pending''] (\<lambda>j. job_id j = i) ?f d
             = (Inr k, d'))
      \<or> rec_vm_id job = Some vm \<and> rec_vm_name job = Some n \<and> d' = d"
    using run unfolding bind_on_def if_err_Inr
    by (elim conjE bind_get_on_Inr)
      (auto simp: run_simps query_def elim!: bind_op_Inr split: if_splits option.splits)
  note rec = read_record_Inr [OF r(4)]
  from cases show thesis
  proof (elim disjE conjE exE)
    fix k assume c: "rec_vm_id job = None" "rec_vm_name job = Some n" "rec_cleanup_pending job"
      "\<not> (\<exists>j \<in> set (jobs d). job_vm_id j = Some vm
                \<or> (job_vm_name j = Some n \<and> job_cleanup_pending j \<and> job_id j \<noteq> i))"
      "update_job rep [''vm_id'', ''vm_name'', ''state'', ''cleanup_pending''] (\<lambda>j. job_id j = i) ?f d = (Inr k, d')"
    show thesis by (rule new [OF r(1-3) _ _ _ _ c(5)]) (use c rec free in auto)
  next
    fix k assume c: "rec_vm_id job = None" "rec_vm_name job = None" "rec_state job = JobAccepted"
      "\<not> (\<exists>j \<in> set (jobs d). job_vm_id j = Some vm
                \<or> (job_vm_name j = Some n \<and> job_cleanup_pending j \<and> job_id j \<noteq> i))"
      "update_job rep [''vm_id'', ''vm_name'', ''state'', ''cleanup_pending''] (\<lambda>j. job_id j = i) ?f d = (Inr k, d')"
    show thesis by (rule new [OF r(1-3) _ _ _ _ c(5)]) (use c rec free in auto)
  next
    assume "rec_vm_id job = Some vm" "rec_vm_name job = Some n" "d' = d"
    then show thesis by (intro bound [OF r(1-3)]) (use rec free in simp_all)
  qed
qed

lemma bind_on_refines:
  assumes ok: "store_ok d" and run: "bind_on rep now i vm n d = (Inr x, d')"
  shows "steps d d'"
  using run
proof (cases rule: bind_on_Inr)
  case (new r k)
  let ?f = "\<lambda>j. j\<lparr>job_vm_id := Some vm, job_vm_name := Some n,
     job_state := (if job_state j = ''accepted'' then ''preparing'' else job_state j),
     job_cleanup_pending := True\<rparr>"
  have "job_update r (?f r)" using new by (intro job_update.bind) auto
  then show ?thesis using steps_job_update [OF ok new(1,2), where f = ?f] new(8) by blast
qed simp

lemma bind_refines: "job_refines (bind_job_vm rep now i vm n)"
proof (rule job_refinesI)
  show "all_or_nothing (bind_job_vm rep now i vm n)"
    unfolding bind_job_vm_def by (rule transaction_all_or_nothing)
next
  fix d x d' assume ok: "store_ok d" and run: "bind_job_vm rep now i vm n d = (Inr x, d')"
  obtain d1 where "bind_on rep now i vm n d = (Inr (), d1)" "get_on i d1 = (Inr x, d')"
    using run unfolding bind_job_vm_def transaction_Inr by (elim bind_op_Inr) auto
  then show "steps d d'" using bind_on_refines [OF ok] get_on_state by blast
qed

text \<open>The lease of \<open>bind_job_vm_with_lease\<close> leaves the journal alone.\<close>

lemma journal_frame_statements:
  "within (\<lambda>s t. journal_of t = journal_of s) (sql_insert_leases rep l)"
  "within (\<lambda>s t. journal_of t = journal_of s) (sql_update_leases rep cols P f)"
  "within (\<lambda>s t. journal_of t = journal_of s) (sql_insert_or_ignore_boot_epochs rep e)"
  "within (\<lambda>s t. journal_of t = journal_of s) (sql_delete_freed_cids Q)"
  "within (\<lambda>s t. journal_of t = journal_of s) (sql_update_next_cid g)"
  unfolding sql_insert_leases_def sql_update_leases_def sql_insert_or_ignore_boot_epochs_def
    sql_delete_freed_cids_def sql_update_next_cid_def
  by (auto simp: journal_of_def within_def statement_def split: if_splits)

lemma journal_frame_lease:
  "within (\<lambda>s t. journal_of t = journal_of s) (insert_host_resource_lease rep current i now n v)"
  unfolding insert_host_resource_lease_def lease_cid_def observe_on_def
  by (intro within_intros journal_frame_statements preorder_eq_on)

lemma bind_with_lease_Inr:
  assumes "bind_job_vm_with_lease rep current l now i vm n d = (Inr y, d')"
  obtains d1 lease where "bind_on rep now i vm n d = (Inr (), d1)"
    "insert_host_resource_lease rep current l now n (Some vm) d1 = (Inr lease, d')" "snd y = lease"
proof -
  obtain d1 lease where "bind_on rep now i vm n d = (Inr (), d1)" "snd y = lease"
    and ins: "map_err JState (insert_host_resource_lease rep current l now n (Some vm)) d1 = (Inr lease, d')"
    using assms unfolding bind_job_vm_with_lease_def transaction_Inr
    by (elim bind_get_on_Inr) (auto simp: run_simps elim!: bind_op_Inr dest: get_on_state)
  then show thesis using that [of d1 lease] by (simp add: map_err_Inr)
qed

lemma bind_with_lease_refines: "job_refines (bind_job_vm_with_lease rep current l now i vm n)"
proof (rule job_refinesI)
  show "all_or_nothing (bind_job_vm_with_lease rep current l now i vm n)"
    unfolding bind_job_vm_with_lease_def by (rule transaction_all_or_nothing)
next
  fix d x d' assume ok: "store_ok d" and run: "bind_job_vm_with_lease rep current l now i vm n d = (Inr x, d')"
  obtain d1 lease where 1: "bind_on rep now i vm n d = (Inr (), d1)"
    and 2: "insert_host_resource_lease rep current l now n (Some vm) d1 = (Inr lease, d')"
    by (rule bind_with_lease_Inr [OF run])
  have "journal_of d' = journal_of d1" by (rule withinD [OF journal_frame_lease 2])
  then show "steps d d'" using bind_on_refines [OF ok 1] by simp
qed

subsection \<open>Guarded updates\<close>

lemma preorder_same: "preorder_on_states (\<lambda>s t. t = s)"
  by (simp add: preorder_on_states_def)

text \<open>An \<open>UPDATE ... WHERE id = ? AND ...\<close> outside a transaction, followed by reads only.\<close>

lemma guarded_update_refines:
  assumes f: "\<And>j. job_id (f j) = job_id j"
    and step: "\<And>r. Q r \<Longrightarrow> raised (job_checks (f r)) = [] \<Longrightarrow> job_update r (f r)"
    and k: "\<And>n. within (\<lambda>s t. t = s) (k n)"
  shows "job_refines (bind_op (update_job rep cols (\<lambda>j. job_id j = i \<and> Q j) f) k)"
  unfolding job_refines_def
proof (intro allI impI)
  let ?up = "update_job rep cols (\<lambda>j. job_id j = i \<and> Q j) f"
  fix d x d' assume ok: "store_ok d" and run: "bind_op ?up k d = (x, d')"
  obtain u d1 where u: "?up d = (u, d1)" by fastforce
  have "d' = d1"
    using run u withinD [OF k] by (auto simp: bind_op_def split: sum.splits)
  moreover have "steps d d1"
  proof (cases u)
    case (Inl e)
    then show ?thesis using update_job_Inl u by fastforce
  next
    case (Inr n)
    from u [unfolded Inr] show ?thesis
      by (rule update_job_guarded [OF ok]) (auto simp: f intro: steps_update step)
  qed
  ultimately show "steps d d'" by simp
qed

lemma mark_running_refines: "job_refines (mark_job_running rep now i)"
  unfolding mark_job_running_def
  by (rule guarded_update_refines)
    (auto intro: job_update.run intro!: within_intros preorder_same)

lemma allocation_abort_refines: "job_refines (record_job_vm_allocation_abort rep i vm)"
  unfolding record_job_vm_allocation_abort_def
  by (rule guarded_update_refines)
    (auto intro!: job_update.abort within_intros preorder_same simp: abortable_states_def)

lemma confirm_cleanup_refines: "job_refines (confirm_job_cleanup rep i vm)"
  unfolding confirm_job_cleanup_def
  by (rule guarded_update_refines)
    (auto intro!: job_update.release within_intros preorder_same
      simp: ended_row_def in_progress_def is_tombstone_def)

lemma confirm_unallocated_refines: "job_refines (confirm_unallocated_job_cleanup rep i n)"
  unfolding confirm_unallocated_job_cleanup_def
  by (rule guarded_update_refines)
    (auto intro!: job_update.release within_intros preorder_same
      simp: ended_row_def in_progress_def is_tombstone_def)

lemma destruction_refines: "job_refines (record_job_vm_destruction rep vm)"
  unfolding job_refines_def
proof (intro allI impI)
  let ?f = "\<lambda>j :: job_row. j\<lparr>job_vm_destroyed := True\<rparr>"
  let ?up = "update_job rep [''vm_destroyed''] (\<lambda>j. job_vm_id j = Some vm) ?f"
  fix d x d' assume ok: "store_ok d" and run: "record_job_vm_destruction rep vm d = (x, d')"
  obtain u d1 where u: "?up d = (u, d1)" by fastforce
  have d': "d' = d1"
    using run u by (auto simp: record_job_vm_destruction_def bind_op_def ok_def split: sum.splits)
  show "steps d d'"
  proof (cases "\<exists>r \<in> set (jobs d). job_vm_id r = Some vm")
    case True
    then obtain r where r: "r \<in> set (jobs d)" "job_vm_id r = Some vm" by blast
    have us: "unique_some job_vm_id (jobs d)" using ok by (simp add: store_ok_def journal_ok_def)
    have single: "update_rows (\<lambda>j. job_vm_id j = Some vm) ?f (jobs d) = put_job (?f r) (jobs d)"
    proof (rule update_rows_single [OF store_ok_jobs(1) [OF ok] r(1)])
      show "job_vm_id j = Some vm \<longleftrightarrow> j = r" if "j \<in> set (jobs d)" for j
        using unique_someD [OF us that r(1) _ r(2)] r(2) by metis
    qed simp
    show ?thesis
    proof (cases u)
      case (Inl e)
      then show ?thesis using update_job_Inl u d' by fastforce
    next
      case (Inr n)
      have d1: "d1 = d\<lparr>jobs := put_job (?f r) (jobs d)\<rparr>"
        using u [unfolded Inr] single by (simp add: update_job_Inr)
      have "?f r \<in> set (update_rows (\<lambda>j. job_vm_id j = Some vm) ?f (jobs d))"
        using r by (auto simp: set_update_rows)
      then have "raised (job_checks (?f r)) = []"
        using u [unfolded Inr] unfolding update_job_Inr raised_jobs_constraints by blast
      then have "job_update r (?f r)"
        using r(2) by (intro job_update.destroy) (auto simp: job_checks_def split: if_splits)
      then show ?thesis using steps_update [OF r(1) _ d1] d' by simp
    qed
  next
    case False
    then have "update_rows (\<lambda>j. job_vm_id j = Some vm) ?f (jobs d) = jobs d"
      by (simp add: update_rows_none filter_empty_conv)
    then have "d1 = d"
      using u update_job_Inl [of rep _ _ _ d _ d1] by (cases u) (simp_all add: update_job_Inr)
    then show ?thesis using d' by simp
  qed
qed

lemma prebackend_Inr:
  assumes run: "record_job_leased_prebackend_abort rep hy i vm l d = (Inr x, d')"
  obtains r d1 k where "r \<in> set (jobs d)" "job_id r = i" "\<not> is_tombstone r" "job_vm_id r = Some vm"
    "\<not> job_vm_destroyed r" "job_cleanup_pending r" "job_state r \<in> set abortable_states"
    "sql_update_leases rep [''allocation_aborted''] (\<lambda>q. lease_id q = l \<and> lease_vm_name q = vm_name_of hy i
        \<and> lease_vm_id q = Some vm \<and> \<not> lease_backend_entered q \<and> \<not> lease_vm_destroyed q)
      (\<lambda>l. l\<lparr>lease_allocation_aborted := True\<rparr>) d = (Inr 1, d1)"
    "update_job rep [''vm_allocation_aborted''] (\<lambda>j. job_id j = i)
      (\<lambda>j. j\<lparr>job_vm_allocation_aborted := True\<rparr>) d1 = (Inr k, d')"
proof -
  let ?P = "\<lambda>q. lease_id q = l \<and> lease_vm_name q = vm_name_of hy i
        \<and> lease_vm_id q = Some vm \<and> \<not> lease_backend_entered q \<and> \<not> lease_vm_destroyed q"
  obtain job r d1 k where r: "r \<in> set (jobs d)" "job_id r = i" "\<not> is_tombstone r" "read_record r = Inr job"
    and job: "rec_vm_id job = Some vm" "\<not> rec_vm_destroyed job" "rec_cleanup_pending job"
      "rec_state job \<in> {JobPreparing, JobInfrastructureFailed, JobInterrupted, JobCancelled,
         JobTimedOut, JobUnknown}"
    and lease: "jdb_op (sql_update_leases rep [''allocation_aborted''] ?P
      (\<lambda>l. l\<lparr>lease_allocation_aborted := True\<rparr>)) d = (Inr 1, d1)"
    and up: "update_job rep [''vm_allocation_aborted''] (\<lambda>j. job_id j = i)
      (\<lambda>j. j\<lparr>job_vm_allocation_aborted := True\<rparr>) d1 = (Inr k, d')"
    using run unfolding record_job_leased_prebackend_abort_def transaction_Inr
    by (elim bind_get_on_Inr) (auto simp: run_simps Let_def elim!: bind_op_Inr split: if_splits)
  have "job_state r \<in> set abortable_states"
    using job(4) read_record_Inr(1) [OF r(4)] by (auto simp: abortable_states_def)
  then show thesis
    using that [OF r(1-3)] job read_record_Inr [OF r(4)] lease up
    by (simp add: jdb_op_def map_err_Inr)
qed

lemma prebackend_abort_refines: "job_refines (record_job_leased_prebackend_abort rep hy i vm l)"
proof (rule job_refinesI)
  show "all_or_nothing (record_job_leased_prebackend_abort rep hy i vm l)"
    unfolding record_job_leased_prebackend_abort_def by (rule transaction_all_or_nothing)
next
  let ?f = "\<lambda>j :: job_row. j\<lparr>job_vm_allocation_aborted := True\<rparr>"
  let ?g = "\<lambda>l :: lease_row. l\<lparr>lease_allocation_aborted := True\<rparr>"
  fix d x d' assume ok: "store_ok d"
    and run: "record_job_leased_prebackend_abort rep hy i vm l d = (Inr x, d')"
  let ?P = "\<lambda>q. lease_id q = l \<and> lease_vm_name q = vm_name_of hy i
        \<and> lease_vm_id q = Some vm \<and> \<not> lease_backend_entered q \<and> \<not> lease_vm_destroyed q"
  obtain r d1 k where r: "r \<in> set (jobs d)" "job_id r = i" and row: "job_vm_id r = Some vm"
      "\<not> job_vm_destroyed r" "job_cleanup_pending r" "job_state r \<in> set abortable_states"
    and lease: "sql_update_leases rep [''allocation_aborted''] ?P ?g d = (Inr 1, d1)"
    and up: "update_job rep [''vm_allocation_aborted''] (\<lambda>j. job_id j = i) ?f d1 = (Inr k, d')"
    by (rule prebackend_Inr [OF run])
  have j: "journal_of d1 = journal_of d" by (rule withinD [OF journal_frame_statements(2) lease])
  have "keeps store_ok (sql_update_leases rep [''allocation_aborted''] ?P ?g)"
    by (intro keeps_update_leases) (simp add: lease_frame_def)
  then have ok1: "store_ok d1" using withinD lease ok by fastforce
  have r1: "r \<in> set (jobs d1)" using r(1) j by (simp add: journal_of_def)
  have "job_update r (?f r)"
    using row by (intro job_update.abort) (auto simp: abortable_states_def)
  then have "steps d1 d'" by (rule steps_job_update [OF ok1 r1 r(2) _ up])
  then show "steps d d'" using j by simp
qed

subsection \<open>Evidence\<close>

lemma all_or_nothing_lift:
  "(\<And>y. all_or_nothing (f y)) \<Longrightarrow> all_or_nothing (bind_op (lift_result r) f)"
  by (cases r) (simp_all add: all_or_nothing_def op_simps)

lemma stage_refines: "job_refines (stage_job_manifest rep js i m)"
proof (rule job_refinesI)
  show "all_or_nothing (stage_job_manifest rep js i m)"
    unfolding stage_job_manifest_def by (intro all_or_nothing_lift transaction_all_or_nothing)
next
  let ?f = "\<lambda>j :: job_row. j\<lparr>job_manifest := Some m\<rparr>"
  fix d x d' assume ok: "store_ok d" and run: "stage_job_manifest rep js i m d = (Inr x, d')"
  have "transaction (bind_op (get_on i) (\<lambda>job.
       if rec_state job \<noteq> JobRunning \<or> rec_collection job \<noteq> CollPending
         then err (Conflict ''manifest collection is not active'')
       else if (case rec_manifest job of Some old \<Rightarrow> old \<noteq> m | None \<Rightarrow> False)
         then err (Conflict ''staged guest manifest changed'')
       else bind_op (update_job rep [''manifest''] (\<lambda>j. job_id j = i) ?f) (\<lambda>_. ok ()))) d = (Inr x, d')"
    using run unfolding stage_job_manifest_def by (elim bind_op_Inr) (simp add: run_simps)
  then obtain job r n where r: "r \<in> set (jobs d)" "job_id r = i" "read_record r = Inr job"
    and job: "rec_state job = JobRunning" "rec_collection job = CollPending" "rec_manifest job \<in> {None, Some m}"
    and up: "update_job rep [''manifest''] (\<lambda>j. job_id j = i) ?f d = (Inr n, d')"
    unfolding transaction_Inr
    by (elim bind_get_on_Inr) (auto simp: run_simps elim!: bind_op_Inr split: option.splits)
  have "job_update r (?f r)" using job read_record_Inr [OF r(3)] by (intro job_update.stage) auto
  then show "steps d d'" by (rule steps_job_update [OF ok r(1,2) _ up])
qed

lemma publish_result_Inr:
  assumes "publish_result rep sha js i st c m pre job d = (Inr u, d')"
  obtains "terminal (rec_state job)" "\<not> pre" "rec_state job = st" "rec_collection job = c"
      "rec_manifest job = Some m" "d' = d"
  | n m' where "\<not> terminal (rec_state job)"
      "st \<in> {JobCompleted, JobCommandFailed} \<Longrightarrow> rec_state job = JobRunning"
      "\<not> (rec_output_truncated job \<and> c = CollComplete)"
      "(if pre then merge_receipt sha js m (rec_manifest job) else Inr m) = Inr m'"
      "update_job rep [''state'', ''collection'', ''manifest''] (\<lambda>j. job_id j = i)
         (\<lambda>j. j\<lparr>job_state := job_as_str st, job_collection := collection_as_str c,
            job_manifest := Some m'\<rparr>) d = (Inr n, d')"
proof (cases "terminal (rec_state job)")
  case True
  then show ?thesis using assms that(1) by (auto simp: publish_result_def run_simps split: if_splits)
next
  case False
  show ?thesis
    using assms that(2) False unfolding publish_result_def
    by (simp only: if_False run_simps) (elim conjE bind_op_Inr; simp only: run_simps; elim conjE; blast)
qed

lemma finish_inner_Inr:
  assumes "finish_job_inner rep sha js i st c m pre d = (Inr x, d')"
  obtains job r where "terminal st" "c \<noteq> CollPending" "r \<in> set (jobs d)" "job_id r = i"
    "\<not> is_tombstone r" "read_record r = Inr job"
    "publish_result rep sha js i st c m pre job d = (Inr (), d')" "get_on i d' = (Inr x, d')"
  using assms unfolding finish_job_inner_def if_err_Inr
  by (elim conjE bind_op_Inr, simp only: run_simps) (elim conjE bind_get_on_Inr bind_op_Inr;
      use get_on_state in fastforce)

lemma finish_inner_refines: "job_refines (finish_job_inner rep sha js i st c m pre)"
proof (rule job_refinesI)
  show "all_or_nothing (finish_job_inner rep sha js i st c m pre)"
    unfolding finish_job_inner_def
    by (intro all_or_nothing_if all_or_nothing_err all_or_nothing_lift transaction_all_or_nothing)
next
  fix d x d' assume ok: "store_ok d" and run: "finish_job_inner rep sha js i st c m pre d = (Inr x, d')"
  from run obtain job r where st: "terminal st" "c \<noteq> CollPending"
    and r: "r \<in> set (jobs d)" "job_id r = i" "\<not> is_tombstone r" "read_record r = Inr job"
    and pub: "publish_result rep sha js i st c m pre job d = (Inr (), d')"
    by (rule finish_inner_Inr)
  note rec = read_record_Inr [OF r(4)]
  from pub show "steps d d'"
  proof (rule publish_result_Inr)
    assume "d' = d"
    then show ?thesis by simp
  next
    fix n m'
    let ?f = "\<lambda>j :: job_row. j\<lparr>job_state := job_as_str st, job_collection := collection_as_str c,
       job_manifest := Some m'\<rparr>"
    assume a: "\<not> terminal (rec_state job)"
      "st \<in> {JobCompleted, JobCommandFailed} \<Longrightarrow> rec_state job = JobRunning"
      "\<not> (rec_output_truncated job \<and> c = CollComplete)"
      and up: "update_job rep [''state'', ''collection'', ''manifest''] (\<lambda>j. job_id j = i) ?f d = (Inr n, d')"
    have "in_progress r" using a terminal_as_str [of "rec_state job"] rec(1) by (auto simp: in_progress_def)
    then have "job_update r (?f r)" using st a rec by (intro job_update.finish) auto
    then show ?thesis by (rule steps_job_update [OF ok r(1,2) _ up])
  qed
qed

lemma finish_refines:
  "job_refines (finish_job rep sha js i st c m)"
  "job_refines (finish_job_failure rep sha js i st env)"
  unfolding finish_job_def finish_job_failure_def
  by (intro finish_inner_refines job_refines_if job_refines_err job_refines_lift)+

lemma insert_artifact_Inr:
  "sql_insert_job_artifacts rep a d = (Inr u, d') \<Longrightarrow>
     d' = d\<lparr>job_artifacts := job_artifacts d @ [a]\<rparr> \<and> art_index a \<le> 15
     \<and> unique_on artifact_key (job_artifacts d @ [a])"
  by (auto simp: sql_insert_job_artifacts_def statement_Inr split: if_splits)

lemma keep_artifact_Inr:
  assumes "keep_artifact rep new job old d = (Inr u, d')"
  obtains a where "old = Some a" "art_path a = art_path new" "art_digest a = art_digest new"
      "art_data a = art_data new" "d' = d"
  | "old = None" "rec_state job = JobRunning" "rec_collection job = CollPending"
      "(\<Sum>a\<leftarrow>artifacts_of (art_job_id new) d. length (art_data a)) + length (art_data new)
         \<le> MAX_ARTIFACT_TOTAL_BYTES"
      "\<not> (\<exists>a \<in> set (job_artifacts d). art_job_id a = art_job_id new \<and> art_path a = art_path new)"
      "d' = d\<lparr>job_artifacts := job_artifacts d @ [new]\<rparr>"
proof (cases old)
  case (Some a)
  then show ?thesis using assms that(1) [of a] by (auto simp: keep_artifact_def run_simps split: if_splits)
next
  case None
  then show ?thesis
    using assms that(2) insert_artifact_Inr [of rep new d "()" d'] unfolding keep_artifact_def
    by (auto simp: run_simps jdb_val_def jdb_op_def map_err_def map_sum_Inr get_counter_def
        elim!: bind_op_Inr split: if_splits prod.splits sum.splits)
qed

lemma retain_Inr:
  assumes "retain_job_artifact rep sha i n p x bs d = (Inr v, d')"
  obtains job r where "\<not> invalid_artifact n p bs" "spec_digest sha bs = x"
    "r \<in> set (jobs d)" "job_id r = i" "read_record r = Inr job"
    "keep_artifact rep \<lparr>art_job_id = i, art_index = n, art_path = p, art_digest = x, art_data = bs\<rparr> job
       (find (\<lambda>a. art_job_id a = i \<and> art_index a = n) (job_artifacts d)) d = (Inr (), d')"
    "v = \<lparr>artifact_record_index = n, artifact_record_path = p, artifact_record_digest = x,
        artifact_record_size_bytes = length bs\<rparr>"
  using assms unfolding retain_job_artifact_def if_err_Inr transaction_Inr
  by (elim conjE bind_get_on_Inr) (auto simp: run_simps elim!: bind_op_Inr)

lemma retain_refines: "job_refines (retain_job_artifact rep sha i n p x bs)"
proof (rule job_refinesI)
  show "all_or_nothing (retain_job_artifact rep sha i n p x bs)"
    unfolding retain_job_artifact_def
    by (intro all_or_nothing_if all_or_nothing_err transaction_all_or_nothing)
next
  let ?a = "\<lparr>art_job_id = i, art_index = n, art_path = p, art_digest = x, art_data = bs\<rparr>"
  let ?found = "\<lambda>d. find (\<lambda>a. art_job_id a = i \<and> art_index a = n) (job_artifacts d)"
  fix d v d' assume ok: "store_ok d" and run: "retain_job_artifact rep sha i n p x bs d = (Inr v, d')"
  obtain job r where valid: "\<not> invalid_artifact n p bs"
    and r: "r \<in> set (jobs d)" "job_id r = i" "read_record r = Inr job"
    and keep: "keep_artifact rep ?a job (?found d) d = (Inr (), d')"
    using run by (rule retain_Inr)
  from keep show "steps d d'"
  proof (rule keep_artifact_Inr)
    assume "d' = d"
    then show ?thesis by simp
  next
    assume none: "?found d = None" and job: "rec_state job = JobRunning" "rec_collection job = CollPending"
      and total: "(\<Sum>a\<leftarrow>artifacts_of (art_job_id ?a) d. length (art_data a)) + length (art_data ?a)
         \<le> MAX_ARTIFACT_TOTAL_BYTES"
      and path: "\<not> (\<exists>a \<in> set (job_artifacts d). art_job_id a = art_job_id ?a \<and> art_path a = art_path ?a)"
      and d': "d' = d\<lparr>job_artifacts := job_artifacts d @ [?a]\<rparr>"
    have "journal_step (journal_of d) ((journal_of d)\<lparr>j_artifacts := j_artifacts (journal_of d) @ [?a]\<rparr>)"
      using r job read_record_Inr(1,2) [OF r(3)] total path none valid
      by (intro journal_step.retain [of r])
        (auto simp: kept_of_def artifacts_of_def find_None_iff invalid_artifact_def not_le)
    then show ?thesis by (simp add: d' journal_of_def r_into_rtranclp)
  qed
qed

lemma delete_evidence_refines: "job_refines (delete_job_evidence rep i)"
proof (rule job_refinesI)
  show "all_or_nothing (delete_job_evidence rep i)"
    unfolding delete_job_evidence_def by (rule transaction_all_or_nothing)
next
  let ?d = "\<lambda>d. d\<lparr>job_artifacts := delete_rows (\<lambda>a. art_job_id a = i) (job_artifacts d),
     job_events := delete_rows (\<lambda>e. ev_job_id e = i) (job_events d)\<rparr>"
  fix d x d' assume ok: "store_ok d" and run: "delete_job_evidence rep i d = (Inr x, d')"
  obtain job r n where r: "r \<in> set (jobs d)" "job_id r = i" "\<not> is_tombstone r" "read_record r = Inr job"
    and job: "terminal (rec_state job)" "\<not> rec_cleanup_pending job"
    and up: "update_job rep [''state'', ''specification'', ''manifest'', ''capture_cursor'', ''retained_bytes'']
       (\<lambda>j. job_id j = i) tombstone (?d d) = (Inr n, d')"
    using run unfolding delete_job_evidence_def transaction_Inr tombstone_def
    by (elim bind_get_on_Inr)
      (auto simp: run_simps jdb_op_def map_err_def sql_delete_job_artifacts_def sql_delete_job_events_def
        elim!: bind_op_Inr)
  have "update_rows (\<lambda>j. job_id j = i) tombstone (jobs d) = put_job (tombstone r) (jobs d)"
    using update_rows_by_id [OF store_ok_jobs(1) [OF ok] r(1), of tombstone] r(2)
    by (simp add: tombstone_def)
  then have d': "d' = (?d d)\<lparr>jobs := put_job (tombstone r) (jobs d)\<rparr>"
    using up by (simp add: update_job_Inr)
  have "journal_step (journal_of d) ((journal_of d)\<lparr>j_jobs := put_job (tombstone r) (jobs d),
      j_events := delete_rows (\<lambda>e. ev_job_id e = job_id r) (job_events d),
      j_artifacts := delete_rows (\<lambda>a. art_job_id a = job_id r) (job_artifacts d)\<rparr>)"
    using journal_step.delete [of r "journal_of d"] r job read_record_Inr [OF r(4)]
      terminal_as_str [of "rec_state job"]
    by (auto simp: in_progress_def)
  then show "steps d d'" by (simp add: d' journal_of_def r(2) r_into_rtranclp)
qed

lemma job_refines_for_each:
  assumes "\<And>x. job_refines (f x)" "\<And>x. keeps store_ok (f x)"
  shows "job_refines (for_each f xs)"
proof (induction xs)
  case Nil
  then show ?case by (simp add: job_refines_def ok_def)
next
  case (Cons x xs)
  show ?case
    unfolding job_refines_def
  proof (intro allI impI)
    fix d u d' assume ok: "store_ok d" and run: "for_each f (x # xs) d = (u, d')"
    obtain v d1 where fx: "f x d = (v, d1)" by fastforce
    have 1: "steps d d1" using assms(1) fx ok unfolding job_refines_def by blast
    have ok1: "store_ok d1" using withinD [OF assms(2) fx] ok by blast
    show "steps d d'"
    proof (cases v)
      case (Inl e)
      then show ?thesis using run fx 1 by (simp add: bind_op_def)
    next
      case (Inr w)
      then have "for_each f xs d1 = (u, d')" using run fx by (simp add: bind_op_def)
      then have "steps d1 d'" using Cons ok1 unfolding job_refines_def by blast
      with 1 show ?thesis by (rule rtranclp_trans)
    qed
  qed
qed

lemma expire_refines: "job_refines (expire_job_evidence rep now)"
  unfolding job_refines_def
proof (intro allI impI)
  fix d x d' assume ok: "store_ok d" and run: "expire_job_evidence rep now d = (x, d')"
  have "job_refines (for_each (delete_job_evidence rep) (expired_jobs now d))"
    by (rule job_refines_for_each [OF delete_evidence_refines keeps_job_cleanup(5)])
  moreover obtain u where "for_each (delete_job_evidence rep) (expired_jobs now d) d = (u, d')"
    using run unfolding expire_job_evidence_def
    by (auto simp: bind_op_def ok_def query_def split: prod.splits sum.splits)
  ultimately show "steps d d'" using ok unfolding job_refines_def by blast
qed

subsection \<open>Acceptance\<close>

definition purged :: "DateTime \<Rightarrow> db \<Rightarrow> db" where
  "purged now d = snd (sql_delete_jobs (\<lambda>j. job_state j = ''deleted'' \<and> job_deadline j \<le> timestamp now) d)"

lemma purged_simps:
  "jobs (purged now d) = filter (\<lambda>j. \<not> (job_state j = ''deleted'' \<and> job_deadline j \<le> timestamp now)) (jobs d)"
  by (simp add: purged_def sql_delete_jobs_def Let_def delete_rows_def)

lemma steps_purged: "steps d (purged now d)"
  using journal_step.purge [of "journal_of d" "timestamp now"]
  by (intro r_into_rtranclp)
    (simp add: purged_def sql_delete_jobs_def Let_def journal_of_def is_tombstone_def)

lemma store_ok_purged: "store_ok d \<Longrightarrow> store_ok (purged now d)"
  using keeps_delete_jobs unfolding within_def purged_def by blast

lemma accept_inner_Inr:
  assumes "accept_job_inner rep sha js now i s k sp dl ru b d = (Inr x, d')"
  obtains row where "\<not> invalid_key k" "bounded_json js sp MAX_SPEC_BYTES = Inr ()"
      "find (\<lambda>j. job_submission_key j = k) (jobs (purged now d)) = Some row"
      "replay_job (spec_digest sha (bytes_of sp)) dl row (purged now d) = (Inr x, d')"
  | "\<not> invalid_key k" "bounded_json js sp MAX_SPEC_BYTES = Inr ()"
      "find (\<lambda>j. job_submission_key j = k) (jobs (purged now d)) = None"
      "admit_job rep js now i s k (spec_digest sha (bytes_of sp)) sp dl ru b (purged now d) = (Inr x, d')"
proof -
  have del: "jdb_op (sql_delete_jobs P) d = (Inr (count_rows P (jobs d)), snd (sql_delete_jobs P d))" for P
    by (simp add: jdb_op_def map_err_def sql_delete_jobs_def Let_def)
  have "\<not> invalid_key k" "bounded_json js sp MAX_SPEC_BYTES = Inr ()"
    "(case find (\<lambda>j. job_submission_key j = k) (jobs (purged now d)) of
       Some row \<Rightarrow> replay_job (spec_digest sha (bytes_of sp)) dl row
     | None \<Rightarrow> admit_job rep js now i s k (spec_digest sha (bytes_of sp)) sp dl ru b) (purged now d) = (Inr x, d')"
    using assms unfolding accept_job_inner_def if_err_Inr Let_def
    by (auto simp: run_simps del purged_def query_def elim!: bind_op_Inr)
  then show ?thesis using that by (auto split: option.splits)
qed

lemma replay_Inr:
  "replay_job g dl row d = (Inr x, d') \<Longrightarrow> d' = d \<and> snd x = False \<and> job_state row \<noteq> ''deleted''
     \<and> job_spec_digest row = g \<and> job_deadline row = timestamp dl \<and> get_on (job_id row) d = (Inr (fst x), d)"
  unfolding replay_job_def by (auto simp: run_simps elim!: bind_op_Inr dest: get_on_state)

lemma check_budget_state: "check_budget js b obs sp n m d = (x, d') \<Longrightarrow> d' = d"
  using withinD [OF within_check_budget [OF preorder_same]] by blast

lemma admit_Inr:
  assumes "admit_job rep js now i s k g sp dl ru b d = (Inr x, d')"
  shows "\<not> timestamp dl \<le> timestamp now" "ru > dl" "ru \<le> now + days 30"
    "length (jobs d) < MAX_SUBMISSION_RECEIPTS"
    "count_rows (\<lambda>j. job_state j \<noteq> ''deleted'') (jobs d) < MAX_RETAINED_JOBS"
    "count_rows active_row (jobs d) < MAX_ACTIVE_JOBS"
    "b = Some (bd, obs) \<Longrightarrow> check_budget js bd obs sp (count_rows (\<lambda>j. job_state j \<noteq> ''deleted'') (jobs d))
       (count_rows active_row (jobs d)) d = (Inr (), d)"
    "raised (jobs_constraints (jobs d @ [new_job i s k g sp now dl ru])) = []"
    "d' = d\<lparr>jobs := jobs d @ [new_job i s k g sp now dl ru]\<rparr>"
    "snd x = True" "get_on i d' = (Inr (fst x), d')"
proof -
  let ?budget = "case b of None \<Rightarrow> ok () | Some (bd, obs) \<Rightarrow> check_budget js bd obs sp
     (count_rows (\<lambda>j. job_state j \<noteq> ''deleted'') (jobs d)) (count_rows active_row (jobs d))"
  obtain d0 d1 where g: "\<not> timestamp dl \<le> timestamp now" "ru > dl" "ru \<le> now + days 30"
    "length (jobs d) < MAX_SUBMISSION_RECEIPTS"
    "count_rows (\<lambda>j. job_state j \<noteq> ''deleted'') (jobs d) < MAX_RETAINED_JOBS"
    "count_rows active_row (jobs d) < MAX_ACTIVE_JOBS"
    and b0: "?budget d = (Inr (), d0)"
    and ins: "jdb_op (sql_insert_jobs rep (new_job i s k g sp now dl ru)) d0 = (Inr (), d1)"
    and got: "get_on i d1 = (Inr (fst x), d')" "snd x = True"
    using assms unfolding admit_job_def if_err_Inr bind_query
    by (elim conjE) (simp only: prod.case if_err_Inr, elim conjE bind_op_Inr, auto simp: run_simps)
  have d0: "d0 = d" using b0 by (auto simp: ok_Inr dest: check_budget_state split: option.splits)
  have ins': "raised (jobs_constraints (jobs d @ [new_job i s k g sp now dl ru])) = []"
    "d1 = d\<lparr>jobs := jobs d @ [new_job i s k g sp now dl ru]\<rparr>"
    using ins unfolding d0
    by (auto simp: jdb_op_def map_err_def sql_insert_jobs_def statement_Inr split: prod.splits sum.splits)
  have d1: "d' = d1" by (rule get_on_state [OF got(1)])
  show "\<not> timestamp dl \<le> timestamp now" "ru > dl" "ru \<le> now + days 30"
    "length (jobs d) < MAX_SUBMISSION_RECEIPTS"
    "count_rows (\<lambda>j. job_state j \<noteq> ''deleted'') (jobs d) < MAX_RETAINED_JOBS"
    "count_rows active_row (jobs d) < MAX_ACTIVE_JOBS" "snd x = True"
    by (fact g got(2))+
  show "b = Some (bd, obs) \<Longrightarrow> check_budget js bd obs sp (count_rows (\<lambda>j. job_state j \<noteq> ''deleted'') (jobs d))
       (count_rows active_row (jobs d)) d = (Inr (), d)"
    using b0 d0 by simp
  show "raised (jobs_constraints (jobs d @ [new_job i s k g sp now dl ru])) = []" by (rule ins'(1))
  show "d' = d\<lparr>jobs := jobs d @ [new_job i s k g sp now dl ru]\<rparr>" using ins'(2) d1 by simp
  show "get_on i d' = (Inr (fst x), d')" using got(1) d1 by simp
qed

lemma accept_refines: "job_refines (accept_job_inner rep sha js now i s k sp dl ru b)"
proof (rule job_refinesI)
  show "all_or_nothing (accept_job_inner rep sha js now i s k sp dl ru b)"
    unfolding accept_job_inner_def Let_def
    by (intro all_or_nothing_if all_or_nothing_err all_or_nothing_lift transaction_all_or_nothing)
next
  let ?new = "new_job i s k (spec_digest sha (bytes_of sp)) sp now dl ru"
  let ?p = "purged now :: db \<Rightarrow> db"
  fix d x d' assume ok: "store_ok d"
    and run: "accept_job_inner rep sha js now i s k sp dl ru b d = (Inr x, d')"
  from run show "steps d d'"
  proof (rule accept_inner_Inr)
    fix row assume "replay_job (spec_digest sha (bytes_of sp)) dl row (?p d) = (Inr x, d')"
    then show ?thesis using replay_Inr steps_purged by blast
  next
    assume "admit_job rep js now i s k (spec_digest sha (bytes_of sp)) sp dl ru b (?p d) = (Inr x, d')"
    note a = admit_Inr [OF this]
    have "unique_on job_id (jobs (?p d) @ [?new])" "unique_on job_submission_key (jobs (?p d) @ [?new])"
      using a(8) unfolding raised_jobs_constraints by blast+
    then have "job_id ?new \<notin> job_id ` set (jobs (?p d))"
      "job_submission_key ?new \<notin> job_submission_key ` set (jobs (?p d))"
      by (simp_all add: unique_on_snoc)
    moreover have "accepted_job ?new" by (simp add: accepted_job_def new_job_def)
    ultimately have "journal_step (journal_of (?p d)) ((journal_of (?p d))\<lparr>j_jobs := jobs (?p d) @ [?new]\<rparr>)"
      using a(4-6) journal_step.accept [of ?new "journal_of (?p d)"]
      by (simp add: is_tombstone_def reserved_row_def [abs_def] in_progress_def active_row_def [abs_def])
    then have "steps (?p d) d'" by (simp add: a(9) journal_of_jobs r_into_rtranclp)
    with steps_purged show ?thesis by (rule rtranclp_trans)
  qed
qed

lemma accept_job_refines:
  "job_refines (accept_job rep sha js now i s k sp dl ru)"
  "job_refines (accept_job_with_budget rep sha js now i s k sp dl ru bd obs)"
  unfolding accept_job_def accept_job_with_budget_def by (intro accept_refines job_refines_lift)+

subsection \<open>Captured output\<close>

text \<open>
  The loop of \<open>append_job_events\<close> inserts the events one by one and writes the counters at the
  end. The machine writes them with each event, so the loop is simulated by the tables as they
  would be with the row \<open>cap_row\<close> of the counters at hand.
\<close>

definition cap_row :: "job_row \<Rightarrow> capture \<Rightarrow> job_row" where
  "cap_row r c = r\<lparr>job_capture_cursor := cap_cursor c, job_retained_bytes := cap_bytes c,
     job_output_truncated := cap_truncated c\<rparr>"

definition cap_view :: "job_row \<Rightarrow> capture \<Rightarrow> db \<Rightarrow> journal" where
  "cap_view r c d = (journal_of d)\<lparr>j_jobs := put_job (cap_row r c) (jobs d)\<rparr>"

definition drop_link :: "Uuid \<Rightarrow> capture \<Rightarrow> db \<Rightarrow> bool" where
  "drop_link i c d \<longleftrightarrow> (cap_dropped c \<longleftrightarrow> (\<exists>e \<in> set (log_of i (job_events d)). ev_data e = None))"

lemma put_job_twice: "job_id r' = job_id r \<Longrightarrow> put_job r' (put_job r js) = put_job r' js"
  by (simp add: put_job_def update_rows_def)

lemma put_job_same:
  assumes "unique_on job_id js" "r \<in> set js"
  shows "put_job r js = js"
  unfolding put_job_def update_rows_def
  by (rule map_idI) (use unique_onD [OF assms(1) _ assms(2)] in auto)

lemma insert_event_Inr:
  "jdb_op (sql_insert_job_events rep e) d = (Inr u, d') \<Longrightarrow> d' = d\<lparr>job_events := job_events d @ [e]\<rparr>"
  by (auto simp: jdb_op_def map_err_def sql_insert_job_events_def statement_Inr
      split: prod.splits sum.splits)

lemma append_event_Inr:
  assumes "append_event rep sha i e c d = (Inr c', d')"
  obtains "\<not> invalid_event e" "event_sequence e \<le> cap_cursor c" "c' = c" "d' = d"
      "\<exists>r \<in> set (job_events d). ev_job_id r = i \<and> ev_sequence r = event_sequence e
         \<and> ev_stream r = event_stream e \<and> ev_digest r = sha (event_data e)"
  | keep where "\<not> invalid_event e" "event_sequence e = cap_cursor c + 1"
      "keep \<longleftrightarrow> \<not> cap_dropped c \<and> cap_bytes c + length (event_data e) \<le> MAX_OUTPUT_BYTES"
      "d' = d\<lparr>job_events := job_events d @ [\<lparr>ev_job_id = i, ev_sequence = event_sequence e,
         ev_stream = event_stream e, ev_digest = sha (event_data e),
         ev_data = (if keep then Some (event_data e) else None)\<rparr>]\<rparr>"
      "c' = \<lparr>cap_cursor = event_sequence e,
         cap_bytes = (if keep then cap_bytes c + length (event_data e) else cap_bytes c),
         cap_truncated = (if keep then cap_truncated c else True),
         cap_dropped = (if keep then cap_dropped c else True)\<rparr>"
proof -
  let ?found = "find (\<lambda>r. ev_job_id r = i \<and> ev_sequence r = event_sequence e) (job_events d)"
  let ?keep = "\<not> cap_dropped c \<and> cap_bytes c + length (event_data e) \<le> MAX_OUTPUT_BYTES"
  let ?ev = "\<lparr>ev_job_id = i, ev_sequence = event_sequence e,
         ev_stream = event_stream e, ev_digest = sha (event_data e),
         ev_data = (if ?keep then Some (event_data e) else None)\<rparr>"
  let ?c = "\<lparr>cap_cursor = event_sequence e,
         cap_bytes = (if ?keep then cap_bytes c + length (event_data e) else cap_bytes c),
         cap_truncated = (if ?keep then cap_truncated c else True),
         cap_dropped = (if ?keep then cap_dropped c else True)\<rparr>"
  have v: "\<not> invalid_event e"
    and body: "(if event_sequence e \<le> cap_cursor c then
          bind_op (query (\<lambda>d. find (\<lambda>r. ev_job_id r = i \<and> ev_sequence r = event_sequence e)
              (job_events d))) (\<lambda>old.
          if map_option (\<lambda>r. (ev_stream r, ev_digest r)) old \<noteq> Some (event_stream e, sha (event_data e))
          then err (Conflict ''guest event replay changed'') else ok c)
        else if event_sequence e \<noteq> cap_cursor c + 1 then err (Invalid ''event cursor has a gap'')
        else bind_op (jdb_op (sql_insert_job_events rep ?ev)) (\<lambda>_. ok ?c)) d = (Inr c', d')"
    using assms unfolding append_event_def Let_def if_err_Inr by (rule conjunct1, rule conjunct2)
  show ?thesis
  proof (cases "event_sequence e \<le> cap_cursor c")
    case True
    have "map_option (\<lambda>r. (ev_stream r, ev_digest r)) ?found = Some (event_stream e, sha (event_data e))"
      and same: "c' = c" "d' = d"
      using body unfolding if_P [OF True] bind_query if_err_Inr ok_Inr not_not by simp_all
    then obtain r where "?found = Some r" "ev_stream r = event_stream e" "ev_digest r = sha (event_data e)"
      by auto
    then show ?thesis
      using find_SomeD [OF \<open>?found = Some r\<close>] by (intro that(1) [OF v True same] bexI [of _ r]) simp_all
  next
    case False
    have seq: "event_sequence e = cap_cursor c + 1"
      and b: "bind_op (jdb_op (sql_insert_job_events rep ?ev)) (\<lambda>_. ok ?c) d = (Inr c', d')"
      using body unfolding if_not_P [OF False] if_err_Inr not_not by (rule conjunct1, rule conjunct2)
    obtain u d1 where "jdb_op (sql_insert_job_events rep ?ev) d = (Inr u, d1)"
      and "(ok ?c :: capture journal_op) d1 = (Inr c', d')"
      using b by (rule bind_op_Inr)
    then have "d' = d\<lparr>job_events := job_events d @ [?ev]\<rparr>" "c' = ?c"
      using insert_event_Inr unfolding ok_Inr by (metis, metis)
    then show ?thesis by (rule that(2) [OF v seq refl])
  qed
qed

lemma append_event_view:
  assumes run: "append_event rep sha (job_id r) e c d = (Inr c', d')"
    and r: "r \<in> set (jobs d)" "unique_on job_id (jobs d)" "\<not> is_tombstone r" "job_collection r = ''pending''"
    and link: "drop_link (job_id r) c d"
  shows "journal_step\<^sup>*\<^sup>* (cap_view r c d) (cap_view r c' d') \<and> drop_link (job_id r) c' d' \<and> jobs d' = jobs d"
  using run
proof (rule append_event_Inr)
  assume "c' = c" "d' = d"
  then show ?thesis using link by simp
next
  fix keep
  let ?e = "\<lparr>ev_job_id = job_id r, ev_sequence = event_sequence e, ev_stream = event_stream e,
     ev_digest = sha (event_data e), ev_data = (if keep then Some (event_data e) else None)\<rparr>"
  assume v: "\<not> invalid_event e" and seq: "event_sequence e = cap_cursor c + 1"
    and keep: "keep \<longleftrightarrow> \<not> cap_dropped c \<and> cap_bytes c + length (event_data e) \<le> MAX_OUTPUT_BYTES"
    and d': "d' = d\<lparr>job_events := job_events d @ [?e]\<rparr>"
    and c': "c' = \<lparr>cap_cursor = event_sequence e,
         cap_bytes = (if keep then cap_bytes c + length (event_data e) else cap_bytes c),
         cap_truncated = (if keep then cap_truncated c else True),
         cap_dropped = (if keep then cap_dropped c else True)\<rparr>"
  let ?r = "cap_row r c"
  have id: "job_id ?r = job_id r" by (simp add: cap_row_def)
  have mem: "?r \<in> set (put_job ?r (jobs d))"
    using set_put_job [OF r(2,1) id] by simp
  have kd: "keep = keeps_data ?r (job_events d) (event_data e)"
    using keep link by (simp add: keeps_data_def drop_link_def cap_row_def)
  have row: "captured ?r keep (event_data e) = cap_row r c'"
    using seq by (simp add: captured_def cap_row_def c')
  have "journal_step (cap_view r c d) ((cap_view r c d)\<lparr>
      j_jobs := put_job (captured ?r keep (event_data e)) (j_jobs (cap_view r c d)),
      j_events := j_events (cap_view r c d) @ [?e]\<rparr>)"
  proof (rule journal_step.capture [where stream = "event_stream e" and digest = "sha (event_data e)"])
    show "?r \<in> set (j_jobs (cap_view r c d))" using mem by (simp add: cap_view_def)
    show "\<not> is_tombstone ?r" "job_collection ?r = ''pending''"
      using r(3,4) by (simp_all add: cap_row_def is_tombstone_def)
    show "job_capture_cursor ?r < MAX_EVENTS"
      using v seq by (simp add: cap_row_def invalid_event_def)
    show "keep = keeps_data ?r (j_events (cap_view r c d)) (event_data e)"
      using kd by (simp add: cap_view_def)
    show "?e = \<lparr>ev_job_id = job_id ?r, ev_sequence = job_capture_cursor ?r + 1,
        ev_stream = event_stream e, ev_digest = sha (event_data e),
        ev_data = (if keep then Some (event_data e) else None)\<rparr>"
      using seq by (simp add: cap_row_def)
  qed
  moreover have "(cap_view r c d)\<lparr>j_jobs := put_job (captured ?r keep (event_data e)) (j_jobs (cap_view r c d)),
      j_events := j_events (cap_view r c d) @ [?e]\<rparr> = cap_view r c' d'"
    unfolding row by (simp add: cap_view_def d' journal_of_def put_job_twice cap_row_def)
  moreover have "drop_link (job_id r) c' d'"
    using link by (auto simp: drop_link_def d' c' log_of_simps)
  ultimately show ?thesis by (simp add: d' r_into_rtranclp)
qed

lemma append_events_view:
  assumes "append_events rep sha (job_id r) es c d = (Inr c', d')"
    "r \<in> set (jobs d)" "unique_on job_id (jobs d)" "\<not> is_tombstone r" "job_collection r = ''pending''"
    "drop_link (job_id r) c d"
  shows "journal_step\<^sup>*\<^sup>* (cap_view r c d) (cap_view r c' d') \<and> jobs d' = jobs d"
  using assms
proof (induction es arbitrary: c d)
  case Nil
  then show ?case by (simp add: ok_Inr)
next
  case (Cons e es)
  from Cons.prems(1) obtain c1 d1 where 1: "append_event rep sha (job_id r) e c d = (Inr c1, d1)"
    and 2: "append_events rep sha (job_id r) es c1 d1 = (Inr c', d')"
    by (auto elim: bind_op_Inr)
  have v: "journal_step\<^sup>*\<^sup>* (cap_view r c d) (cap_view r c1 d1)" "drop_link (job_id r) c1 d1" "jobs d1 = jobs d"
    using append_event_view [OF 1] Cons.prems(2-6) by blast+
  have "journal_step\<^sup>*\<^sup>* (cap_view r c1 d1) (cap_view r c' d') \<and> jobs d' = jobs d1"
    by (rule Cons.IH [OF 2]) (use Cons.prems v in simp_all)
  then show ?case using v by (auto intro: rtranclp_trans)
qed

definition first_capture :: "job_row \<Rightarrow> bool \<Rightarrow> db \<Rightarrow> capture" where
  "first_capture r g d =
     \<lparr>cap_cursor = job_capture_cursor r, cap_bytes = job_retained_bytes r,
      cap_truncated = (job_output_truncated r \<or> g),
      cap_dropped = (\<exists>e \<in> set (job_events d). ev_job_id e = job_id r \<and> ev_data e = None)\<rparr>"

lemma append_Inr:
  assumes "append_job_events rep sha i es g d = (Inr u, d')"
  obtains r c d1 n where "length es \<le> EVENT_PAGE_SIZE" "r \<in> set (jobs d)" "job_id r = i"
    "\<not> is_tombstone r" "job_collection r = ''pending''"
    "append_events rep sha i es (first_capture r g d) d = (Inr c, d1)"
    "update_job rep [''capture_cursor'', ''retained_bytes'', ''output_truncated''] (\<lambda>j. job_id j = i)
       (\<lambda>j. cap_row j c) d1 = (Inr n, d')"
proof -
  obtain job r where es: "length es \<le> EVENT_PAGE_SIZE"
    and r: "r \<in> set (jobs d)" "job_id r = i" "\<not> is_tombstone r" "read_record r = Inr job"
    and body: "(if rec_collection job \<noteq> CollPending then err (Conflict ''evidence collection is sealed'')
        else
          bind_op (query (\<lambda>d. \<exists>r \<in> set (job_events d). ev_job_id r = i \<and> ev_data r = None)) (\<lambda>dropped.
          bind_op (append_events rep sha i es
            \<lparr>cap_cursor = rec_capture_cursor job, cap_bytes = rec_retained_bytes job,
             cap_truncated = (rec_output_truncated job \<or> g), cap_dropped = dropped\<rparr>) (\<lambda>c.
          bind_op (update_job rep [''capture_cursor'', ''retained_bytes'', ''output_truncated'']
            (\<lambda>j. job_id j = i) (\<lambda>j. cap_row j c)) (\<lambda>_. ok ())))) d = (Inr u, d')"
    using assms unfolding append_job_events_def cap_row_def [symmetric] if_err_Inr transaction_Inr not_less
    by (elim conjE bind_get_on_Inr) (rule that; assumption)
  note rec = read_record_Inr [OF r(4)]
  have coll: "job_collection r = ''pending''"
    using body rec(2) by (simp add: if_err_Inr)
  have "bind_op (append_events rep sha i es (first_capture r g d)) (\<lambda>c.
          bind_op (update_job rep [''capture_cursor'', ''retained_bytes'', ''output_truncated'']
            (\<lambda>j. job_id j = i) (\<lambda>j. cap_row j c)) (\<lambda>_. ok ())) d = (Inr u, d')"
    using body unfolding if_err_Inr bind_query by (simp add: first_capture_def rec r(2))
  then obtain c d1 where 1: "append_events rep sha i es (first_capture r g d) d = (Inr c, d1)"
    and 2: "bind_op (update_job rep [''capture_cursor'', ''retained_bytes'', ''output_truncated'']
            (\<lambda>j. job_id j = i) (\<lambda>j. cap_row j c)) (\<lambda>_. ok ()) d1 = (Inr u, d')"
    by (rule bind_op_Inr)
  from 2 obtain n where "update_job rep [''capture_cursor'', ''retained_bytes'', ''output_truncated'']
       (\<lambda>j. job_id j = i) (\<lambda>j. cap_row j c) d1 = (Inr n, d')"
    by (elim bind_op_Inr) (simp add: ok_Inr)
  with 1 show ?thesis using that es r(1-3) coll by blast
qed

lemma append_refines: "job_refines (append_job_events rep sha i es g)"
proof (rule job_refinesI)
  show "all_or_nothing (append_job_events rep sha i es g)"
    unfolding append_job_events_def
    by (intro all_or_nothing_if all_or_nothing_err transaction_all_or_nothing)
next
  fix d u d' assume ok: "store_ok d" and run: "append_job_events rep sha i es g d = (Inr u, d')"
  from run obtain r c d1 n where r: "r \<in> set (jobs d)" "job_id r = i" "\<not> is_tombstone r"
      "job_collection r = ''pending''"
    and loop: "append_events rep sha i es (first_capture r g d) d = (Inr c, d1)"
    and up: "update_job rep [''capture_cursor'', ''retained_bytes'', ''output_truncated''] (\<lambda>j. job_id j = i)
       (\<lambda>j. cap_row j c) d1 = (Inr n, d')"
    by (rule append_Inr)
  let ?c0 = "first_capture r g d"
  have u: "unique_on job_id (jobs d)" by (rule store_ok_jobs(1) [OF ok])
  have link: "drop_link (job_id r) ?c0 d"
    by (auto simp: drop_link_def first_capture_def log_of_def)
  have loop': "append_events rep sha (job_id r) es ?c0 d = (Inr c, d1)" using loop r(2) by simp
  have v: "journal_step\<^sup>*\<^sup>* (cap_view r ?c0 d) (cap_view r c d1)" "jobs d1 = jobs d"
    using append_events_view [OF loop' r(1) u r(3,4) link] by blast+
  have start: "journal_step\<^sup>*\<^sup>* (journal_of d) (cap_view r ?c0 d)"
  proof (cases g)
    case True
    have "job_update r (cap_row r ?c0)"
      using job_update.truncate [OF r(3,4)] True by (simp add: cap_row_def first_capture_def)
    then have "journal_step (journal_of d) (cap_view r ?c0 d)"
      using journal_step.update [of r "journal_of d"] r(1) by (simp add: cap_view_def)
    then show ?thesis by (rule r_into_rtranclp)
  next
    case False
    then have "cap_row r ?c0 = r" by (simp add: cap_row_def first_capture_def)
    then have "cap_view r ?c0 d = journal_of d"
      using put_job_same [OF u r(1)] by (simp add: cap_view_def journal_of_def)
    then show ?thesis by simp
  qed
  have "update_rows (\<lambda>j. job_id j = i) (\<lambda>j. cap_row j c) (jobs d1) = put_job (cap_row r c) (jobs d1)"
    using update_rows_by_id [of "jobs d1" r "\<lambda>j. cap_row j c"] u r v(2) by (simp add: cap_row_def)
  then have "journal_of d' = cap_view r c d1"
    using up by (simp add: update_job_Inr cap_view_def journal_of_jobs)
  then show "steps d d'" using start v(1) by (simp add: rtranclp_trans)
qed

text \<open>All of them.\<close>

lemmas journal_refines = accept_job_refines reserve_refines bind_refines bind_with_lease_refines
  mark_running_refines append_refines stage_refines retain_refines finish_refines
  destruction_refines allocation_abort_refines prebackend_abort_refines confirm_cleanup_refines
  confirm_unallocated_refines delete_evidence_refines expire_refines

end
