(* ===== verification/Store_Frames.thy ===== *)
theory Store_Frames
  imports Vm_Contracts Lease_Contracts Job_Refinement
begin

text \<open>
  What an operation leaves alone. Two views of the store matter to invariants that span
  components: the journal (\<open>journal_of\<close>) and the context identifiers (\<open>cid_view\<close>: the
  allocator's two tables and the identifiers held by VM records and by leases). The lemmas
  collected in \<open>journal_frame\<close> and \<open>cid_frame\<close> say which statements and operations change
  neither.
\<close>

named_theorems journal_frame \<open>statements and operations that leave the journal alone\<close>
named_theorems cid_frame \<open>statements and operations that leave the context identifiers alone\<close>

abbreviation same_journal :: "(db, 'e, 'a) op \<Rightarrow> bool" where
  "same_journal \<equiv> within (\<lambda>s t. journal_of t = journal_of s)"

definition cid_view :: "db \<Rightarrow> int \<times> int list \<times> int list \<times> int list" where
  "cid_view d = (next_cid d, freed_cids d, map vm_vsock_cid (vms d), map lease_vsock_cid (leases d))"

abbreviation same_cids :: "(db, 'e, 'a) op \<Rightarrow> bool" where
  "same_cids \<equiv> within (\<lambda>s t. cid_view t = cid_view s)"

subsection \<open>Statements\<close>

lemma same_journal_statement:
  "(\<And>d. journal_of (effect d) = journal_of d) \<Longrightarrow> same_journal (statement rep tr cs res effect)"
  by (simp add: within_def statement_def)

lemma same_cids_statement:
  "(\<And>d. cid_view (effect d) = cid_view d) \<Longrightarrow> same_cids (statement rep tr cs res effect)"
  by (simp add: within_def statement_def)

lemma journal_frame_vms [journal_frame]:
  "same_journal (sql_insert_vms rep r)" "same_journal (sql_update_vms rep cols P f)"
  "same_journal (sql_delete_vms rep P)" "same_journal (sql_create_ordinal_index rep)"
  "same_journal (sql_insert_expirations rep x)" "same_journal (sql_insert_port_forwards rep p)"
  unfolding sql_insert_vms_def sql_update_vms_def sql_delete_vms_def sql_create_ordinal_index_def
    sql_insert_expirations_def sql_insert_port_forwards_def
  by (rule same_journal_statement; simp add: journal_of_def Let_def)+

lemma journal_frame_catalogs [journal_frame]:
  "same_journal (sql_insert_host_groups rep g)" "same_journal (sql_insert_services rep s)"
  "same_journal (sql_insert_snapshots rep n)" "same_journal (sql_insert_images rep m)"
  "same_journal (sql_insert_secrets rep c)" "same_journal (sql_insert_volumes rep v)"
  "same_journal (sql_delete_volumes rep V)" "same_journal (sql_insert_pools rep p)"
  unfolding sql_insert_host_groups_def sql_insert_services_def sql_insert_snapshots_def
    sql_insert_images_def sql_insert_secrets_def sql_insert_volumes_def sql_delete_volumes_def
    sql_insert_pools_def
  by (rule same_journal_statement; simp add: journal_of_def)+

lemma journal_frame_leases [journal_frame]:
  "same_journal (sql_insert_leases rep l)" "same_journal (sql_update_leases rep cols P f)"
  "same_journal (sql_delete_leases rep P)" "same_journal (sql_insert_boot_epochs rep e)"
  "same_journal (sql_insert_or_ignore_boot_epochs rep e)" "same_journal (sql_update_boot_epochs rep Q g)"
  "same_journal (sql_delete_boot_epochs rep Q)"
  unfolding sql_insert_leases_def sql_update_leases_def sql_delete_leases_def
    sql_insert_boot_epochs_def sql_insert_or_ignore_boot_epochs_def sql_update_boot_epochs_def
    sql_delete_boot_epochs_def
  by (rule same_journal_statement; simp add: journal_of_def Let_def)+

lemma journal_frame_plain [journal_frame]:
  "same_journal (sql_delete_port_forwards P1)" "same_journal (sql_delete_host_groups P2)"
  "same_journal (sql_update_services P3 f3)" "same_journal (sql_delete_services P3)"
  "same_journal (sql_delete_snapshots P4)" "same_journal (sql_delete_images P5)"
  "same_journal (sql_update_secrets P6 f6)" "same_journal (sql_delete_secrets P6)"
  "same_journal (sql_delete_pools P7)" "same_journal (sql_update_next_cid h)"
  "same_journal (sql_insert_or_ignore_freed_cids c)" "same_journal (sql_delete_freed_cids P8)"
  unfolding sql_delete_port_forwards_def sql_delete_host_groups_def sql_update_services_def
    sql_delete_services_def sql_delete_snapshots_def sql_delete_images_def sql_update_secrets_def
    sql_delete_secrets_def sql_delete_pools_def sql_update_next_cid_def
    sql_insert_or_ignore_freed_cids_def sql_delete_freed_cids_def
  by (simp_all add: within_def journal_of_def Let_def)

lemma cid_frame_update_vms:
  assumes "\<And>r. vm_vsock_cid (f r) = vm_vsock_cid r"
  shows "same_cids (sql_update_vms rep cols P f)"
  unfolding sql_update_vms_def
  by (rule same_cids_statement) (simp add: cid_view_def map_update_rows assms)

lemma cid_frame_update_leases:
  assumes "\<And>l. lease_vsock_cid (f l) = lease_vsock_cid l"
  shows "same_cids (sql_update_leases rep cols P f)"
  unfolding sql_update_leases_def
  by (rule same_cids_statement) (simp add: cid_view_def map_update_rows assms)

lemma cid_frame_statements [cid_frame]:
  "same_cids (sql_create_ordinal_index rep)" "same_cids (sql_insert_expirations rep x)"
  "same_cids (sql_insert_port_forwards rep p)" "same_cids (sql_insert_host_groups rep g)"
  "same_cids (sql_insert_services rep s)" "same_cids (sql_insert_snapshots rep n)"
  "same_cids (sql_insert_images rep m)" "same_cids (sql_insert_secrets rep c)"
  "same_cids (sql_insert_volumes rep v)" "same_cids (sql_delete_volumes rep V)"
  "same_cids (sql_insert_pools rep q)" "same_cids (sql_insert_boot_epochs rep e)"
  "same_cids (sql_insert_or_ignore_boot_epochs rep e)" "same_cids (sql_update_boot_epochs rep Q g')"
  "same_cids (sql_delete_boot_epochs rep Q)" "same_cids (sql_insert_jobs rep j)"
  "same_cids (sql_update_jobs rep cols J f)" "same_cids (sql_insert_job_events rep ev)"
  "same_cids (sql_insert_job_artifacts rep ar)"
  unfolding sql_create_ordinal_index_def sql_insert_expirations_def sql_insert_port_forwards_def
    sql_insert_host_groups_def sql_insert_services_def sql_insert_snapshots_def
    sql_insert_images_def sql_insert_secrets_def sql_insert_volumes_def sql_delete_volumes_def
    sql_insert_pools_def sql_insert_boot_epochs_def sql_insert_or_ignore_boot_epochs_def
    sql_update_boot_epochs_def sql_delete_boot_epochs_def sql_insert_jobs_def sql_update_jobs_def
    sql_insert_job_events_def sql_insert_job_artifacts_def
  by (rule same_cids_statement; simp add: cid_view_def)+

lemma cid_frame_plain [cid_frame]:
  "same_cids (sql_delete_port_forwards P1)" "same_cids (sql_delete_host_groups P2)"
  "same_cids (sql_update_services P3 f3)" "same_cids (sql_delete_services P3)"
  "same_cids (sql_delete_snapshots P4)" "same_cids (sql_delete_images P5)"
  "same_cids (sql_update_secrets P6 f6)" "same_cids (sql_delete_secrets P6)"
  "same_cids (sql_delete_pools P7)" "same_cids (sql_delete_jobs P8)"
  "same_cids (sql_delete_job_events P9)" "same_cids (sql_delete_job_artifacts P10)"
  unfolding sql_delete_port_forwards_def sql_delete_host_groups_def sql_update_services_def
    sql_delete_services_def sql_delete_snapshots_def sql_delete_images_def sql_update_secrets_def
    sql_delete_secrets_def sql_delete_pools_def sql_delete_jobs_def sql_delete_job_events_def
    sql_delete_job_artifacts_def
  by (simp_all add: within_def cid_view_def Let_def)

subsection \<open>Operations\<close>

lemma within_catalog_errors [within_intros]:
  "preorder_on_states R \<Longrightarrow> within R (insert_vm_error r e)"
  "preorder_on_states R \<Longrightarrow> within R (insert_pool_error q e)"
  unfolding insert_vm_error_def insert_pool_error_def by (cases e; auto intro!: within_intros)+

lemma journal_frame_catalog_ops [journal_frame]:
  "same_journal (insert_host_group rep g)" "same_journal (insert_service rep s)"
    "same_journal (insert_snapshot rep p)" "same_journal (insert_image rep m)"
    "same_journal (insert_secret rep c)" "same_journal (insert_volume rep v)"
    "same_journal (insert_pool rep q)" "same_journal (update_service_desired_instances now i n)"
    "same_journal (update_secret_payload now i ct nc)" "same_journal (delete_host_group i)"
    "same_journal (delete_service i)" "same_journal (delete_snapshot i)"
    "same_journal (delete_image i)" "same_journal (delete_secret i)"
    "same_journal (delete_volume rep i)" "same_journal (delete_unattached_volume_by_name rep nm)"
    "same_journal (delete_pool_by_name nm)"
  unfolding insert_host_group_def insert_service_def insert_snapshot_def insert_image_def insert_secret_def
    insert_volume_def insert_pool_def update_service_desired_instances_def
    update_secret_payload_def delete_host_group_def delete_service_def delete_snapshot_def
    delete_image_def delete_secret_def delete_volume_def delete_unattached_volume_by_name_def
    delete_pool_by_name_def
  by (intro within_intros journal_frame preorder_eq_on)+

lemma journal_frame_vm_updates [journal_frame]:
  "same_journal (update_vm_state rep now i st)"
    "same_journal (update_vm_runtime rep now i st pid)"
    "same_journal (mark_vm_stopped rep now i)"
    "same_journal (clear_vm_network_resources rep now i)"
    "same_journal (touch_last_activity rep i at)" "same_journal (set_suspended_at rep i at')"
    "same_journal (set_idle_policy rep i idle ttl auto)"
    "same_journal (update_vm_guest_ip rep now i ip)"
    "same_journal (transition_userdata_status rep now i us us')"
    "same_journal (mark_stale_vms_stopped rep now)"
    "same_journal (create_service_ordinal_index rep)" "same_journal (insert_port_forward rep p)"
    "same_journal (delete_port_forward port)" "same_journal (delete_port_forwards_for_vm i)"
    "same_journal clear_all_port_forwards"
  unfolding update_vm_state_def update_vm_runtime_def mark_vm_stopped_def clear_vm_network_resources_def
    touch_last_activity_def set_suspended_at_def set_idle_policy_def update_vm_guest_ip_def
    transition_userdata_status_def mark_stale_vms_stopped_def create_service_ordinal_index_def
    insert_port_forward_def delete_port_forward_def delete_port_forwards_for_vm_def
    clear_all_port_forwards_def update_vm_def
  by (intro within_intros journal_frame preorder_eq_on)+

lemma journal_frame_vm_rows [journal_frame]:
  "same_journal (insert_vm_on rep r)" "same_journal (insert_vm rep r)"
    "same_journal (insert_vm_with_expiration rep r x)" "same_journal (delete_vm rep i)"
    "same_journal (retire_vm rep i)" "same_journal (retire_pool_template rep pl i)"
  unfolding insert_vm_on_def insert_vm_def insert_vm_with_expiration_def delete_vm_def retire_vm_def
    retire_pool_template_def insert_vm_expiration_on_def
  by (intro within_intros journal_frame preorder_eq_on)+

lemma journal_frame_lease_ops [journal_frame]:
  "same_journal allocate_cid" "same_journal (ensure_cid_base b)" "same_journal (release_cid cid)"
    "same_journal (observe_on rep current l)" "same_journal (prepare_entry_on rep l current)"
    "same_journal (observe_legacy_lease_boots rep current)"
    "same_journal (confirm_lease_reboot_on rep l current)"
    "same_journal (confirm_host_resource_lease_reboot rep current l)"
    "same_journal (confirmed_on l)"
    "same_journal (enter_host_resource_lease_backend rep current l vm)"
    "same_journal (record_host_resource_lease_destruction rep l vm)"
    "same_journal (set_host_resource_lease_network rep l tap ip)"
    "same_journal (begin_host_resource_lease_inner rep current l now nm v)"
    "same_journal (begin_host_resource_lease rep current l now nm)"
    "same_journal (begin_host_resource_lease_for_vm rep current l now nm vm)"
    "same_journal (release_host_resource_lease rep l)"
    "same_journal (commit_vm_from_host_resource_lease_with_expiration rep r l x)"
    "same_journal (commit_vm_from_host_resource_lease rep r l)"
  unfolding allocate_cid_def ensure_cid_base_def release_cid_def observe_on_def prepare_entry_on_def
    observe_legacy_lease_boots_def confirm_lease_reboot_on_def
    confirm_host_resource_lease_reboot_def confirmed_on_def enter_host_resource_lease_backend_def
    record_host_resource_lease_destruction_def set_host_resource_lease_network_def
    begin_host_resource_lease_inner_def begin_host_resource_lease_def
    begin_host_resource_lease_for_vm_def release_host_resource_lease_def
    commit_vm_from_host_resource_lease_with_expiration_def commit_vm_from_host_resource_lease_def
    insert_host_resource_lease_def lease_cid_def commit_leased_def insert_vm_expiration_on_def
  by (intro within_intros journal_frame preorder_eq_on)+

lemma cid_frame_catalog_ops [cid_frame]:
  "same_cids (insert_host_group rep g)" "same_cids (insert_service rep s)"
    "same_cids (insert_snapshot rep p)" "same_cids (insert_image rep m)"
    "same_cids (insert_secret rep c)" "same_cids (insert_volume rep v)"
    "same_cids (insert_pool rep q)" "same_cids (update_service_desired_instances now i n)"
    "same_cids (update_secret_payload now i ct nc)" "same_cids (delete_host_group i)"
    "same_cids (delete_service i)" "same_cids (delete_snapshot i)" "same_cids (delete_image i)"
    "same_cids (delete_secret i)" "same_cids (delete_volume rep i)"
    "same_cids (delete_unattached_volume_by_name rep nm)" "same_cids (delete_pool_by_name nm)"
  unfolding insert_host_group_def insert_service_def insert_snapshot_def insert_image_def insert_secret_def
    insert_volume_def insert_pool_def update_service_desired_instances_def
    update_secret_payload_def delete_host_group_def delete_service_def delete_snapshot_def
    delete_image_def delete_secret_def delete_volume_def delete_unattached_volume_by_name_def
    delete_pool_by_name_def
  by (intro within_intros cid_frame preorder_eq_on)+

lemma cid_frame_vm_updates [cid_frame]:
  "same_cids (update_vm_state rep now i st)" "same_cids (update_vm_runtime rep now i st pid)"
    "same_cids (mark_vm_stopped rep now i)" "same_cids (clear_vm_network_resources rep now i)"
    "same_cids (touch_last_activity rep i at)" "same_cids (set_suspended_at rep i at')"
    "same_cids (set_idle_policy rep i idle ttl auto)"
    "same_cids (update_vm_guest_ip rep now i ip)"
    "same_cids (transition_userdata_status rep now i us us')"
    "same_cids (mark_stale_vms_stopped rep now)"
  unfolding update_vm_state_def update_vm_runtime_def mark_vm_stopped_def clear_vm_network_resources_def
    touch_last_activity_def set_suspended_at_def set_idle_policy_def update_vm_guest_ip_def
    transition_userdata_status_def mark_stale_vms_stopped_def update_vm_def
  by (intro within_intros cid_frame cid_frame_update_vms preorder_eq_on; simp)+

lemma cid_frame_vm_misc [cid_frame]:
  "same_cids (create_service_ordinal_index rep)" "same_cids (insert_port_forward rep p)"
    "same_cids (delete_port_forward port)" "same_cids (delete_port_forwards_for_vm i)"
    "same_cids clear_all_port_forwards"
  unfolding create_service_ordinal_index_def insert_port_forward_def delete_port_forward_def
    delete_port_forwards_for_vm_def clear_all_port_forwards_def
  by (intro within_intros cid_frame preorder_eq_on)+

lemma cid_frame_lease_updates [cid_frame]:
  "same_cids (observe_on rep current l)" "same_cids (prepare_entry_on rep l current)"
    "same_cids (observe_legacy_lease_boots rep current)"
    "same_cids (confirm_lease_reboot_on rep l current)"
    "same_cids (confirm_host_resource_lease_reboot rep current l)" "same_cids (confirmed_on l)"
    "same_cids (enter_host_resource_lease_backend rep current l vm)"
    "same_cids (record_host_resource_lease_destruction rep l vm)"
    "same_cids (set_host_resource_lease_network rep l tap ip)"
  unfolding observe_on_def prepare_entry_on_def observe_legacy_lease_boots_def confirm_lease_reboot_on_def
    confirm_host_resource_lease_reboot_def confirmed_on_def enter_host_resource_lease_backend_def
    record_host_resource_lease_destruction_def set_host_resource_lease_network_def
  by (intro within_intros cid_frame cid_frame_update_leases preorder_eq_on; simp)+

lemma cid_frame_update_job [cid_frame]: "same_cids (update_job rep cols P f)"
  unfolding update_job_def by (intro within_intros cid_frame)

lemma cid_frame_append_events [cid_frame]: "same_cids (append_events rep sha i es c)"
proof (induction es arbitrary: c)
  case Nil
  then show ?case by (simp add: within_ok preorder_eq_on)
next
  case (Cons e es)
  have "same_cids (append_event rep sha i e c)"
    unfolding append_event_def by (intro within_intros cid_frame preorder_eq_on)
  then show ?case by (simp add: Cons within_bind preorder_eq_on)
qed

lemma cid_frame_job_submission [cid_frame]:
  "same_cids (accept_job rep sha js now i s k sp dl ru)"
  "same_cids (accept_job_with_budget rep sha js now i s k sp dl ru b obs)"
  unfolding accept_job_def accept_job_with_budget_def accept_job_inner_def admit_job_def
    check_budget_def
  by (intro within_intros cid_frame preorder_eq_on)+

lemma cid_frame_job_ownership [cid_frame]:
  "same_cids (bind_on rep now i vm n)" "same_cids (reserve_job_vm rep hy now i)"
  "same_cids (claim_job_vm rep hy now i)" "same_cids (bind_job_vm rep now i vm n)"
  "same_cids (mark_job_running rep now i)"
  unfolding bind_on_def reserve_job_vm_def claim_job_vm_def reserve_job_vm_inner_def
    bind_job_vm_def mark_job_running_def
  by (intro within_intros cid_frame preorder_eq_on)+

lemma cid_frame_job_evidence [cid_frame]:
  "same_cids (append_job_events rep sha i es g)" "same_cids (stage_job_manifest rep js i m)"
  "same_cids (retain_job_artifact rep sha i ix p dg bs)"
  "same_cids (finish_job_inner rep sha js i st c m pre)" "same_cids (finish_job rep sha js i st c m)"
  "same_cids (finish_job_failure rep sha js i st m)"
  unfolding append_job_events_def stage_job_manifest_def retain_job_artifact_def
    keep_artifact_def finish_job_inner_def publish_result_def finish_job_def finish_job_failure_def
  by (intro within_intros cid_frame preorder_eq_on)+

lemma cid_frame_job_cleanup [cid_frame]:
  "same_cids (record_job_vm_destruction rep vm)" "same_cids (record_job_vm_allocation_abort rep i vm)"
  "same_cids (confirm_job_cleanup rep i vm)" "same_cids (confirm_unallocated_job_cleanup rep i n)"
  "same_cids (delete_job_evidence rep i)"
  unfolding record_job_vm_destruction_def record_job_vm_allocation_abort_def
    confirm_job_cleanup_def confirm_unallocated_job_cleanup_def delete_job_evidence_def changed_or_def
  by (intro within_intros cid_frame preorder_eq_on)+

lemma cid_frame_job_rest [cid_frame]:
  "same_cids (record_job_leased_prebackend_abort rep hy i vm l)"
  "same_cids (expire_job_evidence rep now)"
  unfolding record_job_leased_prebackend_abort_def expire_job_evidence_def
  by (intro within_intros cid_frame cid_frame_update_leases preorder_eq_on; simp)+

end
