(* ===== verification/Store_Reachability.thy ===== *)
theory Store_Reachability
  imports Store_Frames Pools
begin

text \<open>
  The store as a state machine. Every operation that changes the store is a rule of a step
  relation, with its outcome, success or failure, and with every argument it can be called
  with; the states the daemon can reach are those these steps lead to from a new database. The
  invariants that span components hold on all of them: the schema invariant, the journal
  invariant with the history of every job, and the exclusive ownership of context identifiers.
\<close>

subsection \<open>Steps\<close>

inductive catalog_step :: "db \<Rightarrow> db \<Rightarrow> bool" where
  insert_host_group: "insert_host_group rep g d = (x, d') \<Longrightarrow> catalog_step d d'"
| delete_host_group: "delete_host_group i d = (x, d') \<Longrightarrow> catalog_step d d'"
| insert_service: "insert_service rep s d = (x, d') \<Longrightarrow> catalog_step d d'"
| update_service_desired_instances:
    "update_service_desired_instances now i n d = (x, d') \<Longrightarrow> catalog_step d d'"
| delete_service: "delete_service i d = (x, d') \<Longrightarrow> catalog_step d d'"
| insert_snapshot: "insert_snapshot rep p d = (x, d') \<Longrightarrow> catalog_step d d'"
| delete_snapshot: "delete_snapshot i d = (x, d') \<Longrightarrow> catalog_step d d'"
| insert_image: "insert_image rep m d = (x, d') \<Longrightarrow> catalog_step d d'"
| delete_image: "delete_image i d = (x, d') \<Longrightarrow> catalog_step d d'"
| insert_secret: "insert_secret rep c d = (x, d') \<Longrightarrow> catalog_step d d'"
| update_secret_payload: "update_secret_payload now i ct nc d = (x, d') \<Longrightarrow> catalog_step d d'"
| delete_secret: "delete_secret i d = (x, d') \<Longrightarrow> catalog_step d d'"
| insert_volume: "insert_volume rep v d = (x, d') \<Longrightarrow> catalog_step d d'"
| delete_volume: "delete_volume rep i d = (x, d') \<Longrightarrow> catalog_step d d'"
| delete_unattached_volume_by_name:
    "delete_unattached_volume_by_name rep n d = (y, d') \<Longrightarrow> catalog_step d d'"
| insert_pool: "insert_pool rep q d = (x, d') \<Longrightarrow> catalog_step d d'"
| delete_pool_by_name: "delete_pool_by_name n d = (x, d') \<Longrightarrow> catalog_step d d'"

inductive vm_step :: "db \<Rightarrow> db \<Rightarrow> bool" where
  update_vm_state: "update_vm_state rep now i st d = (x, d') \<Longrightarrow> vm_step d d'"
| update_vm_runtime: "update_vm_runtime rep now i st pid d = (x, d') \<Longrightarrow> vm_step d d'"
| mark_vm_stopped: "mark_vm_stopped rep now i d = (x, d') \<Longrightarrow> vm_step d d'"
| clear_vm_network_resources: "clear_vm_network_resources rep now i d = (x, d') \<Longrightarrow> vm_step d d'"
| touch_last_activity: "touch_last_activity rep i at d = (x, d') \<Longrightarrow> vm_step d d'"
| set_suspended_at: "set_suspended_at rep i at' d = (x, d') \<Longrightarrow> vm_step d d'"
| set_idle_policy: "set_idle_policy rep i idle ttl auto d = (x, d') \<Longrightarrow> vm_step d d'"
| update_vm_guest_ip: "update_vm_guest_ip rep now i ip d = (x, d') \<Longrightarrow> vm_step d d'"
| transition_userdata_status:
    "transition_userdata_status rep now i us us' d = (y, d') \<Longrightarrow> vm_step d d'"
| mark_stale_vms_stopped: "mark_stale_vms_stopped rep now d = (n, d') \<Longrightarrow> vm_step d d'"
| create_service_ordinal_index: "create_service_ordinal_index rep d = (x, d') \<Longrightarrow> vm_step d d'"
| insert_port_forward: "insert_port_forward rep p d = (x, d') \<Longrightarrow> vm_step d d'"
| delete_port_forward: "delete_port_forward port d = (x, d') \<Longrightarrow> vm_step d d'"
| delete_port_forwards_for_vm: "delete_port_forwards_for_vm i d = (x, d') \<Longrightarrow> vm_step d d'"
| clear_all_port_forwards: "clear_all_port_forwards d = (x, d') \<Longrightarrow> vm_step d d'"

text \<open>The steps that take, hand over and return a context identifier, and those on a lease.\<close>

inductive lease_step :: "db \<Rightarrow> db \<Rightarrow> bool" where
  retire_vm: "retire_vm rep i d = (x, d') \<Longrightarrow> lease_step d d'"
| retire_pool_template: "retire_pool_template rep p i d = (x, d') \<Longrightarrow> lease_step d d'"
| ensure_cid_base: "ensure_cid_base b d = (x, d') \<Longrightarrow> lease_step d d'"
| begin_lease: "begin_host_resource_lease_inner rep current i now n v d = (l, d') \<Longrightarrow> lease_step d d'"
| release_lease: "release_host_resource_lease rep i d = (x, d') \<Longrightarrow> lease_step d d'"
| commit_lease:
    "commit_vm_from_host_resource_lease_with_expiration rep r i e d = (x, d') \<Longrightarrow> lease_step d d'"
| enter_backend: "enter_host_resource_lease_backend rep current i vm d = (x, d') \<Longrightarrow> lease_step d d'"
| record_destruction: "record_host_resource_lease_destruction rep i vm d = (x, d') \<Longrightarrow> lease_step d d'"
| set_network: "set_host_resource_lease_network rep i tap ip d = (x, d') \<Longrightarrow> lease_step d d'"
| observe_legacy: "observe_legacy_lease_boots rep current d = (x, d') \<Longrightarrow> lease_step d d'"
| confirm_reboot: "confirm_host_resource_lease_reboot rep current i d = (y, d') \<Longrightarrow> lease_step d d'"

text \<open>The journal's steps, for the SHA-256, JSON and UUID functions in use.\<close>

inductive job_step :: "'v json \<Rightarrow> (bytes \<Rightarrow> string) \<Rightarrow> (Uuid \<Rightarrow> string) \<Rightarrow> db \<Rightarrow> db \<Rightarrow> bool"
  for js sha hy where
  accept_job: "accept_job rep sha js now i s k sp dl ru d = (a, d') \<Longrightarrow> job_step js sha hy d d'"
| accept_job_with_budget:
    "accept_job_with_budget rep sha js now i s k sp dl ru b obs d = (a, d') \<Longrightarrow> job_step js sha hy d d'"
| reserve_job_vm: "reserve_job_vm rep hy now i d = (j, d') \<Longrightarrow> job_step js sha hy d d'"
| claim_job_vm: "claim_job_vm rep hy now i d = (j, d') \<Longrightarrow> job_step js sha hy d d'"
| bind_job_vm: "bind_job_vm rep now i vm n d = (j, d') \<Longrightarrow> job_step js sha hy d d'"
| bind_job_vm_with_lease:
    "bind_job_vm_with_lease rep current l now i vm n d = (b', d') \<Longrightarrow> job_step js sha hy d d'"
| mark_job_running: "mark_job_running rep now i d = (x, d') \<Longrightarrow> job_step js sha hy d d'"
| append_job_events: "append_job_events rep sha i es g d = (x, d') \<Longrightarrow> job_step js sha hy d d'"
| stage_job_manifest: "stage_job_manifest rep js i m d = (x, d') \<Longrightarrow> job_step js sha hy d d'"
| retain_job_artifact:
    "retain_job_artifact rep sha i ix p dg bs d = (r, d') \<Longrightarrow> job_step js sha hy d d'"
| finish_job: "finish_job rep sha js i st c m d = (j, d') \<Longrightarrow> job_step js sha hy d d'"
| finish_job_failure: "finish_job_failure rep sha js i st m d = (j, d') \<Longrightarrow> job_step js sha hy d d'"
| record_job_vm_destruction: "record_job_vm_destruction rep vm d = (x, d') \<Longrightarrow> job_step js sha hy d d'"
| record_job_vm_allocation_abort:
    "record_job_vm_allocation_abort rep i vm d = (x, d') \<Longrightarrow> job_step js sha hy d d'"
| record_job_leased_prebackend_abort:
    "record_job_leased_prebackend_abort rep hy i vm l' d = (x, d') \<Longrightarrow> job_step js sha hy d d'"
| confirm_job_cleanup: "confirm_job_cleanup rep i vm d = (x, d') \<Longrightarrow> job_step js sha hy d d'"
| confirm_unallocated_job_cleanup:
    "confirm_unallocated_job_cleanup rep i n d = (x, d') \<Longrightarrow> job_step js sha hy d d'"
| delete_job_evidence: "delete_job_evidence rep i d = (x, d') \<Longrightarrow> job_step js sha hy d d'"
| expire_job_evidence: "expire_job_evidence rep now d = (k', d') \<Longrightarrow> job_step js sha hy d d'"

text \<open>
  The daemon creates VM records only by committing a lease and removes them only by retiring
  them; the primitive operations below are for direct use of the store.
\<close>

inductive direct_step :: "db \<Rightarrow> db \<Rightarrow> bool" where
  insert_vm: "insert_vm rep r d = (x, d') \<Longrightarrow> direct_step d d'"
| insert_vm_with_expiration: "insert_vm_with_expiration rep r e d = (x, d') \<Longrightarrow> direct_step d d'"
| delete_vm: "delete_vm rep i d = (x, d') \<Longrightarrow> direct_step d d'"
| allocate_cid: "allocate_cid d = (c, d') \<Longrightarrow> direct_step d d'"
| release_cid: "release_cid c' d = (x, d') \<Longrightarrow> direct_step d d'"

definition daemon_step ::
  "'v json \<Rightarrow> (bytes \<Rightarrow> string) \<Rightarrow> (Uuid \<Rightarrow> string) \<Rightarrow> db \<Rightarrow> db \<Rightarrow> bool" where
  "daemon_step js sha hy d d' \<longleftrightarrow>
     catalog_step d d' \<or> vm_step d d' \<or> lease_step d d' \<or> job_step js sha hy d d'"

definition store_step ::
  "'v json \<Rightarrow> (bytes \<Rightarrow> string) \<Rightarrow> (Uuid \<Rightarrow> string) \<Rightarrow> db \<Rightarrow> db \<Rightarrow> bool" where
  "store_step js sha hy d d' \<longleftrightarrow> daemon_step js sha hy d d' \<or> direct_step d d'"

subsection \<open>The schema invariant\<close>

lemma store_ok_catalog: "catalog_step d d' \<Longrightarrow> store_ok d \<Longrightarrow> store_ok d'"
  by (induction rule: catalog_step.induct) (drule keeps_store_ok [THEN withinD]; blast)+

lemma store_ok_vm: "vm_step d d' \<Longrightarrow> store_ok d \<Longrightarrow> store_ok d'"
  by (induction rule: vm_step.induct) (drule keeps_store_ok [THEN withinD]; blast)+

lemma store_ok_lease: "lease_step d d' \<Longrightarrow> store_ok d \<Longrightarrow> store_ok d'"
  by (induction rule: lease_step.induct) (drule keeps_store_ok [THEN withinD]; blast)+

lemma store_ok_job: "job_step js sha hy d d' \<Longrightarrow> store_ok d \<Longrightarrow> store_ok d'"
  by (induction rule: job_step.induct) (drule keeps_store_ok [THEN withinD]; blast)+

lemma store_ok_direct: "direct_step d d' \<Longrightarrow> store_ok d \<Longrightarrow> store_ok d'"
  by (induction rule: direct_step.induct) (drule keeps_store_ok [THEN withinD]; blast)+

lemma store_ok_step: "store_step js sha hy d d' \<Longrightarrow> store_ok d \<Longrightarrow> store_ok d'"
  unfolding store_step_def daemon_step_def
  using store_ok_catalog store_ok_vm store_ok_lease store_ok_job store_ok_direct by blast

lemma store_ok_steps: "(store_step js sha hy)\<^sup>*\<^sup>* d d' \<Longrightarrow> store_ok d \<Longrightarrow> store_ok d'"
  by (induction rule: rtranclp_induct) (auto dest: store_ok_step)

subsection \<open>The journal\<close>

lemma same_journal_catalog: "catalog_step d d' \<Longrightarrow> journal_of d' = journal_of d"
  by (induction rule: catalog_step.induct) (drule journal_frame [THEN withinD]; assumption)+

lemma same_journal_vm: "vm_step d d' \<Longrightarrow> journal_of d' = journal_of d"
  by (induction rule: vm_step.induct) (drule journal_frame [THEN withinD]; assumption)+

lemma same_journal_lease: "lease_step d d' \<Longrightarrow> journal_of d' = journal_of d"
  by (induction rule: lease_step.induct) (drule journal_frame [THEN withinD]; assumption)+

lemma same_journal_direct: "direct_step d d' \<Longrightarrow> journal_of d' = journal_of d"
  by (induction rule: direct_step.induct) (drule journal_frame [THEN withinD]; assumption)+

lemma job_refinesD:
  "job_refines m \<Longrightarrow> m d = (x, d') \<Longrightarrow> store_ok d \<Longrightarrow>
    journal_step\<^sup>*\<^sup>* (journal_of d) (journal_of d')"
  unfolding job_refines_def by blast

lemma job_step_refines:
  "job_step js sha hy d d' \<Longrightarrow> store_ok d \<Longrightarrow> journal_step\<^sup>*\<^sup>* (journal_of d) (journal_of d')"
  by (induction rule: job_step.induct)
    (unfold reserve_job_vm_def claim_job_vm_def, (erule (1) journal_refines [THEN job_refinesD])+)

lemma store_step_refines:
  assumes "store_step js sha hy d d'" "store_ok d"
  shows "journal_step\<^sup>*\<^sup>* (journal_of d) (journal_of d')"
  using assms same_journal_catalog same_journal_vm same_journal_lease same_journal_direct
    job_step_refines
  unfolding store_step_def daemon_step_def by (metis rtranclp.rtrancl_refl)

lemma store_steps_refine:
  assumes "(store_step js sha hy)\<^sup>*\<^sup>* d d'" "store_ok d"
  shows "journal_step\<^sup>*\<^sup>* (journal_of d) (journal_of d')"
  using assms
proof (induction rule: rtranclp_induct)
  case (step e f)
  then show ?case
    using store_step_refines store_ok_steps by (metis rtranclp_trans)
qed simp

lemma journal_inv_fresh: "journal_inv (journal_of fresh_db)"
  by (simp add: journal_inv_def journal_of_def fresh_db_def unique_on_def capacity_inv_def count_rows_def)

lemma reachable_journal:
  assumes "(store_step js sha hy)\<^sup>*\<^sup>* fresh_db d"
  shows "journal_inv (journal_of d)"
  using journal_steps [OF store_steps_refine [OF assms store_ok_fresh] journal_inv_fresh] by blast

lemma journal_history:
  assumes "(store_step js sha hy)\<^sup>*\<^sup>* fresh_db d" "(store_step js sha hy)\<^sup>*\<^sup>* d d'"
  shows "carried (journal_of d) (journal_of d')"
  using journal_steps [OF store_steps_refine [OF assms(2) store_ok_steps [OF assms(1) store_ok_fresh]]
      reachable_journal [OF assms(1)]] by blast

subsection \<open>Context identifiers\<close>

text \<open>
  A context identifier has at most one owner, a VM record or a lease; an owned one was issued
  by the allocator and is not on its free list.
\<close>

definition owned_cids :: "db \<Rightarrow> int list" where
  "owned_cids d = map vm_vsock_cid (vms d) @ map lease_vsock_cid (leases d)"

definition cid_inv :: "db \<Rightarrow> bool" where
  "cid_inv d \<longleftrightarrow> cids_ok d \<and> distinct (owned_cids d)
     \<and> (\<forall>c \<in> set (owned_cids d). issued_cid d c \<and> c \<notin> set (freed_cids d))"

lemma cid_inv_view: "cid_view d' = cid_view d \<Longrightarrow> cid_inv d' \<longleftrightarrow> cid_inv d"
  by (simp add: cid_inv_def cid_view_def owned_cids_def cids_ok_def issued_cid_def)

lemma cid_inv_frame: "cid_view d' = cid_view d \<Longrightarrow> cid_inv d \<Longrightarrow> cid_inv d'"
  using cid_inv_view by blast

lemma cid_inv_fresh: "cid_inv fresh_db"
  by (simp add: cid_inv_def owned_cids_def cids_ok_def fresh_db_def)

lemma cid_inv_insert_lease:
  assumes inv: "cid_inv d"
    and run: "insert_host_resource_lease rep current i now n v d = (Inr lease, d')"
  shows "cid_inv d'"
proof -
  obtain d1 where cid: "lease_cid d = (Inr (lease_vsock_cid lease), d1)"
    and d': "d' = d\<lparr>freed_cids := freed_cids d1, next_cid := next_cid d1,
       leases := leases d @ [lease_to_row lease], boot_epochs := boot_epochs d'\<rparr>"
    by (rule insert_lease_ok [OF run])
  have ok: "cids_ok d" using inv by (simp add: cid_inv_def)
  let ?c = "uint (lease_vsock_cid lease)"
  have al: "allocate_cid d = (Inr (lease_vsock_cid lease), d1)" using cid lease_cid_cases [OF ok] by simp
  have f: "vms d' = vms d" "leases d' = leases d @ [lease_to_row lease]"
    "freed_cids d' = freed_cids d1" "next_cid d' = next_cid d1"
    by (subst d', simp)+
  have own: "set (owned_cids d') = insert ?c (set (owned_cids d))"
    "distinct (owned_cids d') \<longleftrightarrow> distinct (owned_cids d) \<and> ?c \<notin> set (owned_cids d)"
    by (auto simp: owned_cids_def f lease_to_row_def)
  have ok': "cids_ok d'" using allocate_cid_effect [OF ok al] by (simp add: cids_ok_def f)
  have "issued_cid d' ?c \<and> ?c \<notin> set (freed_cids d') \<and> ?c \<notin> set (owned_cids d)
    \<and> next_cid d \<le> next_cid d' \<and> set (freed_cids d') \<subseteq> set (freed_cids d)"
    using ok
  proof (cases rule: allocate_cid_cases)
    case (freed k)
    then show ?thesis using al inv ok
      by (auto simp: f issued_cid_def cids_ok_def cid_inv_def table_simps)
  next
    case counter
    then show ?thesis using al inv ok
      by (auto simp: f issued_cid_def cids_ok_def cid_inv_def)
  next
    case exhausted
    then show ?thesis using al by simp
  qed
  then show ?thesis using inv ok' own by (auto simp: cid_inv_def issued_cid_def)
qed

text \<open>Giving up an owned identifier: it leaves its owner and joins the free list.\<close>

lemma cid_inv_return:
  assumes inv: "cid_inv d" and c: "c \<in> set (owned_cids d)"
    and own: "set (owned_cids d') \<subseteq> set (owned_cids d) - {c}" "distinct (owned_cids d')"
    and freed: "freed_cids d' = (if c \<in> set (freed_cids d) then freed_cids d else freed_cids d @ [c])"
    and next_cid: "next_cid d' = next_cid d"
  shows "cid_inv d'"
  using assms by (auto simp: cid_inv_def cids_ok_def issued_cid_def)

lemma owned_after_delete:
  assumes "distinct (map f xs)" "unique_on key xs" "x \<in> set xs" "key x = i"
  shows "set (map f (delete_rows (\<lambda>y. key y = i) xs)) = set (map f xs) - {f x}"
    "distinct (map f (delete_rows (\<lambda>y. key y = i) xs))"
proof -
  have inj: "inj_on f (set xs)" using assms(1) by (simp add: distinct_map)
  have "set (delete_rows (\<lambda>y. key y = i) xs) = set xs - {x}"
    unfolding set_delete_rows using assms(2-4) by (auto dest: unique_onD)
  then show "set (map f (delete_rows (\<lambda>y. key y = i) xs)) = set (map f xs) - {f x}"
    using inj_on_image_set_diff [OF inj, of "set xs" "{x}"] assms(3) by simp
  show "distinct (map f (delete_rows (\<lambda>y. key y = i) xs))"
    unfolding delete_rows_def by (rule distinct_map_filter [OF assms(1)])
qed

lemma cid_inv_retire:
  assumes inv: "cid_inv d" and ok: "store_ok d" and row: "row \<in> set (vms d)" "vm_id row = i"
    and vms: "vms d' = delete_rows (\<lambda>r. vm_id r = i) (vms d)" and leases: "leases d' = leases d"
    and freed: "freed_cids d' = (if vm_vsock_cid row \<in> set (freed_cids d) then freed_cids d
                else freed_cids d @ [vm_vsock_cid row])"
    and next_cid: "next_cid d' = next_cid d"
  shows "cid_inv d'"
proof -
  have u: "unique_on vm_id (vms d)" using ok by (simp add: store_ok_def vms_ok_def)
  have dist: "distinct (owned_cids d)" using inv by (simp add: cid_inv_def)
  then have d1: "distinct (map vm_vsock_cid (vms d))" by (simp add: owned_cids_def)
  note del = owned_after_delete [OF d1 u row(1,2)]
  have c: "vm_vsock_cid row \<in> set (map vm_vsock_cid (vms d))" using row(1) by simp
  then have "vm_vsock_cid row \<notin> set (map lease_vsock_cid (leases d))"
    using dist unfolding owned_cids_def distinct_append by blast
  then have "set (owned_cids d') = set (owned_cids d) - {vm_vsock_cid row}"
    unfolding owned_cids_def vms leases set_append del(1) by blast
  moreover have "distinct (owned_cids d')"
    using dist del unfolding owned_cids_def vms leases distinct_append by blast
  moreover have "vm_vsock_cid row \<in> set (owned_cids d)" using c by (simp add: owned_cids_def)
  ultimately show ?thesis using cid_inv_return [OF inv _ _ _ freed next_cid] by blast
qed

lemma cid_inv_retire_vm:
  assumes inv: "cid_inv d" and ok: "store_ok d" and run: "retire_vm rep i d = (x, d')"
  shows "cid_inv d'"
proof (cases x)
  case (Inl e)
  then have "d' = d" using run retire_vm_atomic [of rep i] unfolding all_or_nothing_def by blast
  then show ?thesis using inv by simp
next
  case (Inr u)
  then have run': "retire_vm rep i d = (Inr (), d')" using run by simp
  obtain row where row: "find (\<lambda>r. vm_id r = i) (vms d) = Some row"
    and d': "d' = (let gone = vm_id ` set (filter (\<lambda>r. vm_id r = i) (vms d)) in
       d\<lparr>freed_cids := (if vm_vsock_cid row \<in> set (freed_cids d) then freed_cids d
                        else freed_cids d @ [vm_vsock_cid row]),
         vms := delete_rows (\<lambda>r. vm_id r = i) (vms d),
         port_forwards := delete_rows (\<lambda>p. pf_vm_id p \<in> gone) (port_forwards d),
         expirations := delete_rows (\<lambda>e. exp_vm_id e \<in> gone) (expirations d)\<rparr>)"
    by (rule retire_vm_ok [OF run'])
  have "row \<in> set (vms d)" "vm_id row = i" using find_SomeD [OF row] by auto
  then show ?thesis by (rule cid_inv_retire [OF inv ok]) (simp_all add: d' Let_def del: set_filter)
qed

lemma cid_inv_retire_pool:
  assumes inv: "cid_inv d" and ok: "store_ok d" and run: "retire_pool_template rep pool i d = (x, d')"
  shows "cid_inv d'"
proof (cases x)
  case (Inl e)
  have "all_or_nothing (retire_pool_template rep pool i)"
    unfolding retire_pool_template_def by (rule transaction_all_or_nothing)
  then have "d' = d" using run Inl unfolding all_or_nothing_def by blast
  then show ?thesis using inv by simp
next
  case (Inr u)
  then have "retire_pool_template rep pool i d = (Inr (), d')" using run by simp
  then show ?thesis
    by (rule retire_pool_template_ok) (rule cid_inv_retire [OF inv ok], assumption+, simp_all)
qed

lemma cid_inv_release_lease:
  assumes inv: "cid_inv d" and ok: "store_ok d" and run: "release_host_resource_lease rep i d = (x, d')"
  shows "cid_inv d'"
proof (cases "d' = d")
  case False
  have u: "unique_on lease_id (leases d)" using ok by (simp add: store_ok_def leases_ok_def)
  from False run obtain l where l: "find (\<lambda>l. lease_id l = i) (leases d) = Some l"
    by (cases "find (\<lambda>l. lease_id l = i) (leases d)") (simp_all add: release_lease_refines [OF ok])
  from False run l have d': "d' = (snd (sql_insert_or_ignore_freed_cids (lease_vsock_cid l) d))
      \<lparr>leases := delete_rows (\<lambda>l. lease_id l = i) (leases d),
       boot_epochs := delete_rows (\<lambda>e. epoch_lease_id e = i) (boot_epochs d)\<rparr>"
    by (cases "try_u32 (lease_vsock_cid l)") (simp_all add: release_lease_refines [OF ok] split: if_splits)
  have mem: "l \<in> set (leases d)" "lease_id l = i" using find_SomeD [OF l] by auto
  have f: "vms d' = vms d" "leases d' = delete_rows (\<lambda>l. lease_id l = i) (leases d)"
    "next_cid d' = next_cid d"
    "freed_cids d' = (if lease_vsock_cid l \<in> set (freed_cids d) then freed_cids d
       else freed_cids d @ [lease_vsock_cid l])"
    by (simp_all add: d' sql_insert_or_ignore_freed_cids_def)
  have dist: "distinct (owned_cids d)" using inv by (simp add: cid_inv_def)
  then have d1: "distinct (map lease_vsock_cid (leases d))" by (simp add: owned_cids_def)
  note del = owned_after_delete [OF d1 u mem(1,2)]
  have c: "lease_vsock_cid l \<in> set (map lease_vsock_cid (leases d))" using mem(1) by simp
  then have "lease_vsock_cid l \<notin> set (map vm_vsock_cid (vms d))"
    using dist unfolding owned_cids_def distinct_append by blast
  then have "set (owned_cids d') = set (owned_cids d) - {lease_vsock_cid l}"
    unfolding owned_cids_def f set_append del(1) by blast
  moreover have "distinct (owned_cids d')"
    using dist del unfolding owned_cids_def f distinct_append by blast
  moreover have "lease_vsock_cid l \<in> set (owned_cids d)" using c by (simp add: owned_cids_def)
  ultimately show ?thesis using cid_inv_return [OF inv _ _ _ f(4,3)] by blast
qed (use inv in simp)

text \<open>A commit moves the identifier from the lease to the VM record.\<close>

lemma cid_inv_commit:
  assumes inv: "cid_inv d" and ok: "store_ok d"
    and run: "commit_vm_from_host_resource_lease_with_expiration rep r i e d = (x, d')"
  shows "cid_inv d'"
proof (cases x)
  case (Inl err)
  have "all_or_nothing (commit_vm_from_host_resource_lease_with_expiration rep r i e)"
    unfolding commit_vm_from_host_resource_lease_with_expiration_def
    by (intro all_or_nothing_if all_or_nothing_err transaction_all_or_nothing)
  then have "d' = d" using run Inl unfolding all_or_nothing_def by blast
  then show ?thesis using inv by simp
next
  case (Inr u)
  then have run': "commit_vm_from_host_resource_lease_with_expiration rep r i e d = (Inr (), d')"
    using run by simp
  obtain l where l: "l \<in> set (leases d)" "lease_id l = i" "lease_vsock_cid l = uint (vm_vsock_cid r)"
    and d': "d' = d\<lparr>vms := vms d @ [vm_to_row r], expirations := expirations d',
       leases := delete_rows (\<lambda>l. lease_id l = i) (leases d),
       boot_epochs := delete_rows (\<lambda>e. epoch_lease_id e = i) (boot_epochs d)\<rparr>"
    by (rule commit_lease_ok [OF ok run'])
  have f: "vms d' = vms d @ [vm_to_row r]" "leases d' = delete_rows (\<lambda>l. lease_id l = i) (leases d)"
    "next_cid d' = next_cid d" "freed_cids d' = freed_cids d"
    by (subst d', simp)+
  have vm: "map vm_vsock_cid (vms d') = map vm_vsock_cid (vms d) @ [lease_vsock_cid l]"
    by (simp add: f l(3) vm_to_row_def)
  have u: "unique_on lease_id (leases d)" using ok by (simp add: store_ok_def leases_ok_def)
  have dist: "distinct (owned_cids d)" using inv by (simp add: cid_inv_def)
  then have d1: "distinct (map lease_vsock_cid (leases d))" by (simp add: owned_cids_def)
  note del = owned_after_delete [OF d1 u l(1,2)]
  have c: "lease_vsock_cid l \<in> set (map lease_vsock_cid (leases d))" using l(1) by simp
  then have new: "lease_vsock_cid l \<notin> set (map vm_vsock_cid (vms d))"
    using dist unfolding owned_cids_def distinct_append by blast
  have "set (owned_cids d') = set (owned_cids d)"
    using c unfolding owned_cids_def vm f(2) set_append del(1) by auto
  moreover have "distinct (owned_cids d')"
  proof -
    have "distinct (map vm_vsock_cid (vms d))"
      "set (map vm_vsock_cid (vms d)) \<inter> set (map lease_vsock_cid (leases d)) = {}"
      using dist unfolding owned_cids_def distinct_append by blast+
    then show ?thesis
      using new del(2) unfolding owned_cids_def vm f(2) distinct_append set_append del(1) by auto
  qed
  ultimately show ?thesis
    using inv f(3,4) by (simp add: cid_inv_def cids_ok_def issued_cid_def)
qed

lemma cid_inv_bind_with_lease:
  assumes inv: "cid_inv d" and run: "bind_job_vm_with_lease rep current l now i vm n d = (x, d')"
  shows "cid_inv d'"
proof (cases x)
  case (Inl e)
  have "all_or_nothing (bind_job_vm_with_lease rep current l now i vm n)"
    unfolding bind_job_vm_with_lease_def by (rule transaction_all_or_nothing)
  then have "d' = d" using run Inl unfolding all_or_nothing_def by blast
  then show ?thesis using inv by simp
next
  case (Inr y)
  then obtain d1 lease where bind: "bind_on rep now i vm n d = (Inr (), d1)"
    and ins: "insert_host_resource_lease rep current l now n (Some vm) d1 = (Inr lease, d')"
    using run by (auto elim: bind_with_lease_Inr)
  have "cid_view d1 = cid_view d" by (rule withinD [OF cid_frame_job_ownership(1) bind])
  then show ?thesis using cid_inv_insert_lease [OF cid_inv_frame ins] inv by blast
qed

lemma cid_inv_job: "job_step js sha hy d d' \<Longrightarrow> cid_inv d \<Longrightarrow> cid_inv d'"
proof (induction rule: job_step.induct)
  case bind_job_vm_with_lease
  then show ?case using cid_inv_bind_with_lease by blast
qed (drule cid_frame [THEN withinD], erule (1) cid_inv_frame)+

lemma cid_inv_begin:
  assumes inv: "cid_inv d" and run: "begin_host_resource_lease_inner rep current i now n v d = (x, d')"
  shows "cid_inv d'"
proof (cases x)
  case (Inl e)
  have "all_or_nothing (begin_host_resource_lease_inner rep current i now n v)"
    unfolding begin_host_resource_lease_inner_def by (rule transaction_all_or_nothing)
  then have "d' = d" using run Inl unfolding all_or_nothing_def by blast
  then show ?thesis using inv by simp
next
  case (Inr lease)
  then show ?thesis using cid_inv_insert_lease [OF inv begin_lease_ok] run by blast
qed

lemma cid_inv_ensure_base:
  assumes "cid_inv d" "ensure_cid_base b d = (x, d')"
  shows "cid_inv d'"
proof -
  have "cids_ok d'" using ensure_cid_base_ok assms by (auto simp: cid_inv_def)
  moreover have "owned_cids d' = owned_cids d" "next_cid d \<le> next_cid d'"
    "set (freed_cids d') \<subseteq> set (freed_cids d)"
    using assms(2) by (auto simp: ensure_cid_base_effect owned_cids_def delete_rows_def)
  ultimately show ?thesis using assms(1) by (auto simp: cid_inv_def issued_cid_def)
qed

lemma cid_inv_lease: "lease_step d d' \<Longrightarrow> cid_inv d \<Longrightarrow> store_ok d \<Longrightarrow> cid_inv d'"
proof (induction rule: lease_step.induct)
  case retire_vm
  then show ?case using cid_inv_retire_vm by blast
next
  case retire_pool_template
  then show ?case using cid_inv_retire_pool by blast
next
  case ensure_cid_base
  then show ?case using cid_inv_ensure_base by blast
next
  case begin_lease
  then show ?case using cid_inv_begin by blast
next
  case release_lease
  then show ?case using cid_inv_release_lease by blast
next
  case commit_lease
  then show ?case using cid_inv_commit by blast
qed (drule cid_frame [THEN withinD], erule (1) cid_inv_frame)+

lemma cid_inv_vm: "vm_step d d' \<Longrightarrow> cid_inv d \<Longrightarrow> cid_inv d'"
  by (induction rule: vm_step.induct) (drule cid_frame [THEN withinD], erule (1) cid_inv_frame)+

lemma cid_inv_catalog: "catalog_step d d' \<Longrightarrow> cid_inv d \<Longrightarrow> cid_inv d'"
  by (induction rule: catalog_step.induct) (drule cid_frame [THEN withinD], erule (1) cid_inv_frame)+

lemma cid_inv_steps:
  assumes "(daemon_step js sha hy)\<^sup>*\<^sup>* d d'" "cid_inv d" "store_ok d"
  shows "cid_inv d' \<and> store_ok d'"
  using assms
proof (induction rule: rtranclp_induct)
  case (step e f)
  then have "cid_inv e" "store_ok e" by auto
  with step(2) show ?case
    using cid_inv_catalog cid_inv_vm cid_inv_lease cid_inv_job store_ok_step
    unfolding store_step_def daemon_step_def by blast
qed simp

end
