(* ===== verification/Store_Decoding.thy ===== *)
theory Store_Decoding
  imports Store_Reachability
begin

text \<open>
  Rows and records. SQLite columns are wider than the fields of the records they are decoded
  into, so every query can in principle fail on a row that is out of range or carries an
  unknown name. The invariant \<open>decodable\<close> says that no row of the store is of that kind; every
  operation keeps it, whether or not it succeeds.
\<close>

named_theorems keeps_decodable \<open>statements and operations that leave every row decodable\<close>

definition decodes :: "('r \<Rightarrow> sql_error + 'x) \<Rightarrow> 'r list \<Rightarrow> bool" where
  "decodes f rows \<longleftrightarrow> list_all (\<lambda>r. \<not> isl (f r)) rows"

lemma decodes_simps [simp]:
  "decodes f []" "decodes f (xs @ ys) \<longleftrightarrow> decodes f xs \<and> decodes f ys"
  "decodes f (x # xs) \<longleftrightarrow> \<not> isl (f x) \<and> decodes f xs"
  by (simp_all add: decodes_def)

lemma decodes_delete [simp]: "decodes f xs \<Longrightarrow> decodes f (delete_rows P xs)"
  by (auto simp: decodes_def list_all_iff delete_rows_def)

lemma decodes_update:
  "(\<And>r. \<not> isl (f r) \<Longrightarrow> \<not> isl (f (g r))) \<Longrightarrow> decodes f xs \<Longrightarrow> decodes f (update_rows P g xs)"
  by (auto simp: decodes_def list_all_iff update_rows_def)

lemma collect_decodes: "decodes f rows \<Longrightarrow> \<exists>xs. collect_results (map f rows) = Inr xs"
proof (induction rows)
  case (Cons r rows)
  then obtain xs x where "collect_results (map f rows) = Inr xs" "f r = Inr x"
    by (cases "f r") auto
  then show ?case by (simp add: and_then_def)
qed simp

lemma decodes_set_mono: "decodes f xs \<Longrightarrow> set ys \<subseteq> set xs \<Longrightarrow> decodes f ys"
  by (auto simp: decodes_def list_all_iff)

lemma not_isl_and_then: "\<not> isl (and_then x f) \<longleftrightarrow> \<not> isl x \<and> \<not> isl (f (projr x))"
  by (cases x) (simp_all add: and_then_def)

definition decodable :: "db \<Rightarrow> bool" where
  "decodable d \<longleftrightarrow> decodes row_to_vm_record (vms d) \<and> decodes row_to_port_forward (port_forwards d)
     \<and> decodes row_to_service_record (services d) \<and> decodes row_to_image_record (images d)
     \<and> decodes row_to_volume_record (volumes d) \<and> decodes row_to_pool_record (pools d)
     \<and> decodes row_to_lease (leases d)"

lemma decodable_fresh: "decodable fresh_db"
  by (simp add: decodable_def fresh_db_def)

subsection \<open>Statements\<close>

lemma decodable_statement:
  "(\<And>d. decodable d \<Longrightarrow> decodable (effect d)) \<Longrightarrow> keeps decodable (statement rep tr cs res effect)"
  by (simp add: within_def statement_def)

lemma decodable_insert:
  "\<not> isl (row_to_vm_record r) \<Longrightarrow> keeps decodable (sql_insert_vms rep r)"
  "\<not> isl (row_to_port_forward p) \<Longrightarrow> keeps decodable (sql_insert_port_forwards rep p)"
  "\<not> isl (row_to_service_record s) \<Longrightarrow> keeps decodable (sql_insert_services rep s)"
  "\<not> isl (row_to_image_record m) \<Longrightarrow> keeps decodable (sql_insert_images rep m)"
  "\<not> isl (row_to_volume_record v) \<Longrightarrow> keeps decodable (sql_insert_volumes rep v)"
  "\<not> isl (row_to_pool_record q) \<Longrightarrow> keeps decodable (sql_insert_pools rep q)"
  "\<not> isl (row_to_lease l) \<Longrightarrow> keeps decodable (sql_insert_leases rep l)"
  unfolding sql_insert_vms_def sql_insert_port_forwards_def sql_insert_services_def
    sql_insert_images_def sql_insert_volumes_def sql_insert_pools_def sql_insert_leases_def
  by (rule decodable_statement; simp add: decodable_def row_to_port_forward_def not_isl_and_then)+

lemma decodable_update:
  "(\<And>r. \<not> isl (row_to_vm_record r) \<Longrightarrow> \<not> isl (row_to_vm_record (f r))) \<Longrightarrow>
    keeps decodable (sql_update_vms rep cols P f)"
  "(\<And>l. \<not> isl (row_to_lease l) \<Longrightarrow> \<not> isl (row_to_lease (g l))) \<Longrightarrow>
    keeps decodable (sql_update_leases rep cols Q g)"
  unfolding sql_update_vms_def sql_update_leases_def
  by (rule decodable_statement; simp add: decodable_def decodes_update)+

lemma decodable_update_services:
  "(\<And>s. \<not> isl (row_to_service_record s) \<Longrightarrow> \<not> isl (row_to_service_record (f s))) \<Longrightarrow>
    keeps decodable (sql_update_services P f)"
  by (simp add: within_def sql_update_services_def decodable_def decodes_update)

lemma keeps_decodable_delete [keeps_decodable]:
  "keeps decodable (sql_delete_vms rep P1)" "keeps decodable (sql_delete_port_forwards P2)"
  "keeps decodable (sql_delete_services P3)" "keeps decodable (sql_delete_images P4)"
  "keeps decodable (sql_delete_volumes rep P5)" "keeps decodable (sql_delete_pools P6)"
  "keeps decodable (sql_delete_leases rep P7)"
  unfolding sql_delete_vms_def sql_delete_volumes_def sql_delete_leases_def
  by (simp_all add: within_def statement_def sql_delete_port_forwards_def sql_delete_services_def
      sql_delete_images_def sql_delete_pools_def decodable_def Let_def)

lemma keeps_decodable_statements [keeps_decodable]:
  "keeps decodable (sql_create_ordinal_index rep)" "keeps decodable (sql_insert_expirations rep x)"
  "keeps decodable (sql_insert_host_groups rep hg)" "keeps decodable (sql_insert_snapshots rep n)"
  "keeps decodable (sql_insert_secrets rep c)" "keeps decodable (sql_insert_boot_epochs rep e)"
  "keeps decodable (sql_insert_or_ignore_boot_epochs rep e)"
  "keeps decodable (sql_update_boot_epochs rep Q g')" "keeps decodable (sql_delete_boot_epochs rep Q)"
  "keeps decodable (sql_insert_jobs rep j)" "keeps decodable (sql_update_jobs rep cols J f)"
  "keeps decodable (sql_insert_job_events rep ev)" "keeps decodable (sql_insert_job_artifacts rep ar)"
  unfolding sql_create_ordinal_index_def sql_insert_expirations_def sql_insert_host_groups_def
    sql_insert_snapshots_def sql_insert_secrets_def sql_insert_boot_epochs_def
    sql_insert_or_ignore_boot_epochs_def sql_update_boot_epochs_def sql_delete_boot_epochs_def
    sql_insert_jobs_def sql_update_jobs_def sql_insert_job_events_def sql_insert_job_artifacts_def
  by (rule decodable_statement; simp add: decodable_def)+

lemma service_group_cleared:
  "isl (row_to_service_record (s\<lparr>svc_host_group_id := h\<rparr>)) = isl (row_to_service_record s)"
  by (simp add: row_to_service_record_def and_then_def split: sum.splits)

lemma keeps_decodable_plain [keeps_decodable]:
  "keeps decodable (sql_delete_host_groups P2)" "keeps decodable (sql_delete_snapshots P4)"
  "keeps decodable (sql_update_secrets P6 f6)" "keeps decodable (sql_delete_secrets P6)"
  "keeps decodable (sql_update_next_cid h)" "keeps decodable (sql_insert_or_ignore_freed_cids c)"
  "keeps decodable (sql_delete_freed_cids P8)" "keeps decodable (sql_delete_jobs P9)"
  "keeps decodable (sql_delete_job_events P10)" "keeps decodable (sql_delete_job_artifacts P11)"
  unfolding sql_delete_host_groups_def sql_delete_snapshots_def sql_update_secrets_def
    sql_delete_secrets_def sql_update_next_cid_def sql_insert_or_ignore_freed_cids_def
    sql_delete_freed_cids_def sql_delete_jobs_def sql_delete_job_events_def sql_delete_job_artifacts_def
  by (simp_all add: within_def decodable_def Let_def decodes_update service_group_cleared)

subsection \<open>Operations\<close>

lemma within_bind_lift:
  assumes "preorder_on_states R" "\<And>x. r = Inr x \<Longrightarrow> within R (f x)"
  shows "within R (bind_op (lift_result r) f)"
  using assms by (cases r) (auto simp: within_def op_simps preorder_on_states_def)

lemma within_bind_db_val:
  assumes "preorder_on_states R" "\<And>x. r = Inr x \<Longrightarrow> within R (f x)"
  shows "within R (bind_op (db_val r) f)"
  using assms by (cases r) (auto simp: within_def op_simps preorder_on_states_def db_val_def)

lemma isl_get_enum [simp]: "isl (get_enum i parse v) \<longleftrightarrow> isl (parse v)"
  by (auto simp: get_enum_def split: sum.splits)

lemma vm_decodes_iff:
  "\<not> isl (row_to_vm_record r) \<longleftrightarrow>
     \<not> isl (lifecycle_from_str (vm_state r)) \<and> \<not> isl (traverse_option (get_u32 3) (vm_pid r))
     \<and> \<not> isl (get_u32 4 (vm_vcpu_count r)) \<and> \<not> isl (get_u32 5 (vm_mem_size_mib r))
     \<and> \<not> isl (get_u32 6 (vm_vsock_cid r))
     \<and> \<not> isl (traverse_option parse_userdata_status (vm_userdata_status r))
     \<and> \<not> isl (traverse_option (\<lambda>v. ok_or (FromSqlConversionFailure 18) (try_u32 v)) (vm_service_ordinal r))
     \<and> \<not> isl (backend_from_str (vm_vmm r)) \<and> \<not> isl (boot_from_str (vm_boot_mode r))
     \<and> \<not> isl (network_from_str (vm_network r))"
  unfolding row_to_vm_record_def not_isl_and_then
  by (simp add: parse_backend_kind_def parse_boot_kind_def parse_network_mode_def)

lemma traverse_simps [simp]:
  "traverse_option f None = Inr None" "isl (traverse_option f (Some x)) \<longleftrightarrow> isl (f x)"
  by (cases "f x"; simp add: traverse_option_def and_then_def)+

lemma known_states_decode:
  "\<not> isl (lifecycle_from_str (lifecycle_as_str st))" "\<not> isl (lifecycle_from_str ''stopped'')"
  "\<not> isl (parse_userdata_status (userdata_as_str us))" "\<not> isl (parse_userdata_status ''interrupted'')"
proof -
  have "''stopped'' = lifecycle_as_str Stopped" "''interrupted'' = userdata_as_str UdInterrupted"
    by simp_all
  then show "\<not> isl (lifecycle_from_str ''stopped'')" "\<not> isl (parse_userdata_status ''interrupted'')"
    by (simp_all only: parse_userdata_status_def isl_get_enum wire_round_trips sum.disc not_False_eq_True)
qed (simp_all add: parse_userdata_status_def)

lemma keeps_decodable_vm_updates [keeps_decodable]:
  "keeps decodable (update_vm_state rep now i st)" "keeps decodable (update_vm_runtime rep now i st pid)"
  "keeps decodable (mark_vm_stopped rep now i)" "keeps decodable (clear_vm_network_resources rep now i)"
  "keeps decodable (touch_last_activity rep i at)" "keeps decodable (set_suspended_at rep i at')"
  "keeps decodable (set_idle_policy rep i idle ttl auto)" "keeps decodable (update_vm_guest_ip rep now i ip)"
  "keeps decodable (transition_userdata_status rep now i us us')"
  "keeps decodable (mark_stale_vms_stopped rep now)"
  unfolding update_vm_state_def update_vm_runtime_def mark_vm_stopped_def
    clear_vm_network_resources_def touch_last_activity_def set_suspended_at_def
    set_idle_policy_def update_vm_guest_ip_def transition_userdata_status_def
    mark_stale_vms_stopped_def update_vm_def
  by (intro within_intros decodable_update(1) preorder_keeps; simp add: vm_decodes_iff known_states_decode)+

lemma keeps_decodable_vm_rows [keeps_decodable]:
  "keeps decodable (insert_vm_on rep r)" "keeps decodable (insert_vm rep r)"
  "keeps decodable (insert_vm_with_expiration rep r x)" "keeps decodable (delete_vm rep i)"
  "keeps decodable (retire_vm rep i)" "keeps decodable (retire_pool_template rep pl i)"
  unfolding insert_vm_on_def insert_vm_def insert_vm_with_expiration_def insert_vm_expiration_on_def
    delete_vm_def retire_vm_def retire_pool_template_def
  by (intro within_intros keeps_decodable decodable_insert(1) preorder_keeps;
      simp add: row_to_vm_record_vm_to_row)+

lemma keeps_decodable_vm_misc [keeps_decodable]:
  "keeps decodable (create_service_ordinal_index rep)" "keeps decodable (insert_port_forward rep p)"
  "keeps decodable (delete_port_forward port)" "keeps decodable (delete_port_forwards_for_vm i)"
  "keeps decodable clear_all_port_forwards"
  unfolding create_service_ordinal_index_def insert_port_forward_def delete_port_forward_def
    delete_port_forwards_for_vm_def clear_all_port_forwards_def
  by (intro within_intros keeps_decodable decodable_insert(2) preorder_keeps;
      simp add: row_to_port_forward_def get_u16_uint not_isl_and_then)+

lemma keeps_decodable_catalog_inserts [keeps_decodable]:
  "keeps decodable (insert_host_group rep g)" "keeps decodable (insert_snapshot rep p)"
  "keeps decodable (insert_secret rep c)" "keeps decodable (insert_service rep s)"
  "keeps decodable (insert_image rep m)" "keeps decodable (insert_volume rep v)"
  "keeps decodable (insert_pool rep q)"
  unfolding insert_host_group_def insert_snapshot_def insert_secret_def insert_service_def
    insert_image_def insert_volume_def insert_pool_def
  by (intro within_bind_lift within_bind_db_val within_intros keeps_decodable decodable_insert
      preorder_keeps; simp add: ok_or_Inr image_round_trip volume_round_trip pool_round_trip
      service_round_trip)+

lemma keeps_decodable_catalog_updates [keeps_decodable]:
  "keeps decodable (update_service_desired_instances now i n)"
  "keeps decodable (update_secret_payload now i ct nc)" "keeps decodable (delete_host_group i)"
  "keeps decodable (delete_service i)" "keeps decodable (delete_snapshot i)"
  "keeps decodable (delete_image i)" "keeps decodable (delete_secret i)"
  "keeps decodable (delete_volume rep i)" "keeps decodable (delete_unattached_volume_by_name rep nm)"
  "keeps decodable (delete_pool_by_name nm)"
  unfolding update_service_desired_instances_def update_secret_payload_def delete_host_group_def
    delete_service_def delete_snapshot_def delete_image_def delete_secret_def delete_volume_def
    delete_unattached_volume_by_name_def delete_pool_by_name_def
  by (intro within_intros keeps_decodable decodable_update_services preorder_keeps;
      simp add: row_to_service_record_def not_isl_and_then)+

lemma lease_decodes_iff: "\<not> isl (row_to_lease l) \<longleftrightarrow> \<not> isl (get_u32 2 (lease_vsock_cid l))"
  by (simp add: row_to_lease_def not_isl_and_then)

lemma keeps_decodable_epochs [keeps_decodable]:
  "keeps decodable (observe_on rep current l)" "keeps decodable (prepare_entry_on rep l current)"
  "keeps decodable (observe_legacy_lease_boots rep current)"
  "keeps decodable (confirm_lease_reboot_on rep l current)"
  "keeps decodable (confirm_host_resource_lease_reboot rep current l)"
  "keeps decodable (confirmed_on l)"
  unfolding observe_on_def prepare_entry_on_def observe_legacy_lease_boots_def
    confirm_lease_reboot_on_def confirm_host_resource_lease_reboot_def confirmed_on_def
  by (intro within_intros keeps_decodable preorder_keeps)+

lemma keeps_decodable_lease_updates [keeps_decodable]:
  "keeps decodable (enter_host_resource_lease_backend rep current l vm)"
  "keeps decodable (record_host_resource_lease_destruction rep l vm)"
  "keeps decodable (set_host_resource_lease_network rep l tap ip)"
  unfolding enter_host_resource_lease_backend_def record_host_resource_lease_destruction_def
    set_host_resource_lease_network_def
  by (intro within_intros keeps_decodable decodable_update(2) preorder_keeps;
      simp add: lease_decodes_iff)+

lemma keeps_decodable_cids [keeps_decodable]:
  "keeps decodable allocate_cid" "keeps decodable (ensure_cid_base b)"
  "keeps decodable (release_cid cid)" "keeps decodable lease_cid"
  unfolding allocate_cid_def ensure_cid_base_def release_cid_def lease_cid_def
  by (intro within_intros keeps_decodable preorder_keeps)+

lemma keeps_decodable_insert_lease [keeps_decodable]:
  "keeps decodable (insert_host_resource_lease rep current l now n v)"
  unfolding insert_host_resource_lease_def
  by (intro within_intros keeps_decodable decodable_insert(7) preorder_keeps;
      simp add: row_to_lease_lease_to_row)

lemma keeps_decodable_lease_rows [keeps_decodable]:
  "keeps decodable (begin_host_resource_lease_inner rep current l now n v)"
  "keeps decodable (release_host_resource_lease rep l)"
  "keeps decodable (commit_vm_from_host_resource_lease_with_expiration rep r l x)"
  unfolding begin_host_resource_lease_inner_def release_host_resource_lease_def
    commit_vm_from_host_resource_lease_with_expiration_def commit_leased_def
    insert_vm_expiration_on_def
  by (intro within_intros keeps_decodable preorder_keeps)+

lemma keeps_decodable_update_job [keeps_decodable]: "keeps decodable (update_job rep cols P f)"
  unfolding update_job_def by (intro within_intros keeps_decodable)

lemma keeps_decodable_append_events [keeps_decodable]: "keeps decodable (append_events rep sha i es c)"
proof (induction es arbitrary: c)
  case Nil
  then show ?case by (simp add: within_ok preorder_keeps)
next
  case (Cons e es)
  have "keeps decodable (append_event rep sha i e c)"
    unfolding append_event_def by (intro within_intros keeps_decodable preorder_keeps)
  then show ?case by (simp add: Cons within_bind preorder_keeps)
qed

lemma keeps_decodable_job_submission [keeps_decodable]:
  "keeps decodable (accept_job rep sha js now i s k sp dl ru)"
  "keeps decodable (accept_job_with_budget rep sha js now i s k sp dl ru b obs)"
  unfolding accept_job_def accept_job_with_budget_def accept_job_inner_def admit_job_def
    check_budget_def
  by (intro within_intros keeps_decodable preorder_keeps)+

lemma keeps_decodable_job_ownership [keeps_decodable]:
  "keeps decodable (bind_on rep now i vm n)" "keeps decodable (reserve_job_vm rep hy now i)"
  "keeps decodable (claim_job_vm rep hy now i)" "keeps decodable (bind_job_vm rep now i vm n)"
  "keeps decodable (bind_job_vm_with_lease rep current l now i vm n)"
  "keeps decodable (mark_job_running rep now i)"
  unfolding bind_on_def reserve_job_vm_def claim_job_vm_def reserve_job_vm_inner_def
    bind_job_vm_def bind_job_vm_with_lease_def mark_job_running_def
  by (intro within_intros keeps_decodable preorder_keeps)+

lemma keeps_decodable_job_evidence [keeps_decodable]:
  "keeps decodable (append_job_events rep sha i es g)" "keeps decodable (stage_job_manifest rep js i m)"
  "keeps decodable (retain_job_artifact rep sha i ix p dg bs)"
  "keeps decodable (finish_job_inner rep sha js i st c m pre)"
  "keeps decodable (finish_job rep sha js i st c m)" "keeps decodable (finish_job_failure rep sha js i st m)"
  unfolding append_job_events_def stage_job_manifest_def retain_job_artifact_def
    keep_artifact_def finish_job_inner_def publish_result_def finish_job_def finish_job_failure_def
  by (intro within_intros keeps_decodable preorder_keeps)+

lemma keeps_decodable_job_cleanup [keeps_decodable]:
  "keeps decodable (record_job_vm_destruction rep vm)"
  "keeps decodable (record_job_vm_allocation_abort rep i vm)"
  "keeps decodable (confirm_job_cleanup rep i vm)" "keeps decodable (confirm_unallocated_job_cleanup rep i n)"
  "keeps decodable (delete_job_evidence rep i)"
  unfolding record_job_vm_destruction_def record_job_vm_allocation_abort_def
    confirm_job_cleanup_def confirm_unallocated_job_cleanup_def delete_job_evidence_def changed_or_def
  by (intro within_intros keeps_decodable preorder_keeps)+

lemma keeps_decodable_job_rest [keeps_decodable]:
  "keeps decodable (record_job_leased_prebackend_abort rep hy i vm l)"
  "keeps decodable (expire_job_evidence rep now)"
  unfolding record_job_leased_prebackend_abort_def expire_job_evidence_def
  by (intro within_intros keeps_decodable decodable_update(2) preorder_keeps; simp add: lease_decodes_iff)+

subsection \<open>Reachable stores\<close>

lemma decodable_step: "store_step js sha hy d d' \<Longrightarrow> decodable d \<Longrightarrow> decodable d'"
  unfolding store_step_def daemon_step_def
proof (elim disjE)
  show "catalog_step d d' \<Longrightarrow> decodable d \<Longrightarrow> decodable d'"
    by (induction rule: catalog_step.induct) (drule keeps_decodable [THEN withinD]; blast)+
  show "vm_step d d' \<Longrightarrow> decodable d \<Longrightarrow> decodable d'"
    by (induction rule: vm_step.induct) (drule keeps_decodable [THEN withinD]; blast)+
  show "lease_step d d' \<Longrightarrow> decodable d \<Longrightarrow> decodable d'"
    by (induction rule: lease_step.induct) (drule keeps_decodable [THEN withinD]; blast)+
  show "job_step js sha hy d d' \<Longrightarrow> decodable d \<Longrightarrow> decodable d'"
    by (induction rule: job_step.induct) (drule keeps_decodable [THEN withinD]; blast)+
  show "direct_step d d' \<Longrightarrow> decodable d \<Longrightarrow> decodable d'"
    by (induction rule: direct_step.induct) (drule keeps_decodable [THEN withinD]; blast)+
qed

lemma decodable_steps: "(store_step js sha hy)\<^sup>*\<^sup>* d d' \<Longrightarrow> decodable d \<Longrightarrow> decodable d'"
  by (induction rule: rtranclp_induct) (auto dest: decodable_step)

end
