(* ===== verification/Job_Samples.thy ===== *)
theory Job_Samples
  imports Store_Reachability
begin

text \<open>
  Concrete inputs for the journal's theorems: an instance of the JSON interface, a digest
  function, a budget, and the stores a job passes through from its acceptance to its end.
\<close>

text \<open>
  A value of this instance is a number; every document is an object whose members are the
  resources of a small VM.
\<close>

definition sample_json :: "u64 json" where
  "sample_json = \<lparr>json_from_str = (\<lambda>s. if s = ''{}'' then Some 0 else None), json_to_string = (\<lambda>_. ''{}''),
     json_is_object = (\<lambda>_. True),
     json_index = (\<lambda>v n. if n = ''vcpu_count'' then 2 else if n = ''mem_size_mib'' then 512
       else if n = ''disk_size_bytes'' then 1073741824 else 0),
     json_as_u64 = Some, json_has = (\<lambda>_ _. False), json_set = (\<lambda>v _ _. v),
     json_remove = (\<lambda>v _. v), json_of_string = (\<lambda>_. 0), json_of_bool = (\<lambda>_. 0)\<rparr>"

definition sample_sha :: "bytes \<Rightarrow> string" where
  "sample_sha bs = take 64 (replicate (length bs) (CHR ''a'') @ replicate 64 (CHR ''b''))"

definition sample_hyphenated :: "Uuid \<Rightarrow> string" where
  "sample_hyphenated i = ''60''"

definition sample_budget :: FactoryResourceBudget where
  "sample_budget = \<lparr>max_jobs = 4, max_vcpus = 8, max_memory_mib = 8192, memory_overhead_mib = 128,
     max_root_disk_bytes = 68719476736, max_boot_storage_bytes = 68719476736,
     min_free_storage_bytes = 1073741824\<rparr>"

definition sample_storage :: FactoryAvailableStorage where
  "sample_storage = \<lparr>shared_filesystem = False, boot_bytes = 1099511627776, journal_bytes = 1099511627776\<rparr>"

definition sample_deadline :: DateTime where "sample_deadline = 1000000000000"
definition sample_retention :: DateTime where "sample_retention = 2000000000000"

definition accepted_row :: job_row where
  "accepted_row = new_job 60 61 ''key'' (spec_digest sample_sha (bytes_of ''{}'')) ''{}'' 0
     sample_deadline sample_retention"

definition claimed_row :: job_row where
  "claimed_row = accepted_row\<lparr>job_vm_id := Some 7, job_vm_name := Some ''job-60'',
     job_state := ''preparing'', job_cleanup_pending := True\<rparr>"

definition running_row :: job_row where
  "running_row = claimed_row\<lparr>job_state := ''running''\<rparr>"

definition ended_row_sample :: job_row where
  "ended_row_sample = claimed_row\<lparr>job_state := ''completed'', job_collection := ''complete'',
     job_manifest := Some ''{}'', job_vm_destroyed := True, job_cleanup_pending := False\<rparr>"

lemmas sample_row_defs = accepted_row_def claimed_row_def running_row_def ended_row_sample_def
  new_job_def

definition job_db :: "job_row \<Rightarrow> event_row list \<Rightarrow> db" where
  "job_db r es = fresh_db\<lparr>jobs := [r], job_events := es\<rparr>"

lemma job_db_ok:
  assumes "raised (job_checks r) = []"
  shows "store_ok (job_db r [])"
  using store_ok_fresh assms
  by (simp add: store_ok_def job_db_def journal_ok_def unique_on_def unique_some_def)

lemma job_db_inv:
  assumes "row_inv r" "job_capture_cursor r = 0" "job_retained_bytes r = 0"
  shows "journal_inv (journal_of (job_db r []))"
  using assms
  by (simp add: journal_inv_def journal_of_def job_db_def unique_on_def capacity_inv_def count_rows_def
      log_inv_def kept_inv_def log_of_def kept_of_def MAX_SUBMISSION_RECEIPTS_def MAX_RETAINED_JOBS_def
      MAX_ACTIVE_JOBS_def)

lemma sample_rows_ok:
  "raised (job_checks accepted_row) = []" "raised (job_checks claimed_row) = []"
  "raised (job_checks running_row) = []" "raised (job_checks ended_row_sample) = []"
  by (simp_all add: sample_row_defs job_checks_def too_long_def known_job_states_def known_collections_def)

lemma sample_rows_inv:
  "row_inv accepted_row" "row_inv claimed_row" "row_inv running_row" "row_inv ended_row_sample"
  by (simp_all add: sample_row_defs row_inv_def row_state_defs known_job_states_def known_collections_def)

lemma sample_rows_empty:
  "job_capture_cursor accepted_row = 0" "job_retained_bytes accepted_row = 0"
  "job_capture_cursor claimed_row = 0" "job_retained_bytes claimed_row = 0"
  "job_capture_cursor running_row = 0" "job_retained_bytes running_row = 0"
  "job_capture_cursor ended_row_sample = 0" "job_retained_bytes ended_row_sample = 0"
  by (simp_all add: sample_row_defs)

lemmas sample_dbs_ok = sample_rows_ok [THEN job_db_ok]

lemma sample_dbs_inv:
  "journal_inv (journal_of (job_db accepted_row []))" "journal_inv (journal_of (job_db claimed_row []))"
  "journal_inv (journal_of (job_db running_row []))" "journal_inv (journal_of (job_db ended_row_sample []))"
  by (rule job_db_inv; simp add: sample_rows_inv sample_rows_empty)+

lemma sample_key: "\<not> invalid_key ''key''"
  by (simp add: invalid_key_def)

lemma sample_spec: "bounded_json sample_json ''{}'' MAX_SPEC_BYTES = Inr ()"
  by (simp add: bounded_json_def sample_json_def MAX_SPEC_BYTES_def)

lemma sample_validate: "validate sample_budget = Inr ()"
  by (simp add: validate_def sample_budget_def MAX_ACTIVE_JOBS_def)

lemma sample_check: "check sample_json sample_budget [''{}''] = Inr 2969567232"
  by (simp add: check_def charge_def and_then_def resource_def sample_json_def sample_budget_def
      checked_add_def checked_mul_def below_limits_def KERNEL_BYTES_def INITRD_BYTES_def
      SERIAL_STORAGE_BYTES_def SERIAL_BYTES_def Let_def)

lemma sample_headroom: "admit_storage sample_budget 2969567232 0 sample_storage = Inr ()"
  by (simp add: admit_storage_def and_then_def sample_budget_def sample_storage_def
      checked_add_def checked_mul_def JOURNAL_HEADROOM_PER_RECEIPT_def Let_def)

text \<open>Output captured by the running job.\<close>

definition sample_event :: JobEvent where
  "sample_event = \<lparr>event_sequence = 1, event_stream = ''stdout'', event_data = [104, 105]\<rparr>"

definition captured_row :: job_row where
  "captured_row = running_row\<lparr>job_capture_cursor := 1, job_retained_bytes := 2\<rparr>"

definition captured_db :: db where
  "captured_db = job_db captured_row [\<lparr>ev_job_id = 60, ev_sequence = 1, ev_stream = ''stdout'',
     ev_digest = sample_sha [104, 105], ev_data = Some [104, 105]\<rparr>]"

text \<open>The job bound to a VM generation together with its creation lease.\<close>

definition bound_lease :: HostResourceLease where
  "bound_lease = \<lparr>lease_id = 50, lease_vm_name = ''job-60'', lease_vsock_cid = 3,
     lease_tap_device = None, lease_guest_ip = None, lease_created_at = 0, lease_vm_id = Some 7,
     lease_backend_entered = False, lease_vm_destroyed = False, lease_allocation_aborted = False\<rparr>"

definition bound_db :: db where
  "bound_db = (job_db claimed_row [])\<lparr>next_cid := 4, leases := [lease_to_row bound_lease]\<rparr>"

lemma sample_sha_differs: "sample_sha [1] \<noteq> sample_sha [104, 105]"
  by (simp add: sample_sha_def numeral_eq_Suc)

text \<open>A JSON library with one value, which reads back what it writes.\<close>

definition plain_json :: "unit json" where
  "plain_json = \<lparr>json_from_str = (\<lambda>_. Some ()), json_to_string = (\<lambda>_. ''{}''), json_is_object = (\<lambda>_. True),
     json_index = (\<lambda>_ _. ()), json_as_u64 = (\<lambda>_. None), json_has = (\<lambda>_ _. False), json_set = (\<lambda>_ _ _. ()),
     json_remove = (\<lambda>_ _. ()), json_of_string = (\<lambda>_. ()), json_of_bool = (\<lambda>_. ())\<rparr>"

lemma sample_sha_length: "length (sample_sha bs) = 64"
  by (simp add: sample_sha_def)

end
