(* ===== verification/Job_Contracts.thy ===== *)
theory Job_Contracts
  imports Job_Samples
begin

text \<open>
  What the operations of the execution journal promise their callers: idempotent submission,
  admission within the budget, idempotent capture, ownership of a VM together with its
  creation lease, and the cleanup and expiry of evidence.
\<close>

subsection \<open>Submission\<close>

lemma journal_row:
  assumes "journal_inv (journal_of d)" "r \<in> set (jobs d)"
  shows "row_inv r"
  using assms by (simp add: journal_inv_def journal_of_def)

lemma job_readable:
  assumes ok: "store_ok d" and inv: "journal_inv (journal_of d)"
    and r: "r \<in> set (jobs d)" "\<not> is_tombstone r"
  obtains job where "read_record r = Inr job"
proof -
  have "job_specification r \<noteq> None" using journal_row [OF inv r(1)] r(2) by (simp add: row_inv_def)
  then show thesis using read_record_total [OF store_ok_jobs(3) [OF ok r(1)] r(2)] that by blast
qed

lemma get_on_found:
  assumes ok: "store_ok d" and r: "r \<in> set (jobs d)" "\<not> is_tombstone r"
  shows "get_on (job_id r) d = (map_sum JDatabase id (read_record r), d)"
proof -
  have "find (\<lambda>j. job_id j = job_id r \<and> job_state j \<noteq> ''deleted'') (jobs d) = Some r"
    by (rule find_Some_only [OF r(1)])
      (use r(2) unique_onD [OF store_ok_jobs(1) [OF ok] _ r(1)] in \<open>auto simp: is_tombstone_def\<close>)
  then show ?thesis
    by (simp add: get_on_def op_simps jdb_val_def)
qed

lemma in_purged:
  "r \<in> set (jobs (purged now d)) \<longleftrightarrow>
     r \<in> set (jobs d) \<and> \<not> (is_tombstone r \<and> job_deadline r \<le> timestamp now)"
  by (auto simp: purged_simps is_tombstone_def)

lemma accept_inner_found:
  assumes "\<not> invalid_key k" "bounded_json js sp MAX_SPEC_BYTES = Inr ()"
    "find (\<lambda>j. job_submission_key j = k) (jobs (purged now d)) = Some row"
  shows "accept_job_inner rep sha js now i s k sp dl ru b d =
    (case replay_job (spec_digest sha (bytes_of sp)) dl row (purged now d) of
       (Inl e, _) \<Rightarrow> (Inl e, d) | (Inr x, d') \<Rightarrow> (Inr x, d'))"
  using assms
  by (simp add: accept_job_inner_def bind_op_def lift_result_def transaction_def jdb_op_def map_err_def
      sql_delete_jobs_def purged_def Let_def query_def split: prod.splits sum.splits)

text \<open>
  C7: A submission is accepted once. As long as the journal has a receipt for a submission key,
  submitting under that key again never creates work: with the same specification and deadline
  it returns the recorded job, marked as not new, and changes nothing but the removal of
  tombstones past their deadline; with another specification or deadline, or after the
  evidence was deleted, it is refused as a conflict and changes nothing. Ids, times,
  retention, budget and storage of the second submission play no role.
\<close>

theorem submission_accepted_once:
  assumes ok: "store_ok d" and inv: "journal_inv (journal_of d)"
    and key: "\<not> invalid_key k" and spec: "bounded_json js sp MAX_SPEC_BYTES = Inr ()"
    and r: "r \<in> set (jobs d)" "job_submission_key r = k"
      "\<not> (is_tombstone r \<and> job_deadline r \<le> timestamp now)"
  shows "if is_tombstone r \<or> job_spec_digest r \<noteq> spec_digest sha (bytes_of sp)
           \<or> job_deadline r \<noteq> timestamp dl
    then \<exists>m. accept_job_inner rep sha js now i s k sp dl ru b d = (Inl (Conflict m), d)
    else \<exists>job. get_job (job_id r) d = (Inr job, d)
      \<and> accept_job_inner rep sha js now i s k sp dl ru b d = (Inr (job, False), purged now d)"
proof -
  have mem: "r \<in> set (jobs (purged now d))" using r by (simp add: in_purged)
  have u: "unique_on job_submission_key (jobs (purged now d))"
    by (rule store_ok_jobs(2) [OF store_ok_purged [OF ok]])
  have "find (\<lambda>j. job_submission_key j = k) (jobs (purged now d)) = Some r"
    using find_Some_iff_unique [OF u] mem r(2) by blast
  note acc = accept_inner_found [OF key spec this]
  show ?thesis
  proof (cases "is_tombstone r \<or> job_spec_digest r \<noteq> spec_digest sha (bytes_of sp)
           \<or> job_deadline r \<noteq> timestamp dl")
    case True
    then show ?thesis unfolding acc by (auto simp: replay_job_def err_def is_tombstone_def)
  next
    case False
    then have alive: "\<not> is_tombstone r" by simp
    obtain job where job: "read_record r = Inr job" by (rule job_readable [OF ok inv r(1) alive])
    have "get_on (job_id r) d = (Inr job, d)" "get_on (job_id r) (purged now d) = (Inr job, purged now d)"
      using get_on_found [OF ok r(1) alive] get_on_found [OF store_ok_purged [OF ok] mem alive] job
      by simp_all
    then show ?thesis
      using False unfolding acc
      by (auto simp: replay_job_def is_tombstone_def bind_op_def ok_def get_job_def)
  qed
qed

theorem submission_accepted_once_witness:
  "(\<exists>job. get_job 60 (job_db accepted_row []) = (Inr job, job_db accepted_row [])
      \<and> accept_job_inner hd sample_sha sample_json 0 90 91 ''key'' ''{}'' sample_deadline 5 None
          (job_db accepted_row []) = (Inr (job, False), purged 0 (job_db accepted_row [])))
    \<and> (\<exists>m. accept_job_inner hd sample_sha sample_json 0 90 91 ''key'' ''{}'' 0 5 None
          (job_db accepted_row []) = (Inl (Conflict m), job_db accepted_row []))"
proof -
  have r: "accepted_row \<in> set (jobs (job_db accepted_row []))" "job_submission_key accepted_row = ''key''"
    "\<not> (is_tombstone accepted_row \<and> job_deadline accepted_row \<le> timestamp 0)"
    by (simp_all add: job_db_def sample_row_defs is_tombstone_def)
  note use = submission_accepted_once [OF sample_dbs_ok(1) sample_dbs_inv(1) sample_key sample_spec r]
  show ?thesis
    using use [of sample_sha sample_deadline hd 90 91 5 None] use [of sample_sha 0 hd 90 91 5 None]
    by (simp add: sample_row_defs is_tombstone_def timestamp_def sample_deadline_def)
qed

subsection \<open>Admission\<close>

lemma collect_some_column:
  "collect_results (map (ok_or e) column) = Inr xs \<Longrightarrow> column = map Some xs"
proof (induction column arbitrary: xs)
  case (Cons c cs)
  then obtain x ys where "c = Some x" "collect_results (map (ok_or e) cs) = Inr ys" "xs = x # ys"
    by (cases c) (auto simp: and_then_Inr)
  then show ?case using Cons.IH by simp
qed simp

lemma check_budget_Inr:
  assumes "check_budget js bd obs sp n m d = (Inr u, d')"
  obtains specs boot storage where "m < max_jobs bd"
    "map job_specification (filter active_row (jobs d)) = map Some specs"
    "check js bd (specs @ [sp]) = Inr boot" "obs = Inr storage"
    "admit_storage bd boot n storage = Inr ()"
proof -
  let ?column = "map job_specification (filter active_row (jobs d))"
  have lt: "m < max_jobs bd"
    and body: "bind_op (jdb_val (collect_results (map (ok_or (InvalidColumnType 0)) ?column))) (\<lambda>specifications.
        bind_op (lift_result (check js bd (specifications @ [sp]))) (\<lambda>needed.
        bind_op (lift_result obs) (\<lambda>storage. lift_result (admit_storage bd needed n storage)))) d = (Inr u, d')"
    using assms unfolding check_budget_def if_err_Inr not_le bind_query by (rule conjunct1, rule conjunct2)
  from body obtain specs d1 where 1: "jdb_val (collect_results (map (ok_or (InvalidColumnType 0)) ?column)) d = (Inr specs, d1)"
    and b1: "bind_op (lift_result (check js bd (specs @ [sp]))) (\<lambda>needed.
        bind_op (lift_result obs) (\<lambda>storage. lift_result (admit_storage bd needed n storage))) d1 = (Inr u, d')"
    by (rule bind_op_Inr)
  from b1 obtain boot d2 where 2: "lift_result (check js bd (specs @ [sp])) d1 = (Inr boot, d2)"
    and b2: "bind_op (lift_result obs) (\<lambda>storage. lift_result (admit_storage bd boot n storage)) d2 = (Inr u, d')"
    by (rule bind_op_Inr)
  from b2 obtain storage d3 where 3: "lift_result obs d2 = (Inr storage, d3)"
    and 4: "lift_result (admit_storage bd boot n storage) d3 = (Inr u, d')"
    by (rule bind_op_Inr)
  have "collect_results (map (ok_or (InvalidColumnType 0)) ?column) = Inr specs"
    using 1 unfolding jdb_val_def lift_Inr map_sum_Inr by auto
  then have "?column = map Some specs" by (rule collect_some_column)
  with lt show thesis using that 2 3 4 unfolding lift_Inr by auto
qed

lemma validate_Inr: "validate b = Inr () \<Longrightarrow> 1 \<le> max_jobs b \<and> max_jobs b \<le> MAX_ACTIVE_JOBS"
  by (auto simp: validate_def split: if_splits)

text \<open>
  C8: A job is admitted only within the budget. When \<open>accept_job_with_budget\<close> accepts a new job,
  then over all execution reservations, the new one included, the number of jobs is at most the
  budget's (itself at most 16), every reservation states its resources, and the totals of vCPUs,
  memory, root disks and boot storage, in unbounded arithmetic, are within the budget. The
  job is recorded as accepted with the submitted specification.
\<close>

theorem admitted_within_budget:
  assumes ok: "store_ok d"
    and run: "accept_job_with_budget rep sha js now i s k sp dl ru bd obs d = (Inr (job, True), d')"
    and specs: "specs = map (\<lambda>j. the (job_specification j)) (filter active_row (jobs d'))"
  shows "length specs \<le> max_jobs bd \<and> max_jobs bd \<le> MAX_ACTIVE_JOBS
    \<and> list_all (accounted js) specs
    \<and> within_budget bd (\<Sum>s\<leftarrow>specs. need_cpus js s) (\<Sum>s\<leftarrow>specs. need_memory js bd s)
        (\<Sum>s\<leftarrow>specs. need_disk js s) (\<Sum>s\<leftarrow>specs. need_boot js s)
    \<and> get_job i d' = (Inr job, d') \<and> rec_state job = JobAccepted \<and> rec_specification job = sp"
proof -
  let ?new = "new_job i s k (spec_digest sha (bytes_of sp)) sp now dl ru"
  have v: "validate bd = Inr ()"
    and inner: "accept_job_inner rep sha js now i s k sp dl ru (Some (bd, obs)) d = (Inr (job, True), d')"
    using run unfolding accept_job_with_budget_def by (auto simp: run_simps elim!: bind_op_Inr)
  from inner have "admit_job rep js now i s k (spec_digest sha (bytes_of sp)) sp dl ru (Some (bd, obs))
      (purged now d) = (Inr (job, True), d')"
    by (rule accept_inner_Inr) (auto dest: replay_Inr)
  note a = admit_Inr [OF this]
  from a(7) [OF refl] obtain old boot storage where lt: "count_rows active_row (jobs (purged now d)) < max_jobs bd"
    and old: "map job_specification (filter active_row (jobs (purged now d))) = map Some old"
    and chk: "check js bd (old @ [sp]) = Inr boot"
    by (rule check_budget_Inr)
  have "map (\<lambda>j. the (job_specification j)) (filter active_row (jobs (purged now d))) = old"
    using arg_cong [OF old, of "map the"] by (simp add: comp_def)
  then have sp: "specs = old @ [sp]"
    by (simp add: specs a(9) new_job_def active_row_def)
  have "length old = count_rows active_row (jobs (purged now d))"
    using arg_cong [OF old, of length] by (simp add: count_rows_def)
  then have "length specs \<le> max_jobs bd" using lt sp by simp
  moreover have got: "get_on i d' = (Inr job, d')" using a(11) by simp
  moreover have "rec_state job = JobAccepted" "rec_specification job = sp"
  proof -
    obtain r where r: "r \<in> set (jobs d')" "job_id r = i" "read_record r = Inr job"
      using got by (elim get_on_Inr) blast
    have "unique_on job_id (jobs d')" using a(8) unfolding a(9) raised_jobs_constraints by simp
    then have "r = ?new"
      by (rule unique_onD) (use r(1,2) in \<open>simp_all add: a(9) new_job_def\<close>)
    then have "job_as_str (rec_state job) = ''accepted''" "Some (rec_specification job) = Some sp"
      using read_record_Inr(1,14) [OF r(3)] by (simp_all add: new_job_def)
    then show "rec_state job = JobAccepted" "rec_specification job = sp"
      by (simp_all add: job_as_str_iff(1))
  qed
  ultimately show ?thesis
    using chk validate_Inr [OF v] unfolding check_exact sp get_job_def by simp
qed

lemma sample_purged: "jdb_op (sql_delete_jobs P) fresh_db = (Inr 0, fresh_db)"
  by (simp add: jdb_op_def map_err_def sql_delete_jobs_def Let_def count_rows_def table_simps delete_rows_def)

lemma sample_inserted: "jdb_op (sql_insert_jobs hd accepted_row) fresh_db = (Inr (), job_db accepted_row [])"
  using sample_rows_ok(1)
  by (simp add: jdb_op_def map_err_def sql_insert_jobs_def statement_def jobs_constraints_def unique_on_def
      unique_some_def job_db_def)

lemma sample_accepted:
  obtains job where "read_record accepted_row = Inr job"
    "get_on 60 (job_db accepted_row []) = (Inr job, job_db accepted_row [])"
proof -
  obtain job where job: "read_record accepted_row = Inr job"
    using job_readable [OF sample_dbs_ok(1) sample_dbs_inv(1), of accepted_row]
    by (auto simp: job_db_def sample_row_defs is_tombstone_def)
  have "get_on 60 (job_db accepted_row []) = (Inr job, job_db accepted_row [])"
    using get_on_found [OF sample_dbs_ok(1), of accepted_row] job
    by (simp add: job_db_def sample_row_defs is_tombstone_def)
  then show thesis using that job by blast
qed

lemma sample_admission:
  "\<exists>job. accept_job_with_budget hd sample_sha sample_json 0 60 61 ''key'' ''{}'' sample_deadline
     sample_retention sample_budget (Inr sample_storage) fresh_db = (Inr (job, True), job_db accepted_row [])"
proof -
  have budget: "check_budget sample_json sample_budget (Inr sample_storage) ''{}'' 0 0 fresh_db = (Inr (), fresh_db)"
    by (simp add: check_budget_def op_simps jdb_val_def sample_check sample_headroom)
      (simp add: sample_budget_def)
  obtain job where got: "get_on 60 (job_db accepted_row []) = (Inr job, job_db accepted_row [])"
    by (rule sample_accepted)
  have "admit_job hd sample_json 0 60 61 ''key'' (spec_digest sample_sha (bytes_of ''{}'')) ''{}'' sample_deadline
     sample_retention (Some (sample_budget, Inr sample_storage)) fresh_db
     = (Inr (job, True), job_db accepted_row [])"
    using budget sample_inserted got unfolding accepted_row_def [symmetric] admit_job_def
    by (simp add: op_simps count_rows_def timestamp_def sample_deadline_def sample_retention_def days_def
        MAX_SUBMISSION_RECEIPTS_def MAX_RETAINED_JOBS_def MAX_ACTIVE_JOBS_def accepted_row_def [symmetric])
  then show ?thesis
    by (simp add: accept_job_with_budget_def accept_job_inner_def sample_validate sample_key sample_spec
        sample_purged bind_op_def lift_result_def transaction_def query_def Let_def)
qed

lemma sample_acceptance:
  "\<exists>job. accept_job hd sample_sha plain_json 0 60 61 ''key'' ''{}'' sample_deadline
     sample_retention fresh_db = (Inr (job, True), job_db accepted_row [])"
proof -
  obtain job where got: "get_on 60 (job_db accepted_row []) = (Inr job, job_db accepted_row [])"
    by (rule sample_accepted)
  have "admit_job hd plain_json 0 60 61 ''key'' (spec_digest sample_sha (bytes_of ''{}'')) ''{}'' sample_deadline
     sample_retention None fresh_db = (Inr (job, True), job_db accepted_row [])"
    using sample_inserted got unfolding accepted_row_def [symmetric] admit_job_def
    by (simp add: op_simps count_rows_def timestamp_def sample_deadline_def sample_retention_def days_def
        MAX_SUBMISSION_RECEIPTS_def MAX_RETAINED_JOBS_def MAX_ACTIVE_JOBS_def accepted_row_def [symmetric])
  then show ?thesis
    using sample_key sample_purged
    by (simp add: accept_job_def accept_job_inner_def op_simps bounded_json_def plain_json_def MAX_SPEC_BYTES_def
        Let_def transaction_def)
qed

theorem admitted_within_budget_witness:
  "\<exists>job d'. accept_job_with_budget hd sample_sha sample_json 0 60 61 ''key'' ''{}'' sample_deadline
     sample_retention sample_budget (Inr sample_storage) fresh_db = (Inr (job, True), d')
     \<and> get_job 60 d' = (Inr job, d') \<and> rec_state job = JobAccepted"
proof -
  obtain job d' where run: "accept_job_with_budget hd sample_sha sample_json 0 60 61 ''key'' ''{}''
     sample_deadline sample_retention sample_budget (Inr sample_storage) fresh_db = (Inr (job, True), d')"
    using sample_admission by blast
  show ?thesis using run admitted_within_budget [OF store_ok_fresh run refl] by blast
qed

subsection \<open>Captured output\<close>

definition logged :: "(bytes \<Rightarrow> string) \<Rightarrow> Uuid \<Rightarrow> JobEvent \<Rightarrow> db \<Rightarrow> bool" where
  "logged sha i e d \<longleftrightarrow> (\<exists>r \<in> set (job_events d). ev_job_id r = i \<and> ev_sequence r = event_sequence e
     \<and> ev_stream r = event_stream e \<and> ev_digest r = sha (event_data e))"

lemma append_event_logged:
  assumes "append_event rep sha i e c d = (Inr c', d')"
  shows "\<not> invalid_event e \<and> event_sequence e \<le> cap_cursor c' \<and> logged sha i e d'
    \<and> cap_cursor c \<le> cap_cursor c' \<and> (cap_truncated c \<longrightarrow> cap_truncated c')
    \<and> set (job_events d) \<subseteq> set (job_events d') \<and> jobs d' = jobs d"
  using assms
proof (rule append_event_Inr)
  assume "c' = c" "d' = d" "\<not> invalid_event e" "event_sequence e \<le> cap_cursor c"
    "\<exists>r \<in> set (job_events d). ev_job_id r = i \<and> ev_sequence r = event_sequence e
         \<and> ev_stream r = event_stream e \<and> ev_digest r = sha (event_data e)"
  then show ?thesis by (simp add: logged_def)
next
  fix keep
  assume "\<not> invalid_event e" "event_sequence e = cap_cursor c + 1"
    "d' = d\<lparr>job_events := job_events d @ [\<lparr>ev_job_id = i, ev_sequence = event_sequence e,
         ev_stream = event_stream e, ev_digest = sha (event_data e),
         ev_data = (if keep then Some (event_data e) else None)\<rparr>]\<rparr>"
    "c' = \<lparr>cap_cursor = event_sequence e,
         cap_bytes = (if keep then cap_bytes c + length (event_data e) else cap_bytes c),
         cap_truncated = (if keep then cap_truncated c else True),
         cap_dropped = (if keep then cap_dropped c else True)\<rparr>"
  then show ?thesis by (auto simp: logged_def)
qed

lemma logged_mono: "logged sha i e d \<Longrightarrow> set (job_events d) \<subseteq> set (job_events d') \<Longrightarrow> logged sha i e d'"
  unfolding logged_def by blast

lemma append_events_logged:
  assumes "append_events rep sha i es c d = (Inr c', d')"
  shows "list_all (\<lambda>e. \<not> invalid_event e \<and> event_sequence e \<le> cap_cursor c' \<and> logged sha i e d') es
    \<and> cap_cursor c \<le> cap_cursor c' \<and> (cap_truncated c \<longrightarrow> cap_truncated c')
    \<and> set (job_events d) \<subseteq> set (job_events d') \<and> jobs d' = jobs d"
  using assms
proof (induction es arbitrary: c d)
  case Nil
  then show ?case by (simp add: ok_Inr)
next
  case (Cons e es)
  from Cons.prems obtain c1 d1 where 1: "append_event rep sha i e c d = (Inr c1, d1)"
    and 2: "append_events rep sha i es c1 d1 = (Inr c', d')"
    by (auto elim: bind_op_Inr)
  note a = append_event_logged [OF 1] and b = Cons.IH [OF 2]
  have "logged sha i e d'" using a b logged_mono by blast
  then show ?case using a b by auto
qed

lemma logged_found:
  assumes "unique_on event_key (job_events d)" "logged sha i e d"
  shows "map_option (\<lambda>r. (ev_stream r, ev_digest r))
      (find (\<lambda>r. ev_job_id r = i \<and> ev_sequence r = event_sequence e) (job_events d))
    = Some (event_stream e, sha (event_data e))"
proof -
  obtain r where r: "r \<in> set (job_events d)" "ev_job_id r = i \<and> ev_sequence r = event_sequence e"
    "ev_stream r = event_stream e" "ev_digest r = sha (event_data e)"
    using assms(2) unfolding logged_def by blast
  have "find (\<lambda>r. ev_job_id r = i \<and> ev_sequence r = event_sequence e) (job_events d) = Some r"
  proof (rule find_Some_only [where P = "\<lambda>r. ev_job_id r = i \<and> ev_sequence r = event_sequence e"])
    fix q assume "q \<in> set (job_events d)" "ev_job_id q = i \<and> ev_sequence q = event_sequence e"
    then show "q = r" using unique_onD [OF assms(1) _ r(1)] r(2) by (simp add: event_key_def)
  qed (fact r(1,2))+
  then show ?thesis using r(3,4) by simp
qed

lemma append_events_replay:
  assumes "unique_on event_key (job_events d)"
    "list_all (\<lambda>e. \<not> invalid_event e \<and> event_sequence e \<le> cap_cursor c \<and> logged sha i e d) es"
  shows "append_events rep sha i es c d = (Inr c, d)"
  using assms(2)
proof (induction es)
  case (Cons e es)
  then have v: "\<not> invalid_event e" "event_sequence e \<le> cap_cursor c" and "logged sha i e d" by simp_all
  then have "append_event rep sha i e c d = (Inr c, d)"
    using logged_found [OF assms(1), of sha i e] unfolding append_event_def Let_def bind_query
    by (simp only: if_not_P if_P v not_True_eq_False if_False) (simp add: ok_def)
  then show ?case using Cons by (simp add: bind_op_def)
qed (simp add: ok_def)

lemma raised_concat: "raised (concat xss) = [] \<longleftrightarrow> (\<forall>xs \<in> set xss. raised xs = [])"
  by (auto simp: raised_def filter_empty_conv)

text \<open>An \<open>UPDATE\<close> that writes what is already there.\<close>

lemma update_job_same:
  assumes ok: "store_ok d" and r: "r \<in> set (jobs d)" and same: "f r = r"
    and cols: "\<not> sets_any cols [''id'', ''submission_key'', ''spec_digest'', ''deadline'', ''session_id'']"
  shows "\<exists>n. update_job rep cols (\<lambda>j. job_id j = job_id r) f d = (Inr n, d)"
proof -
  have only: "j = r" if "j \<in> set (jobs d)" "job_id j = job_id r" for j
    using unique_onD [OF store_ok_jobs(1) [OF ok] that(1) r that(2)] .
  have "update_rows (\<lambda>j. job_id j = job_id r) f (jobs d) = jobs d"
    unfolding update_rows_def by (rule map_idI) (use only same in auto)
  moreover have "raised (concat (map (\<lambda>j. job_update_triggers cols j (f j))
      (filter (\<lambda>j. job_id j = job_id r) (jobs d)))) = []"
  proof -
    have "job_update_triggers cols j (f j) = job_update_triggers cols r r"
      if "j \<in> set (filter (\<lambda>j. job_id j = job_id r) (jobs d))" for j
      using only [of j] that same by simp
    moreover have "raised (job_update_triggers cols r r) = []"
      using cols by (simp add: job_update_triggers_def)
    ultimately show ?thesis unfolding raised_concat by simp
  qed
  moreover have "raised (jobs_constraints (jobs d)) = []"
    using ok unfolding raised_jobs_constraints by (simp add: store_ok_def journal_ok_def)
  ultimately have "update_job rep cols (\<lambda>j. job_id j = job_id r) f d
      = (Inr (count_rows (\<lambda>j. job_id j = job_id r) (jobs d)), d)"
    by (simp add: update_job_Inr)
  then show ?thesis by blast
qed

lemma append_found:
  assumes ok: "store_ok d" and r: "r \<in> set (jobs d)" "\<not> is_tombstone r" "job_collection r = ''pending''"
    and job: "read_record r = Inr job" and es: "length es \<le> EVENT_PAGE_SIZE"
  shows "append_job_events rep sha (job_id r) es g d = transaction (
     bind_op (append_events rep sha (job_id r) es (first_capture r g d)) (\<lambda>c.
     bind_op (update_job rep [''capture_cursor'', ''retained_bytes'', ''output_truncated'']
       (\<lambda>j. job_id j = job_id r) (\<lambda>j. cap_row j c)) (\<lambda>_. ok ()))) d"
proof -
  have "get_on (job_id r) d = (Inr job, d)" using get_on_found [OF ok r(1,2)] job by simp
  then have got: "bind_op (get_on (job_id r)) f d = f job d" for f by (simp add: bind_op_def)
  note rec = read_record_Inr [OF job]
  have "collection_as_str (rec_collection job) = ''pending''" using rec(2) r(3) by metis
  then have "rec_collection job = CollPending" by (simp add: collection_as_str_iff)
  then show ?thesis
    using es unfolding append_job_events_def transaction_def
    by (simp add: got bind_query first_capture_def rec cap_row_def)
qed

lemma append_row:
  assumes ok: "store_ok d" and run: "append_job_events rep sha i es g d = (Inr u, d')"
  obtains r c where "r \<in> set (jobs d)" "job_id r = i" "\<not> is_tombstone r" "job_collection r = ''pending''"
    "cap_row r c \<in> set (jobs d')" "length es \<le> EVENT_PAGE_SIZE" "g \<longrightarrow> cap_truncated c"
    "list_all (\<lambda>e. \<not> invalid_event e \<and> event_sequence e \<le> cap_cursor c \<and> logged sha i e d') es"
proof -
  from run obtain r c d1 n where es: "length es \<le> EVENT_PAGE_SIZE"
    and r: "r \<in> set (jobs d)" "job_id r = i" "\<not> is_tombstone r" "job_collection r = ''pending''"
    and loop: "append_events rep sha i es (first_capture r g d) d = (Inr c, d1)"
    and up: "update_job rep [''capture_cursor'', ''retained_bytes'', ''output_truncated''] (\<lambda>j. job_id j = i)
       (\<lambda>j. cap_row j c) d1 = (Inr n, d')"
    by (rule append_Inr)
  note l = append_events_logged [OF loop]
  have d': "d' = d1\<lparr>jobs := update_rows (\<lambda>j. job_id j = i) (\<lambda>j. cap_row j c) (jobs d1)\<rparr>"
    using up by (simp add: update_job_Inr)
  have "cap_row r c \<in> set (jobs d')" using l r(1,2) by (auto simp: d' set_update_rows)
  moreover have "list_all (\<lambda>e. \<not> invalid_event e \<and> event_sequence e \<le> cap_cursor c \<and> logged sha i e d') es"
    using l by (simp add: d' logged_def)
  moreover have "g \<longrightarrow> cap_truncated c" using l by (simp add: first_capture_def)
  ultimately show thesis using that r es by blast
qed

text \<open>
  C9: Capturing output is idempotent and tamper-evident. After a batch of guest events was
  appended, appending the same batch again succeeds and changes nothing, so a batch whose
  acknowledgement was lost can be sent again; and an event that reuses the sequence number of a
  captured one with another stream or other bytes (told apart by their digest) is refused as a
  conflict and changes nothing, even when the bytes themselves were dropped for their size.
\<close>

theorem capture_replayed:
  assumes ok: "store_ok d" and inv: "journal_inv (journal_of d)"
    and run: "append_job_events rep sha i es g d = (Inr (), d')"
  shows "append_job_events rep' sha i es g d' = (Inr (), d')
    \<and> (\<forall>e e'. e \<in> set es \<and> \<not> invalid_event e' \<and> event_sequence e' = event_sequence e
        \<and> (event_stream e', sha (event_data e')) \<noteq> (event_stream e, sha (event_data e)) \<longrightarrow>
        append_job_events rep' sha i [e'] g' d' = (Inl (Conflict ''guest event replay changed''), d'))"
proof -
  obtain r c where r: "job_id r = i" "\<not> is_tombstone r" "job_collection r = ''pending''"
    and row: "cap_row r c \<in> set (jobs d')" and es: "length es \<le> EVENT_PAGE_SIZE" and g: "g \<longrightarrow> cap_truncated c"
    and log: "list_all (\<lambda>e. \<not> invalid_event e \<and> event_sequence e \<le> cap_cursor c \<and> logged sha i e d') es"
    by (rule append_row [OF ok run])
  let ?r = "cap_row r c"
  have ok': "store_ok d'" using withinD [OF keeps_job_evidence(1) run] ok by blast
  have inv': "journal_inv (journal_of d')"
    using journal_steps [OF _ inv] job_refinesD [OF append_refines run ok] by blast
  have q: "job_id ?r = i" "\<not> is_tombstone ?r" "job_collection ?r = ''pending''"
    using r by (simp_all add: cap_row_def is_tombstone_def)
  obtain job where job: "read_record ?r = Inr job" by (rule job_readable [OF ok' inv' row q(2)])
  have u: "unique_on event_key (job_events d')" using ok' by (simp add: store_ok_def journal_ok_def)
  note found = append_found [OF ok' row q(2,3) job, unfolded q(1)]
  have cur: "cap_cursor (first_capture ?r g0 d') = cap_cursor c" for g0
    by (simp add: first_capture_def cap_row_def)
  have "append_events rep' sha i es (first_capture ?r g d') d' = (Inr (first_capture ?r g d'), d')"
    by (rule append_events_replay [OF u]) (simp add: cur log)
  moreover have "cap_row ?r (first_capture ?r g d') = ?r"
    using g by (cases g) (simp_all add: cap_row_def first_capture_def)
  from update_job_same [OF ok' row, where f = "\<lambda>j. cap_row j (first_capture ?r g d')", OF this,
      of "[''capture_cursor'', ''retained_bytes'', ''output_truncated'']" rep']
  obtain n where "update_job rep' [''capture_cursor'', ''retained_bytes'', ''output_truncated'']
      (\<lambda>j. job_id j = i) (\<lambda>j. cap_row j (first_capture ?r g d')) d' = (Inr n, d')"
    by (auto simp: q(1) sets_any_def)
  ultimately have "append_job_events rep' sha i es g d' = (Inr (), d')"
    unfolding found [OF es] by (simp add: transaction_def bind_op_def ok_def)
  moreover have "append_job_events rep' sha i [e'] g' d' = (Inl (Conflict ''guest event replay changed''), d')"
    if e: "e \<in> set es" "\<not> invalid_event e'" "event_sequence e' = event_sequence e"
      and ne: "(event_stream e', sha (event_data e')) \<noteq> (event_stream e, sha (event_data e))" for e e'
  proof -
    have le: "event_sequence e' \<le> cap_cursor (first_capture ?r g' d')" and lg: "logged sha i e d'"
      using log e(1,3) by (auto simp: list_all_iff cur)
    have "append_event rep' sha i e' (first_capture ?r g' d') d'
        = (Inl (Conflict ''guest event replay changed''), d')"
      using logged_found [OF u lg] ne unfolding append_event_def Let_def bind_query e(3) [symmetric]
      by (simp only: e(2) le if_True if_False) (auto simp: err_def)
    then show ?thesis
      unfolding found [of "[e']", simplified EVENT_PAGE_SIZE_def, simplified]
      by (simp add: transaction_def bind_op_def)
  qed
  ultimately show ?thesis by blast
qed

lemma sample_read:
  assumes "r \<in> {accepted_row, claimed_row, running_row, ended_row_sample}"
  shows "\<exists>job. read_record r = Inr job" "\<not> is_tombstone r" "job_id r = 60"
proof -
  show t: "\<not> is_tombstone r" "job_id r = 60" using assms by (auto simp: sample_row_defs is_tombstone_def)
  have "raised (job_checks r) = []" "job_specification r \<noteq> None"
    using assms sample_rows_ok by (auto simp: sample_row_defs)
  then show "\<exists>job. read_record r = Inr job" using read_record_total t(1) by blast
qed

lemma sample_get:
  "read_record r = Inr job \<Longrightarrow> \<not> is_tombstone r \<Longrightarrow> job_id r = 60 \<Longrightarrow> jobs d = [r] \<Longrightarrow> get_on 60 d = (Inr job, d)"
  by (simp add: get_on_def op_simps jdb_val_def is_tombstone_def)

lemma sample_capture:
  "append_job_events hd sample_sha 60 [sample_event] False (job_db running_row []) = (Inr (), captured_db)"
proof -
  obtain job where job: "read_record running_row = Inr job" using sample_read(1) by blast
  have r: "running_row \<in> set (jobs (job_db running_row []))" "\<not> is_tombstone running_row"
    "job_collection running_row = ''pending''" "job_id running_row = 60"
    using sample_read(2) [of running_row] by (simp_all add: job_db_def sample_row_defs)
  have c: "first_capture running_row False (job_db running_row [])
      = \<lparr>cap_cursor = 0, cap_bytes = 0, cap_truncated = False, cap_dropped = False\<rparr>"
    by (simp add: first_capture_def job_db_def sample_row_defs)
  have ev: "append_events hd sample_sha 60 [sample_event]
      \<lparr>cap_cursor = 0, cap_bytes = 0, cap_truncated = False, cap_dropped = False\<rparr> (job_db running_row [])
    = (Inr \<lparr>cap_cursor = 1, cap_bytes = 2, cap_truncated = False, cap_dropped = False\<rparr>,
       job_db running_row (job_events captured_db))"
    by (simp add: append_event_def invalid_event_def sample_event_def MAX_EVENTS_def MAX_EVENT_BYTES_def
        MAX_OUTPUT_BYTES_def Let_def op_simps jdb_op_def sql_insert_job_events_def statement_def job_db_def
        sample_row_defs unique_on_def too_long_def captured_db_def sample_sha_def)
  have up: "update_job hd [''capture_cursor'', ''retained_bytes'', ''output_truncated''] (\<lambda>j. job_id j = 60)
      (\<lambda>j. cap_row j \<lparr>cap_cursor = 1, cap_bytes = 2, cap_truncated = False, cap_dropped = False\<rparr>)
      (job_db running_row (job_events captured_db)) = (Inr 1, captured_db)"
    unfolding update_job_Inr
    by (simp add: job_db_def captured_db_def captured_row_def sample_row_defs cap_row_def update_rows_def
        count_rows_def job_update_triggers_def sets_any_def jobs_constraints_def unique_on_def unique_some_def
        job_checks_def too_long_def known_job_states_def known_collections_def)
  show ?thesis
    using append_found [OF sample_dbs_ok(3) r(1-3) job, of "[sample_event]" hd sample_sha False] ev up
    unfolding r(4) c by (simp add: EVENT_PAGE_SIZE_def transaction_def bind_op_def ok_def)
qed

lemma captured_db_ok: "store_ok captured_db" "journal_inv (journal_of captured_db)"
  using withinD [OF keeps_job_evidence(1) sample_capture] sample_dbs_ok(3)
    journal_steps [OF job_refinesD [OF append_refines sample_capture sample_dbs_ok(3)] sample_dbs_inv(3)]
  by blast+

theorem capture_replayed_witness:
  "append_job_events hd sample_sha 60 [sample_event] False captured_db = (Inr (), captured_db)
    \<and> append_job_events hd sample_sha 60 [sample_event\<lparr>event_data := [1]\<rparr>] False captured_db
      = (Inl (Conflict ''guest event replay changed''), captured_db)"
  using capture_replayed [OF sample_dbs_ok(3) sample_dbs_inv(3) sample_capture, of hd False]
  by (simp add: invalid_event_def sample_event_def sample_sha_differs MAX_EVENTS_def MAX_EVENT_BYTES_def)

subsection \<open>Reading the log in pages\<close>

text \<open>A reader that follows the cursor for at most \<open>fuel\<close> pages and keeps what it was given.\<close>

fun read_pages :: "nat \<Rightarrow> Uuid \<Rightarrow> nat \<Rightarrow> JobEvent list journal_op" where
  "read_pages 0 i after = err (Invalid ''more pages'')"
| "read_pages (Suc fuel) i after =
     bind_op (job_events_page i after) (\<lambda>page.
     if page_has_more page
     then bind_op (read_pages fuel i (page_next_cursor page)) (\<lambda>rest. ok (page_events page @ rest))
     else ok (page_events page))"

lemma sorted_after_take:
  fixes f :: "'a \<Rightarrow> nat"
  assumes "sorted_wrt (<) (map f xs)" "0 < k" "k \<le> length xs"
  shows "filter (\<lambda>x. f (last (take k xs)) < f x) xs = drop k xs"
proof -
  let ?s = "f (last (take k xs))"
  have ne: "take k xs \<noteq> []" using assms by auto
  have split: "sorted_wrt (<) (map f (take k xs) @ map f (drop k xs))"
    using assms(1) by (simp add: map_append [symmetric] del: map_append)
  have "\<not> ?s < f x" if x: "x \<in> set (take k xs)" for x
  proof -
    have s: "sorted_wrt (\<lambda>x y. f x < f y) (take k xs)"
      using split by (simp add: sorted_wrt_append sorted_wrt_map)
    obtain j where j: "j < length (take k xs)" "take k xs ! j = x" using x by (auto simp: in_set_conv_nth)
    show ?thesis
    proof (cases "j = length (take k xs) - 1")
      case True
      then show ?thesis using j ne by (simp add: last_conv_nth)
    next
      case False
      have "f (take k xs ! j) < f (take k xs ! (length (take k xs) - 1))"
        by (rule sorted_wrt_nth_less [OF s]) (use j(1) False in auto)
      then show ?thesis using j ne by (simp add: last_conv_nth)
    qed
  qed
  moreover have "?s < f x" if "x \<in> set (drop k xs)" for x
    using split that ne last_in_set [OF ne] by (auto simp: sorted_wrt_append)
  ultimately have "filter (\<lambda>x. ?s < f x) (take k xs @ drop k xs) = drop k xs"
    unfolding filter_append by (simp add: filter_empty_conv filter_id_conv)
  then show ?thesis by simp
qed

lemma events_after_log:
  assumes inv: "journal_inv (journal_of d)" and r: "r \<in> set (jobs d)"
  defines "log \<equiv> filter has_data (log_of (job_id r) (job_events d))"
  shows "events_after (job_id r) after d =
      map (\<lambda>r. \<lparr>event_sequence = ev_sequence r, event_stream = ev_stream r, event_data = the (ev_data r)\<rparr>)
        (filter (\<lambda>e. after < ev_sequence e) log)"
    and "sorted_wrt (<) (map ev_sequence log)" and "list_all (\<lambda>e. ev_sequence e \<le> MAX_EVENTS) log"
    and "length log \<le> MAX_EVENTS"
proof -
  let ?l = "log_of (job_id r) (job_events d)"
  have l: "map ev_sequence ?l = [1..<job_capture_cursor r + 1]" and cur: "job_capture_cursor r \<le> MAX_EVENTS"
    using inv r by (auto simp: journal_inv_def journal_of_def log_inv_def)
  have s: "sorted_wrt (<) (map ev_sequence ?l)" unfolding l by (rule sorted_wrt_upt)
  show sl: "sorted_wrt (<) (map ev_sequence log)"
    using s unfolding log_def sorted_wrt_map by (rule sorted_wrt_filter)
  have "filter (\<lambda>q. ev_job_id q = job_id r \<and> ev_sequence q > after \<and> ev_data q \<noteq> None) (job_events d)
      = filter (\<lambda>e. after < ev_sequence e) log"
    by (auto simp: log_def log_of_def has_data_def intro: filter_cong)
  moreover have "sort_key ev_sequence (filter (\<lambda>e. after < ev_sequence e) log) = filter (\<lambda>e. after < ev_sequence e) log"
    using sl by (intro sort_key_id_if_sorted)
      (auto simp: sorted_map sorted_wrt_map intro!: sorted_wrt_filter elim: sorted_wrt_mono_rel [rotated])
  ultimately show "events_after (job_id r) after d =
      map (\<lambda>r. \<lparr>event_sequence = ev_sequence r, event_stream = ev_stream r, event_data = the (ev_data r)\<rparr>)
        (filter (\<lambda>e. after < ev_sequence e) log)"
    by (simp add: events_after_def)
  have "set (map ev_sequence ?l) \<subseteq> {1..job_capture_cursor r}" unfolding l by auto
  then show "list_all (\<lambda>e. ev_sequence e \<le> MAX_EVENTS) log"
    using cur unfolding log_def list_all_iff by auto
  have "length ?l = job_capture_cursor r" using arg_cong [OF l, of length] by simp
  then show "length log \<le> MAX_EVENTS"
    using cur length_filter_le [of has_data ?l] unfolding log_def by linarith
qed

lemma read_pages_all:
  assumes ok: "store_ok d" and inv: "journal_inv (journal_of d)" and r: "r \<in> set (jobs d)" "\<not> is_tombstone r"
    and a: "after \<le> MAX_EVENTS"
    and n: "length (events_after (job_id r) after d) \<le> fuel * EVENT_PAGE_SIZE" "0 < fuel"
  shows "read_pages fuel (job_id r) after d = (Inr (events_after (job_id r) after d), d)"
  using a n
proof (induction fuel arbitrary: after)
  case (Suc fuel)
  let ?log = "filter has_data (log_of (job_id r) (job_events d))"
  let ?E = "events_after (job_id r) after d" and ?P = EVENT_PAGE_SIZE
  let ?g = "\<lambda>q. \<lparr>event_sequence = ev_sequence q, event_stream = ev_stream q, event_data = the (ev_data q)\<rparr>"
  note log = events_after_log [OF inv r(1)]
  obtain job where job: "read_record r = Inr job" by (rule job_readable [OF ok inv r])
  have got: "get_on (job_id r) d = (Inr job, d)" using get_on_found [OF ok r] job by simp
  have pos: "0 < ?P" by (simp add: EVENT_PAGE_SIZE_def)
  show ?case
  proof (cases "?P < length ?E")
    case False
    then show ?thesis
      using got Suc.prems(1) by (simp add: job_events_page_def op_simps Let_def)
  next
    case True
    let ?next = "event_sequence (last (take ?P ?E))"
    let ?F = "filter (\<lambda>e. after < ev_sequence e) ?log"
    have E: "?E = map ?g ?F" by (rule log(1))
    have len: "?P < length ?F" using True unfolding E by simp
    have ne: "take ?P ?F \<noteq> []" "take ?P ?E \<noteq> []" using pos len True by auto
    have nxt: "?next = ev_sequence (last (take ?P ?F))" unfolding E using ne(1) by (simp add: take_map last_map)
    have mem: "last (take ?P ?F) \<in> set ?F" using last_in_set [OF ne(1)] by (rule in_set_takeD)
    then have gt: "after < ?next" unfolding nxt by simp
    have "?next \<le> MAX_EVENTS" using log(3) mem unfolding nxt list_all_iff by simp
    have "sorted_wrt (<) (map ev_sequence ?F)"
      using log(2) unfolding sorted_wrt_map by (rule sorted_wrt_filter)
    from sorted_after_take [OF this pos] len
    have "filter (\<lambda>e. ?next < ev_sequence e) ?F = drop ?P ?F" unfolding nxt by simp
    moreover have "filter (\<lambda>e. ?next < ev_sequence e) ?F = filter (\<lambda>e. ?next < ev_sequence e) ?log"
      using gt by (auto simp: filter_filter intro: filter_cong)
    ultimately have rest: "events_after (job_id r) ?next d = drop ?P ?E"
      unfolding log(1) E by (simp add: drop_map)
    have page: "job_events_page (job_id r) after d =
        (Inr \<lparr>page_job = job, page_events = take ?P ?E, page_next_cursor = ?next, page_has_more = True\<rparr>, d)"
      using got Suc.prems(1) True ne(2) pos
      by (simp add: job_events_page_def op_simps Let_def min_def)
    have "read_pages fuel (job_id r) ?next d = (Inr (drop ?P ?E), d)"
      using Suc.IH [OF \<open>?next \<le> MAX_EVENTS\<close>] Suc.prems(2) True unfolding rest by (cases fuel) auto
    then show ?thesis by (simp add: bind_op_def page ok_def)
  qed
qed simp

text \<open>
  C13: Reading the log page by page ends and misses nothing. A reader that follows the cursor
  of \<open>job_events\<close> from 0 until there is no more page gets, within 32 pages, exactly the
  retained events of the job: each once, in the order of their sequence numbers.
\<close>

theorem event_pages_complete:
  assumes ok: "store_ok d" and inv: "journal_inv (journal_of d)" and r: "r \<in> set (jobs d)" "\<not> is_tombstone r"
  shows "read_pages 32 (job_id r) 0 d = (Inr (events_after (job_id r) 0 d), d)
    \<and> map event_sequence (events_after (job_id r) 0 d)
        = map ev_sequence (filter has_data (log_of (job_id r) (job_events d)))
    \<and> sorted_wrt (<) (map event_sequence (events_after (job_id r) 0 d))"
proof -
  note log = events_after_log [OF inv r(1)]
  have "map ev_sequence (log_of (job_id r) (job_events d)) = [1..<job_capture_cursor r + 1]"
    using inv r(1) by (auto simp: journal_inv_def journal_of_def log_inv_def)
  then have "set (map ev_sequence (log_of (job_id r) (job_events d))) \<subseteq> {1..}" by auto
  then have "filter (\<lambda>e. 0 < ev_sequence e) (filter has_data (log_of (job_id r) (job_events d)))
      = filter has_data (log_of (job_id r) (job_events d))"
    unfolding filter_id_conv by auto
  then have E: "map event_sequence (events_after (job_id r) 0 d)
        = map ev_sequence (filter has_data (log_of (job_id r) (job_events d)))"
    and len: "length (events_after (job_id r) 0 d) \<le> MAX_EVENTS"
    using log(4) unfolding log(1) by (simp_all add: comp_def)
  have "read_pages 32 (job_id r) 0 d = (Inr (events_after (job_id r) 0 d), d)"
    by (rule read_pages_all [OF ok inv r]) (use len in \<open>simp_all add: MAX_EVENTS_def EVENT_PAGE_SIZE_def\<close>)
  then show ?thesis using E log(2) by simp
qed

theorem event_pages_complete_witness:
  "fst (read_pages 32 60 0 captured_db) = Inr [sample_event]"
proof -
  have "captured_row \<in> set (jobs captured_db)" "\<not> is_tombstone captured_row" "job_id captured_row = 60"
    by (simp_all add: captured_db_def job_db_def captured_row_def sample_row_defs is_tombstone_def)
  then show ?thesis
    using event_pages_complete [OF captured_db_ok, of captured_row]
    by (simp add: events_after_def captured_db_def job_db_def sample_event_def)
qed

subsection \<open>A VM and its creation lease\<close>

lemma get_lease_inserted:
  assumes run: "insert_host_resource_lease rep current l now n v d = (Inr lease, d')"
  shows "get_host_resource_lease l d' = (Inr lease, d') \<and> lease_vm_name lease = n \<and> lease_vm_id lease = v
    \<and> \<not> lease_backend_entered lease \<and> \<not> lease_allocation_aborted lease"
proof -
  obtain d1 :: db where lease: "lease = \<lparr>lease_id = l, lease_vm_name = n, lease_vsock_cid = lease_vsock_cid lease,
       lease_tap_device = None, lease_guest_ip = None, lease_created_at = now, lease_vm_id = v,
       lease_backend_entered = False, lease_vm_destroyed = False, lease_allocation_aborted = False\<rparr>"
    and new: "raised (leases_constraints (leases d @ [lease_to_row lease])) = []"
    and d': "d' = d\<lparr>freed_cids := freed_cids d1, next_cid := next_cid d1,
       leases := leases d @ [lease_to_row lease], boot_epochs := boot_epochs d'\<rparr>"
    by (rule insert_lease_ok [OF run])
  have fields: "lease_id lease = l" "lease_vm_name lease = n" "lease_vm_id lease = v"
    "\<not> lease_backend_entered lease" "\<not> lease_allocation_aborted lease"
    by (subst lease, simp)+
  have ls: "leases d' = leases d @ [lease_to_row lease]" by (subst d') simp
  have "\<forall>q \<in> set (leases d). lease_id q \<noteq> l"
    using new fields(1) by (auto simp: leases_constraints_def unique_on_append lease_to_row_def split: if_splits)
  then have "find (\<lambda>q. lease_id q = l) (leases d) = None" by (auto simp: find_None_iff)
  then have "find (\<lambda>q. lease_id q = l) (leases d') = Some (lease_to_row lease)"
    using fields(1) by (simp add: ls find_append_new lease_to_row_def)
  then have "get_host_resource_lease l d' = (Inr lease, d')"
    by (simp add: get_host_resource_lease_def op_simps row_to_lease_lease_to_row)
  then show ?thesis using fields by blast
qed

text \<open>
  C10: A VM generation and its creation lease are durable together or not at all.
  \<open>bind_job_vm_with_lease\<close> either changes nothing, or afterwards the job owns the generation under
  the given name with its cleanup pending, no job owned that generation before, and the new
  lease names the same VM and the same generation and has not been entered.
\<close>

theorem generation_bound_with_lease:
  assumes ok: "store_ok d"
    and run: "bind_job_vm_with_lease rep current l now i vm n d = (x, d')"
  shows "(\<forall>e. x = Inl e \<longrightarrow> d' = d)
    \<and> (\<forall>job lease. x = Inr (job, lease) \<longrightarrow>
        get_job i d' = (Inr job, d') \<and> rec_vm_id job = Some vm \<and> rec_vm_name job = Some n
        \<and> rec_cleanup_pending job \<and> (\<forall>j \<in> set (jobs d). job_vm_id j \<noteq> Some vm)
        \<and> get_host_resource_lease l d' = (Inr lease, d') \<and> lease_vm_id lease = Some vm
        \<and> lease_vm_name lease = n \<and> \<not> lease_backend_entered lease)"
proof (cases x)
  case (Inl e)
  have "all_or_nothing (bind_job_vm_with_lease rep current l now i vm n)"
    unfolding bind_job_vm_with_lease_def by (rule transaction_all_or_nothing)
  then have "d' = d" using run Inl unfolding all_or_nothing_def by blast
  then show ?thesis using Inl by simp
next
  case (Inr y)
  obtain job lease where y: "y = (job, lease)" by fastforce
  have run': "bind_job_vm_with_lease rep current l now i vm n d = (Inr (job, lease), d')"
    using run Inr y by simp
  obtain job0 r0 d1 d2 where r0: "r0 \<in> set (jobs d)" "job_id r0 = i" "read_record r0 = Inr job0"
    and free: "rec_vm_id job0 = None" and bind: "bind_on rep now i vm n d = (Inr (), d1)"
    and ins0: "insert_host_resource_lease rep current l now n (Some vm) d1 = (Inr lease, d2)"
    and got0: "get_on i d2 = (Inr job, d')"
    using run' unfolding bind_job_vm_with_lease_def transaction_Inr
    by (elim bind_get_on_Inr) (auto simp: run_simps map_err_Inr elim!: bind_op_Inr)
  have d2: "d' = d2" by (rule get_on_state [OF got0])
  note ins = ins0 [folded d2] and got = got0 [folded d2]
  note lease = get_lease_inserted [OF ins]
  let ?f = "\<lambda>j. j\<lparr>job_vm_id := Some vm, job_vm_name := Some n,
           job_state := (if job_state j = ''accepted'' then ''preparing'' else job_state j),
           job_cleanup_pending := True\<rparr>"
  have u: "unique_on job_id (jobs d)" by (rule store_ok_jobs(1) [OF ok])
  from bind show ?thesis
  proof (cases rule: bind_on_Inr)
    case (bound r)
    then have "r = r0" using unique_onD [OF u] r0 by blast
    then show ?thesis using bound free read_record_Inr(4) [OF r0(3)] by simp
  next
    case (new r k)
    have d1: "d1 = d\<lparr>jobs := put_job (?f r) (jobs d)\<rparr>"
      by (rule update_job_id [OF ok new(1,2), where f = ?f, OF _ new(8)]) (simp add: new(2))
    have "jobs d' = jobs d1" using withinD [OF journal_frame_lease ins] by (simp add: journal_of_def)
    moreover have "set (put_job (?f r) (jobs d)) = insert (?f r) (set (jobs d) - {r})"
      by (rule set_put_job [OF u new(1)]) simp
    ultimately have js: "set (jobs d') = insert (?f r) (set (jobs d) - {r})" by (simp add: d1)
    obtain q where q: "q \<in> set (jobs d')" "job_id q = i" "read_record q = Inr job"
      using got by (elim get_on_Inr) blast
    have "q = ?f r"
    proof (rule ccontr)
      assume "q \<noteq> ?f r"
      then have "q \<in> set (jobs d)" "q \<noteq> r" using q(1) js by auto
      then show False using unique_onD [OF u _ new(1)] q(2) new(2) by metis
    qed
    then have "rec_vm_id job = Some vm" "rec_vm_name job = Some n" "rec_cleanup_pending job"
      using read_record_Inr(4,5,10) [OF q(3)] by simp_all
    then show ?thesis using Inr y got lease new(7) by (auto simp: get_job_def)
  qed
qed

lemma sample_bind:
  "\<exists>job. bind_job_vm_with_lease hd None 50 0 60 7 ''job-60'' (job_db accepted_row []) = (Inr (job, bound_lease), bound_db)"
proof -
  obtain job job' where job: "read_record accepted_row = Inr job" "read_record claimed_row = Inr job'"
    using sample_read(1) by blast
  note rec = read_record_Inr [OF job(1)]
  have got: "get_on 60 (job_db accepted_row []) = (Inr job, job_db accepted_row [])"
    by (rule sample_get [OF job(1)]) (simp_all add: job_db_def sample_row_defs is_tombstone_def)
  have st: "rec_state job = JobAccepted"
    using rec(1) by (simp add: sample_row_defs) (metis job_as_str_iff(1))
  have fields: "rec_vm_id job = None" "rec_vm_name job = None" "\<not> rec_vm_allocation_aborted job"
    "rec_deadline job = timestamp sample_deadline"
    using rec by (simp_all add: sample_row_defs)
  have up: "update_job hd [''vm_id'', ''vm_name'', ''state'', ''cleanup_pending''] (\<lambda>j. job_id j = 60)
       (\<lambda>j. j\<lparr>job_vm_id := Some 7, job_vm_name := Some ''job-60'',
         job_state := (if job_state j = ''accepted'' then ''preparing'' else job_state j),
         job_cleanup_pending := True\<rparr>) (job_db accepted_row []) = (Inr 1, job_db claimed_row [])"
    unfolding update_job_Inr
    by (simp add: job_db_def sample_row_defs update_rows_def count_rows_def job_update_triggers_def
        sets_any_def jobs_constraints_def unique_on_def unique_some_def job_pending_name_def
        job_checks_def too_long_def known_job_states_def known_collections_def)
  have bind: "bind_on hd 0 60 7 ''job-60'' (job_db accepted_row []) = (Inr (), job_db claimed_row [])"
    using got fields st up unfolding bind_on_def
    by (simp add: bind_op_def query_def ok_def timestamp_def sample_deadline_def)
      (simp add: job_db_def sample_row_defs)
  have ins: "insert_host_resource_lease hd None 50 0 ''job-60'' (Some 7) (job_db claimed_row []) = (Inr bound_lease, bound_db)"
    by (simp add: insert_host_resource_lease_def lease_cid_def job_db_def
      op_simps lowest_freed_def traverse_option_def get_u32_def try_u32_def sql_update_next_cid_def
      sql_insert_leases_def leases_constraints_def statement_def unique_on_def observe_on_def Let_def
      bound_lease_def bound_db_def)
  have got': "get_on 60 bound_db = (Inr job', bound_db)"
    by (rule sample_get [OF job(2)]) (simp_all add: bound_db_def job_db_def sample_row_defs is_tombstone_def)
  show ?thesis
    using got fields(1) bind ins got' unfolding bind_job_vm_with_lease_def
    by (simp add: transaction_def bind_op_def map_err_def ok_def)
qed

theorem generation_bound_with_lease_witness:
  "get_host_resource_lease 50 bound_db = (Inr bound_lease, bound_db)
    \<and> (\<exists>job. get_job 60 bound_db = (Inr job, bound_db) \<and> rec_vm_id job = Some 7)"
  using sample_bind generation_bound_with_lease [OF sample_dbs_ok(1), of hd None 50 0 60 7 "''job-60''"]
  by fastforce

subsection \<open>Giving up before the backend is entered\<close>

lemma enter_refused:
  assumes "\<forall>q \<in> set (leases d). lease_id q = l \<longrightarrow> lease_allocation_aborted q"
  shows "enter_host_resource_lease_backend rep current l vm d = (Inl (HostResourceLeaseMismatch l), d)"
proof -
  have "\<not> (\<exists>q \<in> set (leases d). lease_enterable l vm q)" using assms by (auto simp: lease_enterable_def)
  then show ?thesis
    unfolding enter_host_resource_lease_backend_def transaction_def by (simp add: bind_query err_def)
qed

lemma mark_running_refused:
  assumes r: "\<forall>r \<in> set (jobs d). job_id r = i \<longrightarrow> job_vm_allocation_aborted r"
  shows "\<exists>e. mark_job_running rep now i d = (Inl e, d)"
proof -
  let ?P = "\<lambda>j. job_id j = i \<and> job_state j = ''preparing'' \<and> job_vm_id j \<noteq> None
          \<and> \<not> job_vm_destroyed j \<and> \<not> job_vm_allocation_aborted j \<and> job_deadline j > timestamp now"
  have none: "filter ?P (jobs d) = []" using r by (auto simp: filter_empty_conv)
  obtain x d1 where up: "update_job rep [''state''] ?P (\<lambda>j. j\<lparr>job_state := ''running''\<rparr>) d = (x, d1)"
    by fastforce
  show ?thesis
  proof (cases x)
    case (Inl e)
    then show ?thesis using up update_job_Inl by (auto simp: mark_job_running_def bind_op_def)
  next
    case (Inr n)
    then have n: "n = 0" "d1 = d"
      using up none by (auto simp: update_job_Inr count_rows_def update_rows_none)
    obtain y d2 where got: "get_on i d = (y, d2)" by fastforce
    then have d2: "d2 = d" by (rule get_on_state)
    have "rec_vm_allocation_aborted job" if "y = Inr job" for job
      using got that d2 r by (auto elim!: get_on_Inr dest: read_record_Inr(12))
    then show ?thesis
      using up Inr n got d2 by (cases y) (auto simp: mark_job_running_def bind_op_def err_def)
  qed
qed

lemma bind_refused:
  assumes r: "\<forall>r \<in> set (jobs d). job_id r = i \<longrightarrow> job_vm_allocation_aborted r"
  shows "\<exists>e. bind_job_vm rep now i vm n d = (Inl e, d)"
proof -
  obtain y d2 where run: "bind_job_vm rep now i vm n d = (y, d2)" by fastforce
  have "all_or_nothing (bind_job_vm rep now i vm n)"
    unfolding bind_job_vm_def by (rule transaction_all_or_nothing)
  moreover have "\<exists>e. y = Inl e"
  proof (cases y)
    case (Inr job)
    then obtain d1 where "bind_on rep now i vm n d = (Inr (), d1)"
      using run unfolding Inr bind_job_vm_def transaction_Inr by (auto elim: bind_op_Inr)
    then show ?thesis by (cases rule: bind_on_Inr) (use r in auto)
  qed simp
  ultimately show ?thesis using run unfolding all_or_nothing_def by blast
qed

text \<open>
  C11: A pre-backend abort is final. When \<open>record_job_leased_prebackend_abort\<close> succeeds, the
  lease it names belonged to the job's generation and had not been entered; from then on the
  backend cannot be entered under that lease, by any VM and on any boot of the host, and the job can
  neither be marked running nor be bound again. Each such attempt fails and changes nothing.
\<close>

theorem prebackend_abort_final:
  assumes ok: "store_ok d"
    and run: "record_job_leased_prebackend_abort rep hy i vm l d = (Inr (), d')"
  shows "(\<exists>q \<in> set (leases d). lease_id q = l \<and> lease_vm_id q = Some vm \<and> lease_vm_name q = vm_name_of hy i
        \<and> \<not> lease_backend_entered q)
    \<and> enter_host_resource_lease_backend rep' current l vm' d' = (Inl (HostResourceLeaseMismatch l), d')
    \<and> (\<exists>e. mark_job_running rep' now i d' = (Inl e, d'))
    \<and> (\<exists>e. bind_job_vm rep' now i vm' n d' = (Inl e, d'))"
proof -
  let ?P = "\<lambda>q. lease_id q = l \<and> lease_vm_name q = vm_name_of hy i
        \<and> lease_vm_id q = Some vm \<and> \<not> lease_backend_entered q \<and> \<not> lease_vm_destroyed q"
  let ?g = "\<lambda>l. l\<lparr>lease_allocation_aborted := True\<rparr>"
  obtain r d1 k where lease: "sql_update_leases rep [''allocation_aborted''] ?P ?g d = (Inr 1, d1)"
    and up: "update_job rep [''vm_allocation_aborted''] (\<lambda>j. job_id j = i)
      (\<lambda>j. j\<lparr>job_vm_allocation_aborted := True\<rparr>) d1 = (Inr k, d')"
    by (rule prebackend_Inr [OF run])
  have d1: "d1 = d\<lparr>leases := update_rows ?P ?g (leases d)\<rparr>" "count_rows ?P (leases d) = 1"
    using lease by (simp_all add: sql_update_leases_def statement_Inr)
  have d': "d' = d1\<lparr>jobs := update_rows (\<lambda>j. job_id j = i) (\<lambda>j. j\<lparr>job_vm_allocation_aborted := True\<rparr>) (jobs d1)\<rparr>"
    using up by (simp add: update_job_Inr)
  have "0 < count_rows ?P (leases d)" using d1(2) by simp
  then have "\<exists>q \<in> set (leases d). ?P q" by (rule count_rows_pos [THEN iffD1])
  then obtain q where q: "q \<in> set (leases d)" "?P q" by (rule bexE)
  have u: "unique_on lease_id (leases d)" using ok by (simp add: store_ok_def leases_ok_def)
  have "\<forall>p \<in> set (leases d'). lease_id p = l \<longrightarrow> lease_allocation_aborted p"
  proof (intro ballI impI)
    fix p assume p: "p \<in> set (leases d')" and "lease_id p = l"
    have "leases d' = map (\<lambda>q. if ?P q then ?g q else q) (leases d)"
      unfolding d' d1(1) update_rows_def by simp
    with p have "p \<in> (\<lambda>q. if ?P q then ?g q else q) ` set (leases d)" by (simp only: set_map)
    then obtain p0 where p0: "p0 \<in> set (leases d)" "p = (if ?P p0 then ?g p0 else p0)"
      by (rule imageE) simp
    then have "lease_id p0 = l" using \<open>lease_id p = l\<close> by (cases "?P p0") simp_all
    then have "p0 = q" using unique_onD [OF u p0(1) q(1)] q(2) by metis
    then show "lease_allocation_aborted p" using p0(2) q(2) by simp
  qed
  moreover have js: "jobs d' = map (\<lambda>j. if job_id j = i then j\<lparr>job_vm_allocation_aborted := True\<rparr> else j) (jobs d1)"
    unfolding d' update_rows_def by simp
  have "\<forall>j \<in> set (jobs d'). job_id j = i \<longrightarrow> job_vm_allocation_aborted j"
    unfolding js set_map ball_simps by simp
  ultimately show ?thesis
    by (intro conjI enter_refused mark_running_refused bind_refused) (use q in blast)
qed

lemma bound_db_ok: "store_ok bound_db"
proof -
  obtain job where run: "bind_job_vm_with_lease hd None 50 0 60 7 ''job-60'' (job_db accepted_row [])
      = (Inr (job, bound_lease), bound_db)"
    using sample_bind by blast
  then show ?thesis using withinD [OF keeps_job_ownership(5) run] sample_dbs_ok(1) by blast
qed

lemma sample_abort:
  "\<exists>d'. record_job_leased_prebackend_abort hd sample_hyphenated 60 7 50 bound_db = (Inr (), d')"
proof -
  obtain job where job: "read_record claimed_row = Inr job" using sample_read(1) by blast
  note rec = read_record_Inr [OF job]
  have got: "get_on 60 bound_db = (Inr job, bound_db)"
    by (rule sample_get [OF job]) (simp_all add: bound_db_def job_db_def sample_row_defs is_tombstone_def)
  have st: "rec_state job = JobPreparing"
    using rec(1) by (simp add: sample_row_defs) (metis job_as_str_iff(2))
  have fields: "rec_vm_id job = Some 7" "rec_vm_name job = Some (vm_name_of sample_hyphenated 60)"
    "\<not> rec_vm_destroyed job" "rec_cleanup_pending job"
    using rec by (simp_all add: sample_row_defs vm_name_of_def sample_hyphenated_def)
  let ?P = "\<lambda>q. lease_id q = 50 \<and> lease_vm_name q = vm_name_of sample_hyphenated 60
        \<and> lease_vm_id q = Some 7 \<and> \<not> lease_backend_entered q \<and> \<not> lease_vm_destroyed q"
  let ?d1 = "bound_db\<lparr>leases := [(lease_to_row bound_lease)\<lparr>lease_allocation_aborted := True\<rparr>]\<rparr>"
  have free: "vms bound_db = []" "leases bound_db = [lease_to_row bound_lease]"
      "lease_id (lease_to_row bound_lease) = 50"
    by (simp_all add: bound_db_def job_db_def bound_lease_def lease_to_row_def)
  have lease: "sql_update_leases hd [''allocation_aborted''] ?P (\<lambda>l. l\<lparr>lease_allocation_aborted := True\<rparr>) bound_db
      = (Inr 1, ?d1)"
    by (simp add: sql_update_leases_def statement_def bound_db_def bound_lease_def lease_to_row_def
        vm_name_of_def sample_hyphenated_def update_rows_def count_rows_def lease_update_triggers_def
        lease_identity_violation_def lease_plan_violation_def sets_any_def leases_constraints_def unique_on_def)
  have "\<exists>k d'. update_job hd [''vm_allocation_aborted''] (\<lambda>j. job_id j = 60)
      (\<lambda>j. j\<lparr>job_vm_allocation_aborted := True\<rparr>) ?d1 = (Inr k, d')"
    unfolding update_job_Inr
    by (simp add: bound_db_def job_db_def sample_row_defs update_rows_def job_update_triggers_def
        sets_any_def jobs_constraints_def unique_on_def unique_some_def
        job_checks_def too_long_def known_job_states_def known_collections_def)
  then obtain k d' where up: "update_job hd [''vm_allocation_aborted''] (\<lambda>j. job_id j = 60)
      (\<lambda>j. j\<lparr>job_vm_allocation_aborted := True\<rparr>) ?d1 = (Inr k, d')" by blast
  have "record_job_leased_prebackend_abort hd sample_hyphenated 60 7 50 bound_db = (Inr (), d')"
    using got fields st free lease up unfolding record_job_leased_prebackend_abort_def
    by (simp add: transaction_def bind_op_def query_def Let_def jdb_op_def map_err_def ok_def)
  then show ?thesis by blast
qed

theorem prebackend_abort_final_witness:
  "\<exists>d'. record_job_leased_prebackend_abort hd sample_hyphenated 60 7 50 bound_db = (Inr (), d')
    \<and> enter_host_resource_lease_backend hd None 50 7 d' = (Inl (HostResourceLeaseMismatch 50), d')"
  using sample_abort prebackend_abort_final [OF bound_db_ok] by blast

subsection \<open>Retention\<close>

lemma tombstone_fields [simp]:
  "job_id (tombstone r) = job_id r" "job_submission_key (tombstone r) = job_submission_key r"
  "job_session_id (tombstone r) = job_session_id r" "job_vm_id (tombstone r) = job_vm_id r"
  "job_pending_name (tombstone r) = job_pending_name r" "is_tombstone (tombstone r)"
  "\<not> ended_row (tombstone r)"
  by (simp_all add: tombstone_def job_pending_name_def is_tombstone_def ended_row_def)

lemma tombstone_checks: "raised (job_checks r) = [] \<Longrightarrow> raised (job_checks (tombstone r)) = []"
  by (auto simp: job_checks_def tombstone_def known_job_states_def too_long_def split: if_splits)

definition buried :: "Uuid set \<Rightarrow> db \<Rightarrow> db" where
  "buried ids d = d\<lparr>jobs := update_rows (\<lambda>j. job_id j \<in> ids) tombstone (jobs d),
     job_events := delete_rows (\<lambda>e. ev_job_id e \<in> ids) (job_events d),
     job_artifacts := delete_rows (\<lambda>a. art_job_id a \<in> ids) (job_artifacts d)\<rparr>"

lemma buried_empty: "buried {} d = d"
  by (simp add: buried_def update_rows_def delete_rows_def)

lemma delete_rows_twice:
  "delete_rows (\<lambda>x. f x \<in> A) (delete_rows (\<lambda>x. f x \<in> B) xs) = delete_rows (\<lambda>x. f x \<in> A \<or> f x \<in> B) xs"
  unfolding delete_rows_def filter_filter by (rule filter_cong) auto

lemma buried_again: "buried A (buried B d) = buried (A \<union> B) d"
proof -
  have "tombstone (tombstone x) = tombstone x" for x by (simp add: tombstone_def)
  then have "update_rows (\<lambda>j. job_id j \<in> A) tombstone (update_rows (\<lambda>j. job_id j \<in> B) tombstone js)
      = update_rows (\<lambda>j. job_id j \<in> A \<union> B) tombstone js" for js
    unfolding update_rows_def map_map by (intro map_cong) auto
  then show ?thesis unfolding buried_def by (simp add: delete_rows_twice)
qed

lemma delete_evidence_succeeds:
  assumes ok: "store_ok d" and inv: "journal_inv (journal_of d)"
    and r: "r \<in> set (jobs d)" "ended_row r" "\<not> job_cleanup_pending r"
  shows "delete_job_evidence rep (job_id r) d = (Inr (), buried {job_id r} d)"
proof -
  have alive: "\<not> is_tombstone r" using r(2) by (simp add: ended_row_def is_tombstone_def)
  obtain job where job: "read_record r = Inr job" by (rule job_readable [OF ok inv r(1) alive])
  have got: "get_on (job_id r) d = (Inr job, d)" using get_on_found [OF ok r(1) alive] job by simp
  note rec = read_record_Inr [OF job]
  have t: "terminal (rec_state job)" "\<not> rec_cleanup_pending job"
    using rec(1,10) r(2,3) terminal_as_str [of "rec_state job"] by (auto simp: ended_row_def)
  let ?cols = "[''state'', ''specification'', ''manifest'', ''capture_cursor'', ''retained_bytes'']"
  let ?P = "\<lambda>j. job_id j = job_id r"
  let ?d1 = "d\<lparr>job_artifacts := delete_rows (\<lambda>a. art_job_id a = job_id r) (job_artifacts d),
     job_events := delete_rows (\<lambda>e. ev_job_id e = job_id r) (job_events d)\<rparr>"
  have u: "unique_on job_id (jobs d)" "unique_on job_submission_key (jobs d)" "unique_on job_session_id (jobs d)"
    "unique_some job_vm_id (jobs d)" "unique_some job_pending_name (jobs d)"
    using ok by (simp_all add: store_ok_def journal_ok_def)
  have "raised (job_update_triggers ?cols j (tombstone j)) = []" for j
    by (simp add: job_update_triggers_def sets_any_def tombstone_def)
  then have 1: "raised (concat (map (\<lambda>j. job_update_triggers ?cols j (tombstone j)) (filter ?P (jobs d)))) = []"
    unfolding raised_concat by auto
  have 2: "raised (jobs_constraints (update_rows ?P tombstone (jobs d))) = []"
    unfolding raised_jobs_constraints
    using u store_ok_jobs(3) [OF ok] tombstone_checks
    by (auto simp: unique_on_update unique_some_update set_update_rows)
  have "update_job rep ?cols ?P tombstone ?d1 = (Inr (count_rows ?P (jobs d)), ?d1\<lparr>jobs := update_rows ?P tombstone (jobs d)\<rparr>)"
    unfolding update_job_Inr using 1 2 by simp
  then show ?thesis
    using got t unfolding delete_job_evidence_def tombstone_def [symmetric, abs_def] transaction_def
    by (simp add: op_simps jdb_op_def sql_delete_job_artifacts_def sql_delete_job_events_def buried_def)
qed

lemma expire_each:
  assumes "store_ok d" "journal_inv (journal_of d)" "distinct ids"
    "\<And>i. i \<in> set ids \<Longrightarrow> \<exists>r \<in> set (jobs d). job_id r = i \<and> ended_row r \<and> \<not> job_cleanup_pending r"
  shows "for_each (delete_job_evidence rep) ids d = (Inr (), buried (set ids) d)"
  using assms
proof (induction ids arbitrary: d)
  case Nil
  then show ?case by (simp add: ok_def buried_empty)
next
  case (Cons i ids)
  obtain r where r: "r \<in> set (jobs d)" "job_id r = i" "ended_row r" "\<not> job_cleanup_pending r"
    using Cons.prems(4) [of i] by auto
  have del: "delete_job_evidence rep i d = (Inr (), buried {i} d)"
    using delete_evidence_succeeds [OF Cons.prems(1,2) r(1,3,4)] r(2) by simp
  have "store_ok (buried {i} d)" using withinD [OF keeps_job_cleanup(5) del] Cons.prems(1) by blast
  moreover have "journal_inv (journal_of (buried {i} d))"
    using journal_steps [OF job_refinesD [OF delete_evidence_refines del Cons.prems(1)] Cons.prems(2)] by blast
  moreover have "\<exists>r \<in> set (jobs (buried {i} d)). job_id r = k \<and> ended_row r \<and> \<not> job_cleanup_pending r"
    if k: "k \<in> set ids" for k
  proof -
    obtain q where q: "q \<in> set (jobs d)" "job_id q = k" "ended_row q" "\<not> job_cleanup_pending q"
      using Cons.prems(4) [of k] k by auto
    have "k \<noteq> i" using Cons.prems(3) k by auto
    then have "q \<in> set (jobs (buried {i} d))"
      using q(1,2) by (auto simp: buried_def set_update_rows)
    then show ?thesis using q by blast
  qed
  ultimately have "for_each (delete_job_evidence rep) ids (buried {i} d) = (Inr (), buried (set ids) (buried {i} d))"
    using Cons.prems(3) by (intro Cons.IH) auto
  then show ?case using del by (simp add: bind_op_def buried_again)
qed



end
