(* ===== verification/Agent_Protocol.thy ===== *)
theory Agent_Protocol
  imports Husker_Prelude
begin

text \<open>
  The wire format between host and guest agent (\<open>crates/husker-agent-proto/src/lib.rs\<close>): the
  base64 coding of binary payloads and the length-prefixed frames. \<open>to_vec\<close> and \<open>from_slice\<close>
  are those of \<open>serde_json\<close>.

  A stream is what its peer has sent so far and what happens after that: the peer closes the
  connection, the connection breaks, or nothing more arrives. A call that waits for
  bytes that never arrive does not return; its result is then \<open>None\<close>.
\<close>

unbundle bit_operations_syntax

subsection \<open>Base64\<close>

definition B64_CHARS :: string where
  "B64_CHARS = ''ABCDEFGHIJKLMNOPQRSTUVWXYZabcdefghijklmnopqrstuvwxyz0123456789+/''"

definition b64_char :: "8 word \<Rightarrow> char" where
  "b64_char w = B64_CHARS ! unat w"

fun base64_encode :: "bytes \<Rightarrow> string" where
  "base64_encode (a # b # c # data) =
     b64_char (drop_bit 2 a) # b64_char (push_bit 4 (a AND 0x03) OR drop_bit 4 b)
     # b64_char (push_bit 2 (b AND 0x0f) OR drop_bit 6 c) # b64_char (c AND 0x3f)
     # base64_encode data"
| "base64_encode [a, b] =
     [b64_char (drop_bit 2 a), b64_char (push_bit 4 (a AND 0x03) OR drop_bit 4 b),
      b64_char (push_bit 2 (b AND 0x0f)), CHR ''='']"
| "base64_encode [a] =
     [b64_char (drop_bit 2 a), b64_char (push_bit 4 (a AND 0x03)), CHR ''='', CHR ''='']"
| "base64_encode [] = []"

text \<open>The two messages of \<open>base64_decode\<close>.\<close>

datatype Base64Error = InvalidCharacter "8 word" | InvalidLength

definition decode_char :: "char \<Rightarrow> Base64Error + 8 word" where
  "decode_char ch =
     (let c = of_char ch in
      if of_char (CHR ''A'') \<le> c \<and> c \<le> of_char (CHR ''Z'') then Inr (c - of_char (CHR ''A''))
      else if of_char (CHR ''a'') \<le> c \<and> c \<le> of_char (CHR ''z'') then Inr (c - of_char (CHR ''a'') + 26)
      else if of_char (CHR ''0'') \<le> c \<and> c \<le> of_char (CHR ''9'') then Inr (c - of_char (CHR ''0'') + 52)
      else if c = of_char (CHR ''+'') then Inr 62
      else if c = of_char (CHR ''/'') then Inr 63
      else if c = of_char (CHR ''='') then Inr 0
      else Inl (InvalidCharacter c))"

fun base64_decode :: "string \<Rightarrow> Base64Error + bytes" where
  "base64_decode [] = Inr []"
| "base64_decode (c0 # c1 # c2 # c3 # input) =
     and_then (decode_char c0) (\<lambda>a.
     and_then (decode_char c1) (\<lambda>b.
     and_then (decode_char c2) (\<lambda>c.
     and_then (decode_char c3) (\<lambda>d.
     and_then (base64_decode input) (\<lambda>rest.
     Inr ([push_bit 2 a OR drop_bit 4 b]
        @ (if c2 \<noteq> CHR ''='' then [push_bit 4 b OR drop_bit 2 c] else [])
        @ (if c3 \<noteq> CHR ''='' then [push_bit 6 c OR d] else [])
        @ rest))))))"
| "base64_decode _ = Inl InvalidLength"

lemma b64_chars:
  "list_all (\<lambda>i. decode_char (B64_CHARS ! i) = Inr (of_nat i) \<and> B64_CHARS ! i \<noteq> CHR ''='') [0..<64]"
  by code_simp

lemma b64_char:
  assumes "w < 64"
  shows "decode_char (b64_char w) = Inr w" "b64_char w \<noteq> CHR ''=''"
proof -
  have "unat w < 64" using assms by (simp add: word_less_nat_alt)
  then show "decode_char (b64_char w) = Inr w" "b64_char w \<noteq> CHR ''=''"
    using b64_chars by (auto simp: b64_char_def list_all_iff)
qed

lemma decode_padding: "decode_char (CHR ''='') = Inr 0"
  by code_simp

text \<open>The four 6-bit groups of three bytes, and the bytes back from them.\<close>

lemma masks:
  fixes a :: "8 word"
  shows "a AND 0x03 = take_bit 2 a" "a AND 0x0f = take_bit 4 a" "a AND 0x3f = take_bit 6 a"
  by (simp_all add: take_bit_eq_mask mask_eq_exp_minus_1)

lemma bit_high:
  fixes w :: "8 word"
  shows "8 \<le> n \<Longrightarrow> \<not> bit w n"
  using bit_imp_le_length [of w n] by auto

lemma less_64:
  fixes w :: "8 word"
  assumes "\<And>n. 6 \<le> n \<Longrightarrow> \<not> bit w n"
  shows "w < 64"
proof -
  have "w = take_bit 6 w" using assms by (intro bit_word_eqI) (auto simp: bit_simps; meson not_less)
  then have "unat w = take_bit 6 (unat w)" by (metis unsigned_take_bit_eq)
  then have "unat w < 2 ^ 6" by (metis take_bit_nat_less_exp)
  then show ?thesis by (simp add: word_less_nat_alt)
qed

lemma sextets:
  fixes a b c :: "8 word"
  shows "drop_bit 2 a < 64" "push_bit 4 (take_bit 2 a) OR drop_bit 4 b < 64"
    "push_bit 2 (take_bit 4 b) OR drop_bit 6 c < 64" "take_bit 6 c < 64"
    "push_bit 4 (take_bit 2 a) < 64" "push_bit 2 (take_bit 4 b) < 64"
  by (rule less_64, auto simp: bit_simps bit_high)+

lemma plus_minus:
  "Suc (Suc (n - 2)) = (if n < 2 then 2 else n)" "k + (n - k) = (if n < k then k else n)"
  for n k :: nat
  by auto

lemma bytes_of_sextets:
  fixes a b c :: "8 word"
  shows "push_bit 2 (drop_bit 2 a) OR drop_bit 4 (push_bit 4 (take_bit 2 a) OR drop_bit 4 b) = a"
    "push_bit 4 (push_bit 4 (take_bit 2 a) OR drop_bit 4 b)
      OR drop_bit 2 (push_bit 2 (take_bit 4 b) OR drop_bit 6 c) = b"
    "push_bit 6 (push_bit 2 (take_bit 4 b) OR drop_bit 6 c) OR take_bit 6 c = c"
    "push_bit 2 (drop_bit 2 a) OR drop_bit 4 (push_bit 4 (take_bit 2 a)) = a"
    "push_bit 4 (push_bit 4 (take_bit 2 a) OR drop_bit 4 b) OR drop_bit 2 (push_bit 2 (take_bit 4 b)) = b"
  by (rule bit_word_eqI, auto simp: bit_simps bit_high not_le plus_minus split: if_splits)+

lemma base64_decode_encode: "base64_decode (base64_encode bs) = Inr bs"
proof -
  note facts = masks b64_char sextets decode_padding bytes_of_sextets
  show ?thesis by (induction bs rule: base64_encode.induct) (simp_all only: base64_encode.simps base64_decode.simps facts and_then_simps append.simps simp_thms if_True if_False not_False_eq_True)
qed

lemma base64_encode_length: "length (base64_encode bs) = (length bs + 2) div 3 * 4"
proof (induction bs rule: base64_encode.induct)
  case (1 a b c data)
  have "(length (a # b # c # data) + 2) div 3 = Suc ((length data + 2) div 3)" by simp
  then show ?case using 1 by (simp only: base64_encode.simps list.size mult_Suc)
qed simp_all

subsection \<open>Frames\<close>

datatype io_error = UnexpectedEof | OtherIo

datatype ProtocolError = MessageTooLarge nat | ReadTimeout nat nat | Json | Io io_error

definition MAX_MESSAGE_SIZE :: nat where
  "MAX_MESSAGE_SIZE = 16 * 1024 * 1024"

definition PAYLOAD_READ_CHUNK :: nat where
  "PAYLOAD_READ_CHUNK = 65536"

definition to_be_bytes :: "u32 \<Rightarrow> bytes" where
  "to_be_bytes w = [ucast (drop_bit 24 w), ucast (drop_bit 16 w), ucast (drop_bit 8 w), ucast w]"

fun from_be_bytes :: "bytes \<Rightarrow> u32" where
  "from_be_bytes [a, b, c, d] =
     push_bit 24 (ucast a) OR push_bit 16 (ucast b) OR push_bit 8 (ucast c) OR ucast d"
| "from_be_bytes _ = 0"

definition encode_message :: "('m \<Rightarrow> bytes option) \<Rightarrow> 'm \<Rightarrow> ProtocolError + bytes" where
  "encode_message to_vec msg =
     and_then (ok_or Json (to_vec msg)) (\<lambda>json.
     if length json > MAX_MESSAGE_SIZE then Inl (MessageTooLarge (length json))
     else Inr (to_be_bytes (of_nat (length json)) @ json))"

definition decode_message ::
  "(bytes \<Rightarrow> 'm option) \<Rightarrow> bytes \<Rightarrow> ProtocolError + ('m \<times> nat) option" where
  "decode_message from_slice buf =
     (if length buf < 4 then Inr None
      else
        let len = unat (from_be_bytes (take 4 buf)) in
        if len > MAX_MESSAGE_SIZE then Inl (MessageTooLarge len)
        else if length buf < 4 + len then Inr None
        else and_then (ok_or Json (from_slice (take len (drop 4 buf)))) (\<lambda>msg. Inr (Some (msg, 4 + len))))"

datatype wire_end = Closed | Broken | Silent

record wire =
  wire_bytes :: bytes
  wire_end :: wire_end

text \<open>\<open>AsyncReadExt::read_exact\<close>.\<close>

definition read_exact :: "nat \<Rightarrow> wire \<Rightarrow> (io_error + bytes) option \<times> wire" where
  "read_exact n w =
     (if n \<le> length (wire_bytes w)
      then (Some (Inr (take n (wire_bytes w))), w\<lparr>wire_bytes := drop n (wire_bytes w)\<rparr>)
      else (case wire_end w of Closed \<Rightarrow> Some (Inl UnexpectedEof) | Broken \<Rightarrow> Some (Inl OtherIo)
              | Silent \<Rightarrow> None, w\<lparr>wire_bytes := []\<rparr>))"

text \<open>The loop of \<open>read_exact_chunked\<close>, with the payload read so far.\<close>

function read_exact_chunked :: "bytes \<Rightarrow> nat \<Rightarrow> wire \<Rightarrow> (io_error + bytes) option \<times> wire" where
  "read_exact_chunked payload remaining w =
     (if remaining = 0 then (Some (Inr payload), w)
      else
        let this_chunk = min remaining PAYLOAD_READ_CHUNK in
        case read_exact this_chunk w of
          (Some (Inr chunk), w') \<Rightarrow> read_exact_chunked (payload @ chunk) (remaining - this_chunk) w'
        | (r, w') \<Rightarrow> (r, w'))"
  by pat_completeness auto
termination
  by (relation "measure (\<lambda>(payload, remaining, w). remaining)") (auto simp: PAYLOAD_READ_CHUNK_def)

declare read_exact_chunked.simps [simp del]

definition read_message_with_timeout ::
  "(bytes \<Rightarrow> 'm option) \<Rightarrow> nat \<Rightarrow> wire \<Rightarrow> (ProtocolError + 'm option) option \<times> wire" where
  "read_message_with_timeout from_slice payload_timeout w =
     (case read_exact 4 w of
        (None, w) \<Rightarrow> (None, w)
      | (Some (Inl UnexpectedEof), w) \<Rightarrow> (Some (Inr None), w)
      | (Some (Inl e), w) \<Rightarrow> (Some (Inl (Io e)), w)
      | (Some (Inr len_buf), w) \<Rightarrow>
          let len = unat (from_be_bytes len_buf) in
          if len > MAX_MESSAGE_SIZE then (Some (Inl (MessageTooLarge len)), w)
          else case read_exact_chunked [] len w of
            (None, w) \<Rightarrow> (Some (Inl (ReadTimeout len payload_timeout)), w)
          | (Some (Inl e), w) \<Rightarrow> (Some (Inl (Io e)), w)
          | (Some (Inr payload), w) \<Rightarrow>
              (Some (and_then (ok_or Json (from_slice payload)) (\<lambda>msg. Inr (Some msg))), w))"

text \<open>A stream to write to, with the number of bytes it takes before it breaks, if it does.\<close>

record sink =
  sink_bytes :: bytes
  sink_room :: "nat option"

definition write_all :: "bytes \<Rightarrow> (sink, ProtocolError, unit) op" where
  "write_all bs s =
     (case sink_room s of
        None \<Rightarrow> (Inr (), s\<lparr>sink_bytes := sink_bytes s @ bs\<rparr>)
      | Some n \<Rightarrow>
          if length bs \<le> n
          then (Inr (), s\<lparr>sink_bytes := sink_bytes s @ bs, sink_room := Some (n - length bs)\<rparr>)
          else (Inl (Io OtherIo), s\<lparr>sink_bytes := sink_bytes s @ take n bs, sink_room := Some 0\<rparr>))"

definition write_message :: "('m \<Rightarrow> bytes option) \<Rightarrow> 'm \<Rightarrow> (sink, ProtocolError, unit) op" where
  "write_message to_vec msg =
     bind_op (lift_result (ok_or Json (to_vec msg))) (\<lambda>json.
     if length json > MAX_MESSAGE_SIZE then err (MessageTooLarge (length json))
     else
       bind_op (write_all (to_be_bytes (of_nat (length json)))) (\<lambda>_.
       write_all json))"

subsection \<open>Reading in chunks is reading at once\<close>

lemma read_exact_split:
  assumes "m \<le> n"
  shows "read_exact n w = (case read_exact m w of
      (Some (Inr bs), w') \<Rightarrow>
        (case read_exact (n - m) w' of
          (Some (Inr cs), w'') \<Rightarrow> (Some (Inr (bs @ cs)), w'') | r \<Rightarrow> r)
    | r \<Rightarrow> r)"
proof (cases "n \<le> length (wire_bytes w)")
  case True
  then have "take n (wire_bytes w) = take m (wire_bytes w) @ take (n - m) (drop m (wire_bytes w))"
    using assms by (metis le_add_diff_inverse take_add)
  then show ?thesis using True assms by (simp add: read_exact_def le_diff_conv)
next
  case False
  then show ?thesis using assms by (auto simp: read_exact_def split: wire_end.splits)
qed

lemma read_exact_chunked_eq:
  "read_exact_chunked payload n w =
    (case read_exact n w of (Some (Inr bs), w') \<Rightarrow> (Some (Inr (payload @ bs)), w') | r \<Rightarrow> r)"
proof (induction payload n w rule: read_exact_chunked.induct)
  case (1 payload n w)
  show ?case
  proof (cases "n = 0")
    case True
    then show ?thesis by (simp add: read_exact_chunked.simps read_exact_def)
  next
    case False
    let ?c = "min n PAYLOAD_READ_CHUNK"
    obtain r w' where r: "read_exact ?c w = (r, w')" by fastforce
    show ?thesis
    proof (cases "\<exists>bs. r = Some (Inr bs)")
      case True
      then obtain bs where bs: "r = Some (Inr bs)" ..
      show ?thesis
        using 1 [OF False refl r [symmetric] bs refl] False r bs read_exact_split [of ?c n w]
        by (simp add: read_exact_chunked.simps [of payload n] Let_def split: option.splits sum.splits prod.splits)
    next
      case noread: False
      then have "read_exact n w = (r, w')"
        using read_exact_split [of ?c n w] r by (auto split: option.splits sum.splits)
      then show ?thesis using False r noread
        by (auto simp: read_exact_chunked.simps [of payload n] Let_def split: option.splits sum.splits)
    qed
  qed
qed

lemma read_exact_chunked_Nil: "read_exact_chunked [] n w = read_exact n w"
  by (cases "read_exact n w") (auto simp: read_exact_chunked_eq split: option.splits sum.splits)

subsection \<open>Frames and streams\<close>

lemma be_bytes: "from_be_bytes (to_be_bytes w) = w"
  unfolding to_be_bytes_def from_be_bytes.simps
  by (rule bit_word_eqI) (auto simp: bit_simps plus_minus split: if_splits)

lemma length_be_bytes [simp]: "length (to_be_bytes w) = 4"
  by (simp add: to_be_bytes_def)

lemma frame_length:
  "n \<le> MAX_MESSAGE_SIZE \<Longrightarrow> unat (from_be_bytes (to_be_bytes (of_nat n))) = n"
  by (simp add: be_bytes unat_of_nat MAX_MESSAGE_SIZE_def)

lemma encode_message_Inr:
  assumes "encode_message to_vec m = Inr frame"
  obtains json where "to_vec m = Some json" "length json \<le> MAX_MESSAGE_SIZE"
    "frame = to_be_bytes (of_nat (length json)) @ json"
  using assms by (auto simp: encode_message_def and_then_Inr ok_or_Inr split: if_splits)

lemma write_message_Inr:
  assumes "write_message to_vec m s = (Inr (), s')"
  obtains frame where "encode_message to_vec m = Inr frame" "sink_bytes s' = sink_bytes s @ frame"
  using assms
  by (cases "to_vec m")
    (auto simp: write_message_def write_all_def encode_message_def op_simps split: if_splits option.splits)

lemma read_message_frame:
  assumes "encode_message to_vec m = Inr frame" "\<And>j. to_vec m = Some j \<Longrightarrow> from_slice j = Some m"
    "wire_bytes w = frame @ rest"
  shows "read_message_with_timeout from_slice t w = (Some (Inr (Some m)), w\<lparr>wire_bytes := rest\<rparr>)"
  using assms(1)
proof (rule encode_message_Inr)
  fix json assume json: "to_vec m = Some json" "length json \<le> MAX_MESSAGE_SIZE"
    "frame = to_be_bytes (of_nat (length json)) @ json"
  then show ?thesis
    using assms(2) [OF json(1)] assms(3)
    by (simp add: read_message_with_timeout_def read_exact_def read_exact_chunked_Nil frame_length)
qed

text \<open>Writing a list of messages, and reading a number of them.\<close>

definition write_messages :: "('m \<Rightarrow> bytes option) \<Rightarrow> 'm list \<Rightarrow> (sink, ProtocolError, unit) op" where
  "write_messages to_vec ms = for_each (write_message to_vec) ms"

fun read_messages ::
  "(bytes \<Rightarrow> 'm option) \<Rightarrow> nat \<Rightarrow> nat \<Rightarrow> wire \<Rightarrow> (ProtocolError + 'm list) option \<times> wire" where
  "read_messages from_slice t 0 w = (Some (Inr []), w)"
| "read_messages from_slice t (Suc n) w =
     (case read_message_with_timeout from_slice t w of
        (Some (Inr (Some m)), w) \<Rightarrow>
          (case read_messages from_slice t n w of (Some (Inr ms), w) \<Rightarrow> (Some (Inr (m # ms)), w) | r \<Rightarrow> r)
      | (Some (Inr None), w) \<Rightarrow> (Some (Inr []), w)
      | (Some (Inl e), w) \<Rightarrow> (Some (Inl e), w)
      | (None, w) \<Rightarrow> (None, w))"

text \<open>
  C17: Binary data survives the text encoding of the protocol. Decoding what \<open>base64_encode\<close> produced
  gives the original bytes, for every length and every byte, and the encoding of \<open>n\<close> bytes has
  four characters for every group of three bytes begun.
\<close>

theorem base64_roundtrip:
  "base64_decode (base64_encode bs) = Inr bs \<and> length (base64_encode bs) = (length bs + 2) div 3 * 4"
  by (simp add: base64_decode_encode base64_encode_length)


text \<open>
  C15: Messages arrive as they were sent. When a sequence of messages was written to a connection,
  reading that many messages from its other end yields them in order, each once, and leaves
  exactly the bytes that follow, whatever these are and however the connection ends, provided
  that the JSON library decodes what it encoded.
\<close>

theorem messages_roundtrip:
  assumes law: "\<And>m json. to_vec m = Some json \<Longrightarrow> from_slice json = Some m"
    and sent: "write_messages to_vec ms s = (Inr (), s')" and start: "sink_bytes s = []"
  shows "read_messages from_slice t (length ms) \<lparr>wire_bytes = sink_bytes s' @ rest, wire_end = e\<rparr>
    = (Some (Inr ms), \<lparr>wire_bytes = rest, wire_end = e\<rparr>)"
proof -
  have "\<exists>frames. sink_bytes s' = sink_bytes s @ frames \<and>
    read_messages from_slice t (length ms) \<lparr>wire_bytes = frames @ rest, wire_end = e\<rparr>
      = (Some (Inr ms), \<lparr>wire_bytes = rest, wire_end = e\<rparr>)"
    using sent unfolding write_messages_def
  proof (induction ms arbitrary: s)
    case Nil
    then show ?case by (simp add: op_simps)
  next
    case (Cons m ms)
    obtain s1 where s1: "write_message to_vec m s = (Inr (), s1)" "for_each (write_message to_vec) ms s1 = (Inr (), s')"
      using Cons.prems by (auto simp: op_simps split: prod.splits sum.splits)
    obtain frame where frame: "encode_message to_vec m = Inr frame" "sink_bytes s1 = sink_bytes s @ frame"
      by (rule write_message_Inr [OF s1(1)])
    obtain frames where frames: "sink_bytes s' = sink_bytes s1 @ frames"
      "read_messages from_slice t (length ms) \<lparr>wire_bytes = frames @ rest, wire_end = e\<rparr>
        = (Some (Inr ms), \<lparr>wire_bytes = rest, wire_end = e\<rparr>)"
      using Cons.IH [OF s1(2)] by blast
    have "read_message_with_timeout from_slice t \<lparr>wire_bytes = frame @ frames @ rest, wire_end = e\<rparr>
        = (Some (Inr (Some m)), \<lparr>wire_bytes = frames @ rest, wire_end = e\<rparr>)"
      by (subst read_message_frame [OF frame(1) law, where rest = "frames @ rest"]) simp_all
    then show ?case using frame frames by (intro exI [of _ "frame @ frames"]) simp
  qed
  then show ?thesis using start by auto
qed

theorem messages_roundtrip_witness:
  "read_messages Some 30 2 \<lparr>wire_bytes = [0, 0, 0, 1, 7, 0, 0, 0, 2, 8, 9, 5], wire_end = Silent\<rparr>
    = (Some (Inr [[7], [8, 9]]), \<lparr>wire_bytes = [5], wire_end = Silent\<rparr>)"
proof -
  have "write_messages Some [[7], [8, 9]] \<lparr>sink_bytes = [], sink_room = None\<rparr>
      = (Inr (), \<lparr>sink_bytes = [0, 0, 0, 1, 7, 0, 0, 0, 2, 8, 9], sink_room = None\<rparr>)"
    by (simp add: write_messages_def write_message_def write_all_def op_simps MAX_MESSAGE_SIZE_def to_be_bytes_def)
  from messages_roundtrip [OF _ this, of Some 30 "[5]" Silent] show ?thesis
    by (simp add: numeral_2_eq_2)
qed

end
