(* ===== verification/Agent_Client.thy ===== *)
theory Agent_Client
  imports Agent_Protocol
begin

text \<open>
  The host's side of a connection to a guest agent: the messages
  (\<open>crates/husker-agent-proto/src/lib.rs\<close>, \<open>sessions.rs\<close>) and the typed calls of
  \<open>crates/husker-core/src/agent_client.rs\<close>.

  The guest is not trusted: the connection is any \<open>'c transport\<close>, a state with a way to send a
  request and to wait for a response, and everything the other end may do is in it. While a
  call waits, a timer may fire: the inner one is the ten seconds of \<open>session_request\<close>, the
  outer one the timeout of the caller, which drops the call at that point. A timer that
  is not set does not fire, so outside \<open>session_request\<close> the two are not told apart.
\<close>

subsection \<open>Messages\<close>

datatype SessionState =
  SessionRunning | SessionCompleted | SessionCancelled | SessionTimedOut | SessionInterrupted

record SessionInfo =
  session_id :: string
  session_command :: string
  session_state :: SessionState
  session_created_at :: u64
  session_finished_at :: "u64 option"
  session_exit_code :: "int option"
  session_output_truncated :: bool

record SessionEvent =
  sevent_sequence :: nat
  sevent_stream :: string
  sevent_data :: string

record SessionEventsResponse =
  sevents_session :: SessionInfo
  sevents_events :: "SessionEvent list"
  sevents_next_cursor :: nat
  sevents_has_more :: bool

record ExecRequest =
  exec_command :: string
  exec_args :: "string list"
  exec_working_dir :: "string option"
  exec_env :: "(string \<times> string) list"
  exec_timeout_secs :: "u64 option"

record SessionStartRequest =
  start_id :: string
  start_exec :: ExecRequest

record RestoreGuestRequest =
  restore_unix_time_secs :: int
  restore_unix_time_nanos :: u32
  restore_require_vmgenid :: bool

record ReadFileRequest =
  read_path :: string
  read_offset :: nat
  read_len :: "nat option"

record ReadFileResponse =
  file_data :: string
  file_size :: u64
  file_total_size :: "u64 option"
  file_modified_nanos :: "u64 option"

record WriteFileRequest =
  write_path :: string
  write_data :: string
  write_mode :: "u32 option"
  write_append :: bool

record ReconfigureNetworkRequest =
  net_interface :: string
  net_ipv4 :: string
  net_prefix_len :: "8 word"
  net_gateway :: string
  net_mac :: "string option"
  net_dns :: "string list"

record ShellStartRequest =
  shell_command :: "string option"
  shell_env :: "(string \<times> string) list"
  shell_cols :: u16
  shell_rows :: u16

datatype GuestPowerAction = Flush | Reboot | PowerOff

datatype AgentRequest =
    ReqSessionStart SessionStartRequest | ReqSessionStartReplay SessionStartRequest
  | ReqSessionGet string | ReqSessionList | ReqSessionEvents string nat | ReqSessionCancel string
  | ReqSessionRemove string | ReqTunnel u16 | ReqRestoreGuest RestoreGuestRequest
  | ReqExec ExecRequest | ReqExecStream ExecRequest | ReqReadFile ReadFileRequest
  | ReqWriteFile WriteFileRequest | ReqPing | ReqGuestInfo | ReqShellStart ShellStartRequest
  | ReqShellData string | ReqShellResize u16 u16 | ReqReconfigureNetwork ReconfigureNetworkRequest
  | ReqShutdown GuestPowerAction

record ExecResponse =
  exec_exit_code :: int
  exec_stdout :: string
  exec_stderr :: string

datatype AgentErrorCode =
    InvalidSessionId | SessionNotFound | TooManyRunningSessions | SessionRetentionLimit
  | SessionIsRunning | SessionIdExists | SessionReplayConflict | TunnelConnectFailed
  | UnsupportedRequest | UnknownCode

record ErrorResponse =
  error_message :: string
  error_code :: "AgentErrorCode option"

record GuestInfoResponse =
  guest_ipv4 :: "string list"
  guest_protocol_version :: u32

record ReconfigureNetworkResponse =
  applied_interface :: string
  applied_ipv4 :: string

datatype AgentResponse =
    RespSession SessionInfo | RespSessions "SessionInfo list" | RespSessionEvents SessionEventsResponse
  | RespSessionRemoved | RespTunnelReady | RespGuestRestored | RespExec ExecResponse
  | RespExecStarted | RespExecStdout string | RespExecStderr string | RespExecExit int
  | RespReadFile ReadFileResponse | RespWriteFile u64 | RespPong | RespError ErrorResponse
  | RespGuestInfo GuestInfoResponse | RespShellStarted | RespShellData string | RespShellExit int
  | RespReconfigureNetwork ReconfigureNetworkResponse | RespShuttingDown GuestPowerAction

subsection \<open>Connections\<close>

datatype AgentError =
    Protocol ProtocolError | UnexpectedResponse | AgentMessage string
  | Rejected AgentErrorCode string | SessionsUnsupported u32 u32
  | RangedReadUnsupported nat u32 | AppendUnsupported u32 u32 | NotReady nat string

datatype 'e interrupted = Raised 'e | InnerTimer | OuterTimer

record 'c transport =
  send :: "AgentRequest \<Rightarrow> ('c, ProtocolError interrupted, unit) op"
  recv :: "('c, ProtocolError interrupted, AgentResponse option) op"

type_synonym ('c, 'a) agent_op = "('c, AgentError interrupted, 'a) op"

definition MIN_PROTOCOL_VERSION_FOR_SESSION_REPLAY :: u32 where
  "MIN_PROTOCOL_VERSION_FOR_SESSION_REPLAY = 7"

definition MIN_PROTOCOL_VERSION_FOR_SESSIONS :: u32 where
  "MIN_PROTOCOL_VERSION_FOR_SESSIONS = 5"

definition MIN_PROTOCOL_VERSION_FOR_RESTORE :: u32 where
  "MIN_PROTOCOL_VERSION_FOR_RESTORE = 5"

definition MIN_PROTOCOL_VERSION_FOR_RANGED_READ :: u32 where
  "MIN_PROTOCOL_VERSION_FOR_RANGED_READ = 3"

definition MIN_PROTOCOL_VERSION_FOR_APPEND :: u32 where
  "MIN_PROTOCOL_VERSION_FOR_APPEND = 2"

text \<open>\<open>write_message(...).await?\<close> and \<open>read_message(...).await?.ok_or(UnexpectedResponse)?\<close>.\<close>

definition send_request :: "'c transport \<Rightarrow> AgentRequest \<Rightarrow> ('c, unit) agent_op" where
  "send_request tr request = map_err (map_interrupted Protocol) (send tr request)"

definition receive :: "'c transport \<Rightarrow> ('c, AgentResponse) agent_op" where
  "receive tr =
     bind_op (map_err (map_interrupted Protocol) (recv tr)) (\<lambda>response.
     case response of None \<Rightarrow> err (Raised UnexpectedResponse) | Some r \<Rightarrow> ok r)"

definition exchange :: "'c transport \<Rightarrow> AgentRequest \<Rightarrow> ('c, AgentResponse) agent_op" where
  "exchange tr request = bind_op (send_request tr request) (\<lambda>_. receive tr)"

definition refusal :: "ErrorResponse \<Rightarrow> AgentError" where
  "refusal error = (case error_code error of
     Some code \<Rightarrow> Rejected code (error_message error) | None \<Rightarrow> AgentMessage (error_message error))"

definition legacy_session_code :: "string \<Rightarrow> AgentErrorCode option" where
  "legacy_session_code message =
     map_option snd (find (\<lambda>(phrase, _). starts_with message phrase)
       [(''session not found'', SessionNotFound), (''invalid session id'', InvalidSessionId),
        (''too many running sessions'', TooManyRunningSessions),
        (''session retention limit'', SessionRetentionLimit),
        (''cancel the running session'', SessionIsRunning),
        (''session id already exists'', SessionIdExists)])"

definition session_refusal :: "ErrorResponse \<Rightarrow> AgentError" where
  "session_refusal error =
     refusal (if error_code error = None
       then error\<lparr>error_code := legacy_session_code (error_message error)\<rparr> else error)"

text \<open>An answer that is neither of the expected kind nor an error.\<close>

definition answer :: "('c, 'a) agent_op option \<Rightarrow> AgentResponse \<Rightarrow> ('c, 'a) agent_op" where
  "answer expected response =
     (case expected of Some m \<Rightarrow> m
      | None \<Rightarrow> (case response of RespError e \<Rightarrow> err (Raised (refusal e))
                | _ \<Rightarrow> err (Raised UnexpectedResponse)))"

definition base64_message :: "Base64Error \<Rightarrow> string" where
  "base64_message e = (case e of
     InvalidCharacter c \<Rightarrow> ''invalid base64 character: '' @ decimal (unat c)
   | InvalidLength \<Rightarrow> ''invalid base64 length'')"

definition decoded :: "string \<Rightarrow> ('c, bytes) agent_op" where
  "decoded data = lift_result (map_sum (\<lambda>e. Raised (AgentMessage (''base64 decode failed: '' @ base64_message e)))
     id (base64_decode data))"

subsection \<open>Calls\<close>

definition ping :: "'c transport \<Rightarrow> ('c, unit) agent_op" where
  "ping tr = bind_op (exchange tr ReqPing) (\<lambda>response.
     answer (case response of RespPong \<Rightarrow> Some (ok ()) | _ \<Rightarrow> None) response)"

definition shutdown :: "'c transport \<Rightarrow> GuestPowerAction \<Rightarrow> ('c, GuestPowerAction) agent_op" where
  "shutdown tr action = bind_op (exchange tr (ReqShutdown action)) (\<lambda>response.
     answer (case response of RespShuttingDown p \<Rightarrow> Some (ok p) | _ \<Rightarrow> None) response)"

definition guest_info :: "'c transport \<Rightarrow> ('c, GuestInfoResponse) agent_op" where
  "guest_info tr = bind_op (exchange tr ReqGuestInfo) (\<lambda>response.
     answer (case response of RespGuestInfo info \<Rightarrow> Some (ok info) | _ \<Rightarrow> None) response)"

definition reconfigure_network :: "'c transport \<Rightarrow> ReconfigureNetworkRequest \<Rightarrow> ('c, unit) agent_op" where
  "reconfigure_network tr request = bind_op (exchange tr (ReqReconfigureNetwork request)) (\<lambda>response.
     answer (case response of RespReconfigureNetwork _ \<Rightarrow> Some (ok ()) | _ \<Rightarrow> None) response)"

definition session_request_inner :: "'c transport \<Rightarrow> AgentRequest \<Rightarrow> ('c, AgentResponse) agent_op" where
  "session_request_inner tr request =
     bind_op (guest_info tr) (\<lambda>info.
     let reported = guest_protocol_version info;
         required = (case request of
           ReqSessionStartReplay _ \<Rightarrow> MIN_PROTOCOL_VERSION_FOR_SESSION_REPLAY
         | _ \<Rightarrow> MIN_PROTOCOL_VERSION_FOR_SESSIONS) in
     if reported < required then err (Raised (SessionsUnsupported reported required))
     else bind_op (exchange tr request) (\<lambda>response.
       case response of RespError e \<Rightarrow> err (Raised (session_refusal e)) | r \<Rightarrow> ok r))"

definition session_request :: "'c transport \<Rightarrow> AgentRequest \<Rightarrow> ('c, AgentResponse) agent_op" where
  "session_request tr request =
     map_err (\<lambda>e. case e of
         InnerTimer \<Rightarrow> Raised (NotReady 10 (
           '': guest session operation timed out; inspect session status before retrying a start''))
       | e \<Rightarrow> e)
       (session_request_inner tr request)"

text \<open>\<open>match self.session_request(...).await? { <pattern> => Ok(x), _ => Err(UnexpectedResponse) }\<close>\<close>

definition session_answer :: "'a option \<Rightarrow> ('c, 'a) agent_op" where
  "session_answer x = (case x of Some v \<Rightarrow> ok v | None \<Rightarrow> err (Raised UnexpectedResponse))"

definition session_of :: "AgentResponse \<Rightarrow> SessionInfo option" where
  "session_of r = (case r of RespSession info \<Rightarrow> Some info | _ \<Rightarrow> None)"

definition session_start :: "'c transport \<Rightarrow> SessionStartRequest \<Rightarrow> ('c, SessionInfo) agent_op" where
  "session_start tr request =
     bind_op (session_request tr (ReqSessionStart request)) (\<lambda>r. session_answer (session_of r))"

definition session_start_replay :: "'c transport \<Rightarrow> SessionStartRequest \<Rightarrow> ('c, SessionInfo) agent_op" where
  "session_start_replay tr request =
     bind_op (session_request tr (ReqSessionStartReplay request)) (\<lambda>r. session_answer (session_of r))"

definition session_get :: "'c transport \<Rightarrow> string \<Rightarrow> ('c, SessionInfo) agent_op" where
  "session_get tr i =
     bind_op (session_request tr (ReqSessionGet i)) (\<lambda>r. session_answer (session_of r))"

definition session_list :: "'c transport \<Rightarrow> ('c, SessionInfo list) agent_op" where
  "session_list tr =
     bind_op (session_request tr ReqSessionList) (\<lambda>r.
     session_answer (case r of RespSessions sessions \<Rightarrow> Some sessions | _ \<Rightarrow> None))"

definition session_events :: "'c transport \<Rightarrow> string \<Rightarrow> nat \<Rightarrow> ('c, SessionEventsResponse) agent_op" where
  "session_events tr i after =
     bind_op (session_request tr (ReqSessionEvents i after)) (\<lambda>r.
     session_answer (case r of RespSessionEvents events \<Rightarrow> Some events | _ \<Rightarrow> None))"

definition session_cancel :: "'c transport \<Rightarrow> string \<Rightarrow> ('c, SessionInfo) agent_op" where
  "session_cancel tr i =
     bind_op (session_request tr (ReqSessionCancel i)) (\<lambda>r. session_answer (session_of r))"

definition session_remove :: "'c transport \<Rightarrow> string \<Rightarrow> ('c, unit) agent_op" where
  "session_remove tr i =
     bind_op (session_request tr (ReqSessionRemove i)) (\<lambda>r.
     session_answer (case r of RespSessionRemoved \<Rightarrow> Some () | _ \<Rightarrow> None))"

definition tunnel :: "'c transport \<Rightarrow> u16 \<Rightarrow> ('c, unit) agent_op" where
  "tunnel tr port =
     bind_op (session_request tr (ReqTunnel port)) (\<lambda>r.
     session_answer (case r of RespTunnelReady \<Rightarrow> Some () | _ \<Rightarrow> None))"

text \<open>The host's clock, if it is after the epoch and its seconds fit, is an argument.\<close>

definition restore_guest :: "'c transport \<Rightarrow> (string + int \<times> u32) \<Rightarrow> bool \<Rightarrow> ('c, bool) agent_op" where
  "restore_guest tr now require_vmgenid =
     bind_op (guest_info tr) (\<lambda>info.
     if guest_protocol_version info < MIN_PROTOCOL_VERSION_FOR_RESTORE then
       (if require_vmgenid then err (Raised (AgentMessage (
          ''fork requires guest restore hooks (protocol v5); refresh the guest image'')))
        else ok False)
     else bind_op (lift_result (map_sum (\<lambda>m. Raised (AgentMessage m)) id now)) (\<lambda>(secs, nanos).
       bind_op (exchange tr (ReqRestoreGuest \<lparr>restore_unix_time_secs = secs,
           restore_unix_time_nanos = nanos, restore_require_vmgenid = require_vmgenid\<rparr>)) (\<lambda>response.
       answer (case response of RespGuestRestored \<Rightarrow> Some (ok True) | _ \<Rightarrow> None) response)))"

definition exec_with_timeout :: "'c transport \<Rightarrow> ExecRequest \<Rightarrow> ('c, ExecResponse) agent_op" where
  "exec_with_timeout tr request = bind_op (exchange tr (ReqExec request)) (\<lambda>response.
     answer (case response of RespExec r \<Rightarrow> Some (ok r) | _ \<Rightarrow> None) response)"

definition exec_stream_start :: "'c transport \<Rightarrow> ExecRequest \<Rightarrow> ('c, unit) agent_op" where
  "exec_stream_start tr request = bind_op (exchange tr (ReqExecStream request)) (\<lambda>response.
     answer (case response of RespExecStarted \<Rightarrow> Some (ok ()) | _ \<Rightarrow> None) response)"

datatype ExecStreamEvent = ExecStdout bytes | ExecStderr bytes | ExecExit int

definition exec_stream_recv :: "'c transport \<Rightarrow> ('c, ExecStreamEvent) agent_op" where
  "exec_stream_recv tr = bind_op (receive tr) (\<lambda>response.
     answer (case response of
         RespExecStdout data \<Rightarrow> Some (bind_op (decoded data) (\<lambda>bs. ok (ExecStdout bs)))
       | RespExecStderr data \<Rightarrow> Some (bind_op (decoded data) (\<lambda>bs. ok (ExecStderr bs)))
       | RespExecExit code \<Rightarrow> Some (ok (ExecExit code))
       | _ \<Rightarrow> None) response)"

record RangedRead =
  ranged_data :: bytes
  ranged_total_size :: "u64 option"
  ranged_modified_nanos :: "u64 option"

definition read_file_range :: "'c transport \<Rightarrow> string \<Rightarrow> nat \<Rightarrow> nat option \<Rightarrow> ('c, RangedRead) agent_op" where
  "read_file_range tr path offset len =
     bind_op (exchange tr (ReqReadFile \<lparr>read_path = path, read_offset = offset, read_len = len\<rparr>)) (\<lambda>response.
     answer (case response of
         RespReadFile r \<Rightarrow> Some (
           if offset > 0 \<and> file_total_size r = None
           then err (Raised (RangedReadUnsupported offset MIN_PROTOCOL_VERSION_FOR_RANGED_READ))
           else bind_op (decoded (file_data r)) (\<lambda>data.
             ok \<lparr>ranged_data = data, ranged_total_size = file_total_size r,
                 ranged_modified_nanos = file_modified_nanos r\<rparr>))
       | _ \<Rightarrow> None) response)"

definition read_file :: "'c transport \<Rightarrow> string \<Rightarrow> ('c, bytes) agent_op" where
  "read_file tr path = bind_op (read_file_range tr path 0 None) (\<lambda>r. ok (ranged_data r))"

definition write_file ::
  "'c transport \<Rightarrow> string \<Rightarrow> bytes \<Rightarrow> u32 option \<Rightarrow> bool \<Rightarrow> ('c, u64) agent_op" where
  "write_file tr path data mode appending =
     bind_op (if appending then
         bind_op (guest_info tr) (\<lambda>info.
         let reported = guest_protocol_version info; required = MIN_PROTOCOL_VERSION_FOR_APPEND in
         if reported < required then err (Raised (AppendUnsupported reported required)) else ok ())
       else ok ()) (\<lambda>_.
     bind_op (exchange tr (ReqWriteFile \<lparr>write_path = path, write_data = base64_encode data,
         write_mode = mode, write_append = appending\<rparr>)) (\<lambda>response.
     answer (case response of RespWriteFile n \<Rightarrow> Some (ok n) | _ \<Rightarrow> None) response))"

definition shell_start :: "'c transport \<Rightarrow> string option \<Rightarrow> u16 \<Rightarrow> u16 \<Rightarrow> ('c, unit) agent_op" where
  "shell_start tr command cols rows =
     bind_op (exchange tr (ReqShellStart \<lparr>shell_command = command, shell_env = [(''TERM'', ''xterm'')],
         shell_cols = cols, shell_rows = rows\<rparr>)) (\<lambda>response.
     answer (case response of RespShellStarted \<Rightarrow> Some (ok ()) | _ \<Rightarrow> None) response)"

definition shell_send :: "'c transport \<Rightarrow> bytes \<Rightarrow> ('c, unit) agent_op" where
  "shell_send tr data = send_request tr (ReqShellData (base64_encode data))"

datatype ShellEvent = ShellOutput bytes | ShellExited int

definition shell_recv :: "'c transport \<Rightarrow> ('c, ShellEvent) agent_op" where
  "shell_recv tr = bind_op (receive tr) (\<lambda>response.
     answer (case response of
         RespShellData data \<Rightarrow> Some (bind_op (decoded data) (\<lambda>bs. ok (ShellOutput bs)))
       | RespShellExit code \<Rightarrow> Some (ok (ShellExited code))
       | _ \<Rightarrow> None) response)"

definition shell_resize :: "'c transport \<Rightarrow> u16 \<Rightarrow> u16 \<Rightarrow> ('c, unit) agent_op" where
  "shell_resize tr cols rows = send_request tr (ReqShellResize cols rows)"

end
