(* ===== verification/Job_Spec.thy ===== *)
theory Job_Spec
  imports Job_Journal "HOL-Library.Multiset"
begin

text \<open>
  The frozen specification of a job (\<open>crates/husker-agent-proto/src/job_spec.rs\<close>): its data, its
  structural validation, its canonical JSON text and its digest, and the path rules of
  \<open>crates/husker-agent-proto/src/frozen_bundle.rs\<close>. \<open>to_value\<close> and \<open>to_string\<close> are those of
  \<open>serde_json\<close>; \<open>sha\<close> is \<open>hex::encode\<close> of \<open>Sha256::digest\<close>.
\<close>

subsection \<open>Data\<close>

type_synonym JobSpecError = string

record PreparedJobImage =
  image_catalog_id :: Uuid
  image_rootfs_digest :: string
  image_kernel_digest :: string
  image_initrd_digest :: "string option"

record JobBundle =
  bundle_digest :: string
  bundle_size_bytes :: u64

record JobResources =
  res_vcpu_count :: u32
  res_mem_size_mib :: u32
  res_disk_size_bytes :: u64
  res_pids_limit :: u32

record JobEgressRule =
  rule_host :: string
  rule_port :: u16
  rule_protocol :: string

datatype JobNetwork = NetworkNone | NetworkFiltered "JobEgressRule list"

record JobCommand =
  cmd_argv :: "string list"
  cmd_timeout_secs :: u64

record JobArtifact =
  artifact_path :: string
  artifact_max_bytes :: u64

record JobCorrelation =
  corr_job :: string
  corr_stage :: string
  corr_round :: u32

record JobSpec =
  spec_version :: u32
  spec_image :: PreparedJobImage
  spec_source :: JobBundle
  spec_acceptance :: JobBundle
  spec_commands :: "JobCommand list"
  spec_working_directory :: string
  spec_writable_directories :: "string list"
  spec_environment :: "(string \<times> string) list"
  spec_uid :: u32
  spec_gid :: u32
  spec_resources :: JobResources
  spec_network :: JobNetwork
  spec_deadline :: DateTime
  spec_artifacts :: "JobArtifact list"
  spec_correlation :: JobCorrelation

definition MAX_BUNDLE_BYTES :: u64 where
  "MAX_BUNDLE_BYTES = 32 * 1024 * 1024"

definition MAX_JOB_SPEC_BYTES :: nat where
  "MAX_JOB_SPEC_BYTES = 64 * 1024"

definition MAX_COMMANDS :: nat where
  "MAX_COMMANDS = 32"

definition MAX_SPEC_ARTIFACTS :: nat where
  "MAX_SPEC_ARTIFACTS = 16"

subsection \<open>Text\<close>

definition digest_valid :: "string \<Rightarrow> bool" where
  "digest_valid value \<longleftrightarrow>
     (case strip_prefix value ''sha256:'' of None \<Rightarrow> False
      | Some hex \<Rightarrow> length hex = 64 \<and> list_all (\<lambda>b. b \<in> set ''0123456789abcdef'') hex)"

definition excluded_bundle_component :: "string \<Rightarrow> bool" where
  "excluded_bundle_component part \<longleftrightarrow>
     part \<in> {''.git'', ''.ssh'', ''.aws'', ''.azure'', ''.config'', ''.codex'', ''.claude'', ''.gnupg'',
       ''.kube'', ''.docker'', ''.netrc'', ''.npmrc'', ''.pypirc'', ''.gitconfig'', ''.git-credentials'',
       ''credentials.json'', ''auth.json''}
     \<or> part = ''.env'' \<or> starts_with part ''.env.''"

definition safe_bundle_path :: "string \<Rightarrow> bool" where
  "safe_bundle_path path \<longleftrightarrow>
     path \<noteq> [] \<and> length path \<le> 255 \<and> CHR 0x5C \<notin> set path \<and> \<not> any_control path
     \<and> \<not> list_ex (\<lambda>part. part = [] \<or> part \<in> {''.'', ''..''} \<or> excluded_bundle_component part)
          (split_on (CHR ''/'') path)"

definition safe_relative :: "string \<Rightarrow> bool" where
  "safe_relative value = safe_bundle_path value"

definition printable :: "string \<Rightarrow> nat \<Rightarrow> bool" where
  "printable value limit \<longleftrightarrow> value \<noteq> [] \<and> length value \<le> limit \<and> \<not> any_control value"

subsection \<open>Validation\<close>

definition invalid_image :: "PreparedJobImage \<Rightarrow> bool" where
  "invalid_image img \<longleftrightarrow>
     image_catalog_id img = 0 \<or> \<not> digest_valid (image_rootfs_digest img)
     \<or> \<not> digest_valid (image_kernel_digest img)
     \<or> (case image_initrd_digest img of None \<Rightarrow> False | Some d \<Rightarrow> \<not> digest_valid d)"

definition invalid_bundle :: "JobBundle \<Rightarrow> bool" where
  "invalid_bundle bundle \<longleftrightarrow>
     \<not> digest_valid (bundle_digest bundle) \<or> bundle_size_bytes bundle = 0
     \<or> bundle_size_bytes bundle > MAX_BUNDLE_BYTES"

definition invalid_resources :: "JobResources \<Rightarrow> bool" where
  "invalid_resources r \<longleftrightarrow>
     \<not> (1 \<le> res_vcpu_count r \<and> res_vcpu_count r \<le> 32)
     \<or> \<not> (128 \<le> res_mem_size_mib r \<and> res_mem_size_mib r \<le> 65536)
     \<or> \<not> (1024 * 1024 * 1024 \<le> res_disk_size_bytes r
          \<and> res_disk_size_bytes r \<le> 1024 * 1024 * 1024 * 1024)
     \<or> \<not> (1 \<le> res_pids_limit r \<and> res_pids_limit r \<le> 512)"

text \<open>The loop over the writable directories, with those seen before.\<close>

fun overlapping_directories :: "string list \<Rightarrow> string list \<Rightarrow> bool" where
  "overlapping_directories seen [] = False"
| "overlapping_directories seen (path # paths) =
     (\<not> safe_relative path
      \<or> list_ex (\<lambda>previous. previous = path \<or> starts_with previous (path @ ''/'')
          \<or> starts_with path (previous @ ''/'')) seen
      \<or> overlapping_directories (seen @ [path]) paths)"

definition invalid_command :: "JobCommand \<Rightarrow> bool" where
  "invalid_command c \<longleftrightarrow>
     cmd_argv c = [] \<or> length (cmd_argv c) > 128 \<or> hd (cmd_argv c) = []
     \<or> list_ex (\<lambda>arg. length arg > 4096 \<or> CHR 0x00 \<in> set arg) (cmd_argv c)
     \<or> cmd_timeout_secs c = 0 \<or> cmd_timeout_secs c > 1200"

definition allowed_environment :: "string list" where
  "allowed_environment = [''PATH'', ''HOME'', ''LANG'', ''LC_ALL'', ''TZ'', ''TMPDIR'', ''RUSTUP_HOME'',
     ''CARGO_HOME'', ''CARGO_NET_OFFLINE'', ''RUSTFLAGS'', ''WERKT_ACCEPTANCE_DIR'',
     ''GIT_CONFIG_NOSYSTEM'', ''GIT_CONFIG_GLOBAL'']"

definition invalid_variable :: "string \<times> string \<Rightarrow> bool" where
  "invalid_variable kv \<longleftrightarrow>
     fst kv \<notin> set allowed_environment \<or> length (snd kv) > 4096 \<or> CHR 0x00 \<in> set (snd kv)"

definition invalid_rule :: "JobEgressRule \<Rightarrow> bool" where
  "invalid_rule r \<longleftrightarrow>
     \<not> printable (rule_host r) 253 \<or> rule_port r = 0 \<or> rule_protocol r \<notin> {''tcp'', ''udp''}"

definition invalid_network :: "JobNetwork \<Rightarrow> bool" where
  "invalid_network network \<longleftrightarrow>
     (case network of NetworkNone \<Rightarrow> False
      | NetworkFiltered rules \<Rightarrow> rules = [] \<or> length rules > 32 \<or> list_ex invalid_rule rules)"

text \<open>The loop over the artifacts, with the paths seen before and the running 64-bit total.\<close>

fun artifact_total :: "string list \<Rightarrow> u64 \<Rightarrow> JobArtifact list \<Rightarrow> JobSpecError + u64" where
  "artifact_total paths acc [] = Inr acc"
| "artifact_total paths acc (artifact # artifacts) =
     (if \<not> safe_relative (artifact_path artifact) \<or> artifact_path artifact \<in> set paths
         \<or> artifact_max_bytes artifact = 0 \<or> artifact_max_bytes artifact > 4 * 1024 * 1024
      then Inl ''artifact must have a unique safe relative path and a bounded size''
      else artifact_total (artifact_path artifact # paths) (acc + artifact_max_bytes artifact) artifacts)"

text \<open>An en dash in a message is its UTF-8 bytes.\<close>

definition en_dash :: string where
  "en_dash = [CHR 0xE2, CHR 0x80, CHR 0x93]"

definition spec_validate :: "JobSpec \<Rightarrow> JobSpecError + unit" where
  "spec_validate s =
     and_then (ensure (spec_version s = 1) ''unsupported contract version'') (\<lambda>_.
     and_then (ensure (\<not> invalid_image (spec_image s))
       ''immutable prepared image/kernel identities required'') (\<lambda>_.
     and_then (ensure (\<not> list_ex invalid_bundle [spec_source s, spec_acceptance s])
       ''bundle identity or size invalid'') (\<lambda>_.
     and_then (ensure (\<not> (spec_uid s < 1000 \<or> spec_gid s < 1000 \<or> spec_uid s = -1 \<or> spec_gid s = -1))
       ''unprivileged numeric user and group required'') (\<lambda>_.
     and_then (ensure (\<not> invalid_resources (spec_resources s))
       ''explicit bounded CPU, memory, disk and process limits required'') (\<lambda>_.
     and_then (ensure (spec_working_directory s = ''/workspace''
         \<or> (case strip_prefix (spec_working_directory s) ''/workspace/'' of
              None \<Rightarrow> False | Some path \<Rightarrow> safe_relative path))
       ''working directory must be inside /workspace'') (\<lambda>_.
     and_then (ensure (length (spec_writable_directories s) \<le> 16)
       ''at most 16 declared build/output directories'') (\<lambda>_.
     and_then (ensure (\<not> overlapping_directories [] (spec_writable_directories s))
       ''build/output directories must be safe and nonoverlapping'') (\<lambda>_.
     and_then (ensure (spec_commands s \<noteq> [] \<and> length (spec_commands s) \<le> MAX_COMMANDS)
       (''1'' @ en_dash @ ''32 trusted command argv arrays required'')) (\<lambda>_.
     and_then (ensure (\<not> list_ex invalid_command (spec_commands s))
       ''argv or command timeout invalid (maximum 20 minutes)'') (\<lambda>_.
     and_then (ensure (\<not> list_ex invalid_variable (spec_environment s))
       ''environment is outside the non-secret check allowlist'') (\<lambda>_.
     and_then (ensure (\<not> invalid_network (spec_network s))
       (''filtered network requires 1'' @ en_dash @ ''32 bounded explicit egress rules'')) (\<lambda>_.
     and_then (ensure (timestamp (spec_deadline s) \<ge> 0 \<and> spec_deadline s mod 1000000000 = 0)
       ''deadline must be a nonnegative whole UTC second'') (\<lambda>_.
     and_then (ensure (length (spec_artifacts s) \<le> MAX_SPEC_ARTIFACTS) ''at most 16 declared artifacts'') (\<lambda>_.
     and_then (artifact_total [] 0 (spec_artifacts s)) (\<lambda>acc.
     and_then (ensure (acc \<le> 16 * 1024 * 1024) ''artifact budget exceeds 16 MiB'') (\<lambda>_.
     ensure (printable (corr_job (spec_correlation s)) 128 \<and> printable (corr_stage (spec_correlation s)) 64)
       ''bounded non-secret job/stage correlation required''))))))))))))))))"

subsection \<open>The canonical text\<close>

datatype json_value =
    Null | Bool bool | Number int | String string | Array "json_value list"
  | Object "(string \<times> json_value) list"

text \<open>\<open>sort_keys\<close> of an order-preserving map: its keys are distinct.\<close>

fun sort_json_keys :: "json_value \<Rightarrow> json_value" where
  "sort_json_keys (Object fs) =
     Object (sort_key fst (map (\<lambda>(k, v). (k, sort_json_keys v)) fs))"
| "sort_json_keys (Array values) = Array (map sort_json_keys values)"
| "sort_json_keys v = v"

record serde =
  to_value :: "JobSpec \<Rightarrow> json_value option"
  to_string :: "json_value \<Rightarrow> string option"
  spec_from_str :: "string \<Rightarrow> string + JobSpec"

definition canonical_json :: "serde \<Rightarrow> JobSpec \<Rightarrow> JobSpecError + string" where
  "canonical_json sd s =
     and_then (spec_validate s) (\<lambda>_.
     and_then (ok_or ''serialization failed'' (to_value sd s)) (\<lambda>value.
     and_then (ok_or ''serialization failed'' (to_string sd (sort_json_keys value))) (\<lambda>json.
     if length json > MAX_JOB_SPEC_BYTES then Inl ''specification exceeds 64 KiB'' else Inr json)))"

definition digest :: "(bytes \<Rightarrow> string) \<Rightarrow> serde \<Rightarrow> JobSpec \<Rightarrow> JobSpecError + string" where
  "digest sha sd s = and_then (canonical_json sd s) (\<lambda>json. Inr (spec_digest sha (bytes_of json)))"

record JobSubmission =
  sub_idempotency_key :: string
  sub_digest :: string
  sub_specification :: JobSpec

definition canonical_specification ::
  "(bytes \<Rightarrow> string) \<Rightarrow> serde \<Rightarrow> JobSubmission \<Rightarrow> JobSpecError + string" where
  "canonical_specification sha sd sub =
     and_then (ensure (printable (sub_idempotency_key sub) 128)
       ''bounded non-secret idempotency key required'') (\<lambda>_.
     and_then (canonical_json sd (sub_specification sub)) (\<lambda>json.
     if sub_digest sub \<noteq> spec_digest sha (bytes_of json)
     then Inl ''execution specification digest mismatch'' else Inr json))"

subsection \<open>What validation establishes\<close>

lemma spec_validate_Inr:
  "spec_validate s = Inr () \<longleftrightarrow>
     spec_version s = 1 \<and> \<not> invalid_image (spec_image s)
     \<and> \<not> invalid_bundle (spec_source s) \<and> \<not> invalid_bundle (spec_acceptance s)
     \<and> \<not> (spec_uid s < 1000 \<or> spec_gid s < 1000 \<or> spec_uid s = -1 \<or> spec_gid s = -1)
     \<and> \<not> invalid_resources (spec_resources s)
     \<and> (spec_working_directory s = ''/workspace''
        \<or> (case strip_prefix (spec_working_directory s) ''/workspace/'' of
              None \<Rightarrow> False | Some path \<Rightarrow> safe_relative path))
     \<and> length (spec_writable_directories s) \<le> 16
     \<and> \<not> overlapping_directories [] (spec_writable_directories s)
     \<and> spec_commands s \<noteq> [] \<and> length (spec_commands s) \<le> MAX_COMMANDS
     \<and> \<not> list_ex invalid_command (spec_commands s)
     \<and> \<not> list_ex invalid_variable (spec_environment s)
     \<and> \<not> invalid_network (spec_network s)
     \<and> timestamp (spec_deadline s) \<ge> 0 \<and> spec_deadline s mod 1000000000 = 0
     \<and> length (spec_artifacts s) \<le> MAX_SPEC_ARTIFACTS
     \<and> (\<exists>acc. artifact_total [] 0 (spec_artifacts s) = Inr acc \<and> acc \<le> 16 * 1024 * 1024
        \<and> printable (corr_job (spec_correlation s)) 128 \<and> printable (corr_stage (spec_correlation s)) 64)"
  unfolding spec_validate_def and_then_Inr ensure_Inr by simp

lemma artifact_total_Inr:
  assumes "artifact_total paths acc as = Inr acc'"
  shows "list_all (\<lambda>a. safe_relative (artifact_path a) \<and> 0 < artifact_max_bytes a
        \<and> artifact_max_bytes a \<le> 4 * 1024 * 1024) as
    \<and> distinct (map artifact_path as) \<and> set paths \<inter> artifact_path ` set as = {}"
  using assms
proof (induction as arbitrary: paths acc)
  case (Cons a as)
  then have "artifact_total (artifact_path a # paths) (acc + artifact_max_bytes a) as = Inr acc'"
    "safe_relative (artifact_path a)" "artifact_path a \<notin> set paths"
    "artifact_max_bytes a \<noteq> 0" "\<not> artifact_max_bytes a > 4 * 1024 * 1024"
    by (simp_all split: if_splits)
  then show ?case using Cons.IH [of "artifact_path a # paths"]
    by (auto simp: word_gt_0 not_less)
qed simp

lemma artifact_total_exact:
  assumes "artifact_total paths acc as = Inr acc'" "unat acc + length as * (4 * 1024 * 1024) < 2 ^ 64"
  shows "unat acc' = unat acc + (\<Sum>a\<leftarrow>as. unat (artifact_max_bytes a))"
  using assms
proof (induction as arbitrary: paths acc)
  case (Cons a as)
  then have rest: "artifact_total (artifact_path a # paths) (acc + artifact_max_bytes a) as = Inr acc'"
    and "\<not> artifact_max_bytes a > 4 * 1024 * 1024"
    by (simp_all split: if_splits)
  then have "unat (artifact_max_bytes a) \<le> 4 * 1024 * 1024" by (simp add: word_less_nat_alt not_less)
  moreover from this have "unat (acc + artifact_max_bytes a) = unat acc + unat (artifact_max_bytes a)"
    using Cons.prems(2) by (simp add: unat_word_ariths)
  ultimately show ?case using Cons.IH [OF rest] Cons.prems(2) by simp
qed simp

lemma declared_artifacts:
  assumes "spec_validate s = Inr ()"
  shows "length (spec_artifacts s) \<le> 16" "distinct (map artifact_path (spec_artifacts s))"
    "list_all (\<lambda>a. safe_relative (artifact_path a) \<and> 0 < artifact_max_bytes a
        \<and> artifact_max_bytes a \<le> 4 * 1024 * 1024) (spec_artifacts s)"
    "(\<Sum>a\<leftarrow>spec_artifacts s. unat (artifact_max_bytes a)) \<le> 16 * 1024 * 1024"
proof -
  obtain acc where acc: "artifact_total [] 0 (spec_artifacts s) = Inr acc" "acc \<le> 16 * 1024 * 1024"
    and len: "length (spec_artifacts s) \<le> 16"
    using assms unfolding spec_validate_Inr MAX_SPEC_ARTIFACTS_def by blast
  show "length (spec_artifacts s) \<le> 16" by (rule len)
  show "distinct (map artifact_path (spec_artifacts s))"
    "list_all (\<lambda>a. safe_relative (artifact_path a) \<and> 0 < artifact_max_bytes a
        \<and> artifact_max_bytes a \<le> 4 * 1024 * 1024) (spec_artifacts s)"
    using artifact_total_Inr [OF acc(1)] by simp_all
  have "unat acc = (\<Sum>a\<leftarrow>spec_artifacts s. unat (artifact_max_bytes a))"
    using artifact_total_exact [OF acc(1)] len by simp
  then show "(\<Sum>a\<leftarrow>spec_artifacts s. unat (artifact_max_bytes a)) \<le> 16 * 1024 * 1024"
    using acc(2) by (simp add: word_le_nat_alt)
qed

text \<open>A declared artifact passes the check of the journal.\<close>

lemma declared_artifact_valid:
  assumes "spec_validate s = Inr ()" "i < length (spec_artifacts s)"
    "length bs \<le> unat (artifact_max_bytes (spec_artifacts s ! i))"
  shows "\<not> invalid_artifact i (artifact_path (spec_artifacts s ! i)) bs"
proof -
  have a: "safe_relative (artifact_path (spec_artifacts s ! i))"
    "artifact_max_bytes (spec_artifacts s ! i) \<le> 4 * 1024 * 1024"
    using declared_artifacts(3) [OF assms(1)] assms(2) by (auto simp: list_all_length)
  then have "length bs \<le> 4 * 1024 * 1024" using assms(3) by (simp add: word_le_nat_alt)
  then show ?thesis
    using a(1) assms(2) declared_artifacts(1) [OF assms(1)]
    by (auto simp: invalid_artifact_def safe_relative_def safe_bundle_path_def list_ex_iff
        MAX_ARTIFACTS_def MAX_ARTIFACT_BYTES_def)
qed

subsection \<open>The canonical text does not depend on the order of fields\<close>

text \<open>Equal up to the order of the fields of objects, at every depth.\<close>

inductive reordered :: "json_value \<Rightarrow> json_value \<Rightarrow> bool" where
  scalar: "reordered v v"
| array: "list_all2 reordered vs ws \<Longrightarrow> reordered (Array vs) (Array ws)"
| object: "distinct (map fst fs) \<Longrightarrow> map fst gs = map fst fs \<Longrightarrow> list_all2 reordered (map snd fs) (map snd gs)
    \<Longrightarrow> mset hs = mset gs \<Longrightarrow> reordered (Object fs) (Object hs)"
monos list_all2_mono

lemma sort_json_keys_reordered: "reordered v w \<Longrightarrow> sort_json_keys v = sort_json_keys w"
proof (induction rule: reordered.induct)
  case (array vs ws)
  then have "map sort_json_keys vs = map sort_json_keys ws"
    by (auto simp: list_all2_conv_all_nth intro: nth_equalityI)
  then show ?case by simp
next
  case (object fs gs hs)
  let ?g = "\<lambda>(k, v). (k, sort_json_keys v)"
  have len: "length fs = length gs" using object.hyps(2) by (metis length_map)
  have "map ?g fs = map ?g gs"
  proof (rule nth_equalityI)
    fix n assume "n < length (map ?g fs)"
    then have n: "n < length fs" "n < length gs" using len by simp_all
    have "fst (fs ! n) = fst (gs ! n)" using object.hyps(2) n by (metis nth_map)
    moreover have "sort_json_keys (snd (fs ! n)) = sort_json_keys (snd (gs ! n))"
      using object.IH n by (simp add: list_all2_conv_all_nth)
    ultimately show "map ?g fs ! n = map ?g gs ! n" using n by (simp add: case_prod_unfold)
  qed (simp add: len)
  moreover have "sort_key fst (map ?g gs) = sort_key fst (map ?g hs)"
  proof -
    have "map fst (map ?g gs) = map fst fs" using object.hyps(2) by (simp add: comp_def case_prod_unfold)
    then have "inj_on fst (set (map ?g gs))" using object.hyps(1) by (metis distinct_map)
    moreover have "mset (map ?g gs) = mset (map ?g hs)" using object.hyps(3) by simp
    moreover have "sorted (map fst (sort_key fst (map ?g hs)))" by simp
    ultimately show ?thesis by (intro sort_key_inj_key_eq) simp_all
  qed
  ultimately show ?case by simp
qed simp

text \<open>
  C14: The digest of a specification depends on its content only. Two encoders that present the
  fields of the same specification in different orders, at whatever depth, give the same canonical
  text and the same digest, so the identity under which a job is accepted does not depend on how
  the JSON library orders maps.
\<close>

theorem digest_order_independent:
  assumes "to_value sd s = Some v" "to_value sd' s = Some w" "reordered v w" "to_string sd' = to_string sd"
  shows "canonical_json sd' s = canonical_json sd s \<and> digest sha sd' s = digest sha sd s"
proof -
  have "canonical_json sd' s = canonical_json sd s"
    using sort_json_keys_reordered [OF assms(3)] assms by (simp add: canonical_json_def)
  then show ?thesis by (simp add: digest_def)
qed

subsection \<open>A specification\<close>

definition sample_hash :: "char \<Rightarrow> string" where
  "sample_hash c = ''sha256:'' @ replicate 64 c"

definition sample_spec :: JobSpec where
  "sample_spec = \<lparr>spec_version = 1,
     spec_image = \<lparr>image_catalog_id = 7, image_rootfs_digest = sample_hash (CHR ''a''),
       image_kernel_digest = sample_hash (CHR ''b''), image_initrd_digest = None\<rparr>,
     spec_source = \<lparr>bundle_digest = sample_hash (CHR ''c''), bundle_size_bytes = 10\<rparr>,
     spec_acceptance = \<lparr>bundle_digest = sample_hash (CHR ''d''), bundle_size_bytes = 20\<rparr>,
     spec_commands = [\<lparr>cmd_argv = [''cargo'', ''test''], cmd_timeout_secs = 60\<rparr>],
     spec_working_directory = ''/workspace'', spec_writable_directories = [''target''],
     spec_environment = [(''PATH'', ''/bin'')], spec_uid = 1000, spec_gid = 1000,
     spec_resources = \<lparr>res_vcpu_count = 2, res_mem_size_mib = 512,
       res_disk_size_bytes = 2147483648, res_pids_limit = 64\<rparr>,
     spec_network = NetworkNone, spec_deadline = 61000000000,
     spec_artifacts = [\<lparr>artifact_path = ''out/report'', artifact_max_bytes = 100\<rparr>],
     spec_correlation = \<lparr>corr_job = ''job-1'', corr_stage = ''check'', corr_round = 3\<rparr>\<rparr>"

lemma sample_spec_valid: "spec_validate sample_spec = Inr ()"
  by code_simp

definition sample_serde :: serde where
  "sample_serde = \<lparr>to_value = (\<lambda>s. Some (Object [(''version'', Number 1), (''uid'', Number 1000)])),
     to_string = (\<lambda>v. if v = Object [(''uid'', Number 1000), (''version'', Number 1)] then Some ''{}'' else None),
     spec_from_str = (\<lambda>s. if s = ''{}'' then Inr sample_spec else Inl ''syntax error'')\<rparr>"

theorem digest_order_independent_witness:
  "canonical_json (sample_serde\<lparr>to_value := (\<lambda>s. Some (Object [(''uid'', Number 1000), (''version'', Number 1)]))\<rparr>)
     sample_spec = canonical_json sample_serde sample_spec
   \<and> canonical_json sample_serde sample_spec = Inr ''{}''"
proof
  let ?v = "[(''version'', Number 1), (''uid'', Number 1000)]" and ?w = "[(''uid'', Number 1000), (''version'', Number 1)]"
  have "reordered (Object ?v) (Object ?w)"
    by (rule reordered.object [where gs = ?v]) (auto intro: reordered.scalar)
  then show "canonical_json (sample_serde\<lparr>to_value := (\<lambda>s. Some (Object ?w))\<rparr>) sample_spec
     = canonical_json sample_serde sample_spec"
    using digest_order_independent [of sample_serde sample_spec "Object ?v"
        "sample_serde\<lparr>to_value := (\<lambda>s. Some (Object ?w))\<rparr>" "Object ?w" "\<lambda>_. []"]
    by (simp add: sample_serde_def)
  have "sort_json_keys (Object ?v) = Object ?w" by code_simp
  then show "canonical_json sample_serde sample_spec = Inr ''{}''"
    by (simp add: canonical_json_def sample_spec_valid sample_serde_def MAX_JOB_SPEC_BYTES_def del: sort_json_keys.simps)
qed

end
