(* ===== verification/Job_Result.thy ===== *)
theory Job_Result
  imports Job_Spec
begin

text \<open>
  The evidence a guest hands out for a job (\<open>crates/husker-agent-proto/src/job_result.rs\<close>): the
  manifest and the checks a host applies to it before it believes any of it. \<open>from_slice\<close> is
  the JSON decoder of the manifest.
\<close>

definition MAX_JOB_MANIFEST_BYTES :: nat where
  "MAX_JOB_MANIFEST_BYTES = 64 * 1024"

datatype JobOutcome =
    OutcomeCompleted | OutcomeCommandFailed | OutcomeInfrastructureFailed | OutcomeCancelled
  | OutcomeTimedOut | OutcomeInterrupted | OutcomeUnknown

datatype JobCollectionStatus = StatusComplete | StatusTruncated | StatusFailed

record JobCommandResult =
  result_command_index :: nat
  result_exit_code :: "int option"
  result_outcome :: JobOutcome
  result_duration_ms :: u64
  result_output :: string
  result_output_truncated :: bool
  result_logs_truncated :: bool
  result_termination_confirmed :: bool
  result_termination_error :: "string option"

record JobArtifactResult =
  receipt_path :: string
  receipt_stored_name :: "string option"
  receipt_digest :: "string option"
  receipt_size_bytes :: "u64 option"
  receipt_error :: "string option"

record GuestJobManifest =
  man_version :: u32
  man_job_id :: Uuid
  man_digest :: string
  man_image :: PreparedJobImage
  man_source :: JobBundle
  man_acceptance :: JobBundle
  man_commands :: "JobCommandResult list"
  man_artifacts :: "JobArtifactResult list"
  man_source_changed :: "bool option"
  man_source_verification_error :: "string option"
  man_collection_status :: JobCollectionStatus
  man_outcome :: JobOutcome

text \<open>The body of the loop over the command results.\<close>

definition check_command_result :: "nat \<Rightarrow> JobCommandResult \<Rightarrow> JobSpecError + unit" where
  "check_command_result index c =
     and_then (ensure (\<not> (result_command_index c \<noteq> index \<or> length (result_output c) > 2048))
       ''invalid command result index or output bound'') (\<lambda>_.
     and_then (ensure (\<not> (is_some_and (\<lambda>e. length e > 2048) (result_termination_error c)
         \<or> (result_termination_confirmed c \<and> result_termination_error c \<noteq> None)))
       ''inconsistent termination evidence'') (\<lambda>_.
     and_then (ensure (\<not> (result_outcome c = OutcomeCompleted
         \<and> (result_exit_code c \<noteq> Some 0 \<or> \<not> result_termination_confirmed c)))
       ''completed command lacks successful confirmed termination'') (\<lambda>_.
     ensure (\<not> (result_outcome c = OutcomeCommandFailed
         \<and> (\<not> is_some_and (\<lambda>code. code \<noteq> 0) (result_exit_code c) \<or> \<not> result_termination_confirmed c)))
       ''command failure lacks confirmed nonzero exit'')))"

fun check_command_results :: "nat \<Rightarrow> JobCommandResult list \<Rightarrow> JobSpecError + unit" where
  "check_command_results index [] = Inr ()"
| "check_command_results index (c # cs) =
     and_then (check_command_result index c) (\<lambda>_. check_command_results (index + 1) cs)"

text \<open>The body of the loop over the artifact receipts and their declarations.\<close>

definition check_receipt :: "nat \<Rightarrow> JobArtifactResult \<Rightarrow> JobArtifact \<Rightarrow> JobSpecError + unit" where
  "check_receipt index receipt declaration =
     and_then (ensure (\<not> (receipt_path receipt \<noteq> artifact_path declaration
         \<or> is_some_and (\<lambda>e. length e > 2048) (receipt_error receipt)))
       ''invalid artifact declaration or error bound'') (\<lambda>_.
     ensure (case receipt_error receipt of
         Some _ \<Rightarrow> receipt_digest receipt = None \<and> receipt_stored_name receipt = None
           \<and> receipt_size_bytes receipt = None
       | None \<Rightarrow> receipt_stored_name receipt = Some (decimal index @ ''.bin'')
           \<and> is_some_and (\<lambda>size. size \<le> artifact_max_bytes declaration) (receipt_size_bytes receipt)
           \<and> is_some_and digest_valid (receipt_digest receipt))
       ''inconsistent artifact receipt'')"

fun check_receipts :: "nat \<Rightarrow> JobArtifactResult list \<Rightarrow> JobArtifact list \<Rightarrow> JobSpecError + unit" where
  "check_receipts index (r # rs) (a # as) =
     and_then (check_receipt index r a) (\<lambda>_. check_receipts (index + 1) rs as)"
| "check_receipts index _ _ = Inr ()"

definition decode_for ::
  "(bytes \<Rightarrow> GuestJobManifest option) \<Rightarrow> (bytes \<Rightarrow> string) \<Rightarrow> serde \<Rightarrow> bytes \<Rightarrow> JobSpec \<Rightarrow> Uuid
    \<Rightarrow> JobSpecError + GuestJobManifest" where
  "decode_for from_slice sha sd bs spec job =
     and_then (ensure (\<not> length bs > MAX_JOB_MANIFEST_BYTES) ''manifest exceeds 64 KiB'') (\<lambda>_.
     and_then (ok_or ''invalid guest manifest'' (from_slice bs)) (\<lambda>result.
     and_then (ensure (man_version result = 1 \<and> man_job_id result = job) ''guest result identity mismatch'') (\<lambda>_.
     and_then (digest sha sd spec) (\<lambda>expected.
     and_then (ensure (man_digest result = expected \<and> man_image result = spec_image spec
         \<and> man_source result = spec_source spec \<and> man_acceptance result = spec_acceptance spec)
       ''guest result identity mismatch'') (\<lambda>_.
     and_then (ensure (\<not> (man_commands result = []
         \<or> length (man_commands result) > length (spec_commands spec))) ''invalid command result count'') (\<lambda>_.
     and_then (check_command_results 0 (man_commands result)) (\<lambda>_.
     and_then (ensure (length (man_artifacts result) = length (spec_artifacts spec))
       ''artifact declarations missing from result'') (\<lambda>_.
     and_then (check_receipts 0 (man_artifacts result) (spec_artifacts spec)) (\<lambda>_.
     and_then (ensure (\<not> is_some_and (\<lambda>e. length e > 2048) (man_source_verification_error result))
       ''source verification error exceeds bound'') (\<lambda>_.
     and_then (ensure (\<not> (man_outcome result = OutcomeCompleted
         \<and> (length (man_commands result) \<noteq> length (spec_commands spec)
           \<or> list_ex (\<lambda>c. result_outcome c \<noteq> OutcomeCompleted) (man_commands result)
           \<or> man_source_changed result \<noteq> Some False
           \<or> man_source_verification_error result \<noteq> None
           \<or> man_collection_status result = StatusFailed
           \<or> list_ex (\<lambda>a. receipt_error a \<noteq> None) (man_artifacts result))))
       ''completed result lacks successful execution and collection evidence'') (\<lambda>_.
     Inr result)))))))))))"

subsection \<open>What an accepted manifest is evidence of\<close>

text \<open>The evidence for one command that ran to its successful end.\<close>

definition command_passed :: "nat \<Rightarrow> JobCommandResult \<Rightarrow> bool" where
  "command_passed index c \<longleftrightarrow>
     result_command_index c = index \<and> result_outcome c = OutcomeCompleted
     \<and> result_exit_code c = Some 0 \<and> result_termination_confirmed c"

text \<open>The receipt of an artifact that was stored within its declared bound.\<close>

definition stored_receipt :: "nat \<Rightarrow> JobArtifactResult \<Rightarrow> JobArtifact \<Rightarrow> bool" where
  "stored_receipt index r a \<longleftrightarrow>
     receipt_path r = artifact_path a \<and> receipt_error r = None
     \<and> receipt_stored_name r = Some (decimal index @ ''.bin'')
     \<and> is_some_and (\<lambda>size. size \<le> artifact_max_bytes a) (receipt_size_bytes r)
     \<and> is_some_and digest_valid (receipt_digest r)"

lemma check_command_results_Inr:
  "check_command_results n cs = Inr () \<longleftrightarrow>
     (\<forall>i < length cs. check_command_result (n + i) (cs ! i) = Inr ())"
proof (induction cs arbitrary: n)
  case (Cons c cs)
  have "(\<forall>i < length (c # cs). check_command_result (n + i) ((c # cs) ! i) = Inr ()) \<longleftrightarrow>
      check_command_result n c = Inr () \<and> (\<forall>i < length cs. check_command_result (n + 1 + i) (cs ! i) = Inr ())"
    by (auto simp: less_Suc_eq_0_disj)
  then show ?case using Cons.IH by (simp add: and_then_Inr)
qed simp

lemma check_receipts_Inr:
  "length rs = length as \<Longrightarrow> check_receipts n rs as = Inr () \<longleftrightarrow>
     (\<forall>i < length rs. check_receipt (n + i) (rs ! i) (as ! i) = Inr ())"
proof (induction rs as arbitrary: n rule: list_induct2)
  case (Cons r rs a as)
  have "(\<forall>i < length (r # rs). check_receipt (n + i) ((r # rs) ! i) ((a # as) ! i) = Inr ()) \<longleftrightarrow>
      check_receipt n r a = Inr () \<and> (\<forall>i < length rs. check_receipt (n + 1 + i) (rs ! i) (as ! i) = Inr ())"
    by (auto simp: less_Suc_eq_0_disj)
  then show ?case using Cons.IH by (simp add: and_then_Inr)
qed simp

lemma decode_for_Inr:
  assumes "decode_for from_slice sha sd bs spec job = Inr m"
  shows "from_slice bs = Some m" "length bs \<le> MAX_JOB_MANIFEST_BYTES" "man_job_id m = job"
    "digest sha sd spec = Inr (man_digest m)"
    "length (man_artifacts m) = length (spec_artifacts spec)"
    "\<forall>i < length (man_artifacts m). check_receipt i (man_artifacts m ! i) (spec_artifacts spec ! i) = Inr ()"
  using assms unfolding decode_for_def and_then_Inr ensure_Inr ok_or_Inr
  by (auto simp: check_receipts_Inr not_less)

lemma completed_evidence:
  assumes "decode_for from_slice sha sd bs spec job = Inr m" "man_outcome m = OutcomeCompleted"
  shows "length (man_commands m) = length (spec_commands spec)"
    "\<forall>i < length (man_commands m). command_passed i (man_commands m ! i)"
    "man_source_changed m = Some False" "man_source_verification_error m = None"
    "\<forall>i < length (man_artifacts m). stored_receipt i (man_artifacts m ! i) (spec_artifacts spec ! i)"
proof -
  have c: "length (man_commands m) = length (spec_commands spec)"
    "\<not> list_ex (\<lambda>c. result_outcome c \<noteq> OutcomeCompleted) (man_commands m)"
    "check_command_results 0 (man_commands m) = Inr ()"
    "man_source_changed m = Some False" "man_source_verification_error m = None"
    "\<not> list_ex (\<lambda>a. receipt_error a \<noteq> None) (man_artifacts m)"
    using assms unfolding decode_for_def and_then_Inr ensure_Inr ok_or_Inr by auto
  then show "length (man_commands m) = length (spec_commands spec)"
    "man_source_changed m = Some False" "man_source_verification_error m = None" by auto
  show "\<forall>i < length (man_commands m). command_passed i (man_commands m ! i)"
  proof (intro allI impI)
    fix i assume i: "i < length (man_commands m)"
    then have "check_command_result i (man_commands m ! i) = Inr ()"
      using c(3) by (simp add: check_command_results_Inr)
    moreover have "result_outcome (man_commands m ! i) = OutcomeCompleted"
      using c(2) i by (auto simp: list_ex_length)
    ultimately show "command_passed i (man_commands m ! i)"
      unfolding check_command_result_def and_then_Inr ensure_Inr command_passed_def by auto
  qed
  show "\<forall>i < length (man_artifacts m). stored_receipt i (man_artifacts m ! i) (spec_artifacts spec ! i)"
  proof (intro allI impI)
    fix i assume i: "i < length (man_artifacts m)"
    then have "check_receipt i (man_artifacts m ! i) (spec_artifacts spec ! i) = Inr ()"
      using decode_for_Inr(6) [OF assms(1)] by blast
    moreover have "receipt_error (man_artifacts m ! i) = None"
      using c(6) i by (auto simp: list_ex_length)
    ultimately show "stored_receipt i (man_artifacts m ! i) (spec_artifacts spec ! i)"
      unfolding check_receipt_def and_then_Inr ensure_Inr stored_receipt_def by auto
  qed
qed

end
