(* ===== verification/Job_Worker.thy ===== *)
theory Job_Worker
  imports Job_Contracts Store_Decoding
begin

text \<open>
  The host's decisions about jobs that need no guest (\<open>crates/husker-core/src/job_worker.rs\<close>):
  sealing a job with a failure, cancellation, recovery after a restart of the daemon, and the
  reconciliation of workers that ended without a result.

  \<open>envelope\<close> is the text \<open>serde_json::json!\<close> builds around an error message, \<open>clock\<close> gives
  the reading of \<open>Utc::now()\<close> for each job, \<open>from_timestamp\<close> is that of \<open>chrono\<close>.
\<close>

subsection \<open>Time and text\<close>

definition remaining_deadline :: "(int \<Rightarrow> DateTime option) \<Rightarrow> DateTime \<Rightarrow> int \<Rightarrow> int" where
  "remaining_deadline from_timestamp now deadline =
     (case from_timestamp deadline of None \<Rightarrow> 0 | Some t \<Rightarrow> max 0 (t - now))"

text \<open>\<open>chars().take(n)\<close>: a character is a byte that does not continue one, with its continuation.\<close>

definition continuation :: "char \<Rightarrow> bool" where
  "continuation c \<longleftrightarrow> 128 \<le> (of_char c :: nat) \<and> (of_char c :: nat) < 192"

fun take_chars :: "nat \<Rightarrow> string \<Rightarrow> string" where
  "take_chars n [] = []"
| "take_chars n (c # cs) =
     (if continuation c then c # take_chars n cs
      else if n = 0 then [] else c # take_chars (n - 1) cs)"

subsection \<open>Sealing\<close>

definition try_seal ::
  "reporter \<Rightarrow> (bytes \<Rightarrow> string) \<Rightarrow> 'v json \<Rightarrow> (string \<Rightarrow> string) \<Rightarrow> Uuid \<Rightarrow> JobState \<Rightarrow> string
    \<Rightarrow> JobRecord journal_op" where
  "try_seal rep sha js envelope i state error =
     finish_job_failure rep sha js i state (envelope (take_chars 512 error))"

text \<open>\<open>seal\<close> logs a failure and goes on.\<close>

definition seal ::
  "reporter \<Rightarrow> (bytes \<Rightarrow> string) \<Rightarrow> 'v json \<Rightarrow> (string \<Rightarrow> string) \<Rightarrow> Uuid \<Rightarrow> JobState \<Rightarrow> string
    \<Rightarrow> unit journal_op" where
  "seal rep sha js envelope i state error =
     (\<lambda>d. (Inr (), snd (try_seal rep sha js envelope i state error d)))"

definition cancel_factory_job ::
  "reporter \<Rightarrow> (bytes \<Rightarrow> string) \<Rightarrow> 'v json \<Rightarrow> (string \<Rightarrow> string) \<Rightarrow> Uuid \<Rightarrow> JobRecord journal_op" where
  "cancel_factory_job rep sha js envelope i =
     bind_op (get_job i) (\<lambda>old.
     if terminal (rec_state old) then ok old
     else
       bind_op (seal rep sha js envelope i JobCancelled ''cancelled by client; VM destruction required'') (\<lambda>_.
       bind_op (get_job i) (\<lambda>job.
       if \<not> terminal (rec_state job) then err (Conflict ''cancellation was not persisted'') else ok job)))"

text \<open>
  One round of \<open>monitor_stop\<close>: \<open>None\<close> when it returns, \<open>Some\<close> the time to sleep before the next
  round.
\<close>

definition monitor_round ::
  "reporter \<Rightarrow> (bytes \<Rightarrow> string) \<Rightarrow> 'v json \<Rightarrow> (string \<Rightarrow> string) \<Rightarrow> (int \<Rightarrow> DateTime option) \<Rightarrow> DateTime
    \<Rightarrow> Uuid \<Rightarrow> int option journal_op" where
  "monitor_round rep sha js envelope ft now i = (\<lambda>d.
     case get_job i d of
       (Inl _, d) \<Rightarrow> (Inr None, d)
     | (Inr job, d) \<Rightarrow>
         (if terminal (rec_state job) then ok None
          else
            let remaining = remaining_deadline ft now (rec_deadline job) in
            if remaining = 0 then
              bind_op (seal rep sha js envelope i JobTimedOut ''absolute factory deadline expired'') (\<lambda>_. ok None)
            else ok (Some (min remaining 100000000))) d)"

subsection \<open>Recovery after a restart\<close>

definition restart_outcome :: "(int \<Rightarrow> DateTime option) \<Rightarrow> DateTime \<Rightarrow> JobRecord \<Rightarrow> JobState" where
  "restart_outcome ft now job =
     (if remaining_deadline ft now (rec_deadline job) = 0 then JobTimedOut
      else if rec_state job = JobAccepted then JobInterrupted else JobUnknown)"

text \<open>The loop over the recoverable jobs, with the number of those interrupted.\<close>

fun recover_jobs ::
  "reporter \<Rightarrow> (bytes \<Rightarrow> string) \<Rightarrow> 'v json \<Rightarrow> (string \<Rightarrow> string) \<Rightarrow> (int \<Rightarrow> DateTime option)
    \<Rightarrow> (Uuid \<Rightarrow> DateTime) \<Rightarrow> nat \<Rightarrow> JobRecord list \<Rightarrow> nat journal_op" where
  "recover_jobs rep sha js envelope ft clock interrupted [] = ok interrupted"
| "recover_jobs rep sha js envelope ft clock interrupted (job # rest) =
     (if terminal (rec_state job) then recover_jobs rep sha js envelope ft clock interrupted rest
      else
        bind_op (seal rep sha js envelope (rec_id job) (restart_outcome ft (clock (rec_id job)) job)
          ''daemon restarted; execution will not be resubmitted; confirmed VM cleanup required'') (\<lambda>_.
        bind_op (get_job (rec_id job)) (\<lambda>now.
        if \<not> terminal (rec_state now) then err (Conflict ''restart outcome was not persisted'')
        else recover_jobs rep sha js envelope ft clock (interrupted + 1) rest)))"

text \<open>The body of the loop over the leases.\<close>

definition fence_lease ::
  "reporter \<Rightarrow> (Uuid \<Rightarrow> string) \<Rightarrow> HostResourceLease \<Rightarrow> unit journal_op" where
  "fence_lease rep hy lease =
     (if lease_backend_entered lease \<or> lease_vm_destroyed lease \<or> lease_vm_id lease = None then ok ()
      else
        bind_op (job_for_pending_vm_name (lease_vm_name lease)) (\<lambda>found.
        case found of None \<Rightarrow> ok ()
        | Some job \<Rightarrow>
            if \<not> terminal (rec_state job) \<or> rec_vm_id job \<noteq> lease_vm_id lease then ok ()
            else (\<lambda>d. case record_job_leased_prebackend_abort rep hy (rec_id job)
                (the (lease_vm_id lease)) (lease_id lease) d of
                (Inr _, d) \<Rightarrow> (Inr (), d)
              | (Inl (Conflict _), d) \<Rightarrow> (Inr (), d)
              | (Inl e, d) \<Rightarrow> (Inl e, d))))"

definition recover_after_restart ::
  "reporter \<Rightarrow> (DateTime \<Rightarrow> string) \<Rightarrow> (Uuid \<Rightarrow> string) \<Rightarrow> (bytes \<Rightarrow> string) \<Rightarrow> 'v json
    \<Rightarrow> (string \<Rightarrow> string) \<Rightarrow> (int \<Rightarrow> DateTime option) \<Rightarrow> (Uuid \<Rightarrow> DateTime) \<Rightarrow> nat journal_op" where
  "recover_after_restart rep rfc3339 hy sha js envelope ft clock =
     bind_op (recoverable_jobs hy) (\<lambda>jobs.
     bind_op (recover_jobs rep sha js envelope ft clock 0 jobs) (\<lambda>interrupted.
     bind_op (map_err JState (list_host_resource_leases rfc3339 hy)) (\<lambda>leases.
     bind_op (for_each (fence_lease rep hy) leases) (\<lambda>_. ok interrupted))))"

subsection \<open>Workers that ended\<close>

definition worker_ownership_resolved :: "Uuid \<Rightarrow> db \<Rightarrow> bool" where
  "worker_ownership_resolved i d =
     (case fst (get_job i d) of
        Inr job \<Rightarrow> terminal (rec_state job) \<and> \<not> rec_cleanup_pending job
      | Inl (JNotFound _) \<Rightarrow> True
      | Inl _ \<Rightarrow> False)"

record WorkerReconciliation =
  wr_reconciled :: nat
  wr_pending :: nat
  wr_aborts_confirmed :: nat
  wr_aborts_pending :: nat

text \<open>The inner search of \<open>reconcile_finished_workers\<close> for the unentered lease of the generation.\<close>

fun abort_first ::
  "reporter \<Rightarrow> (Uuid \<Rightarrow> string) \<Rightarrow> Uuid \<Rightarrow> Uuid \<Rightarrow> string \<Rightarrow> HostResourceLease list \<Rightarrow> nat journal_op" where
  "abort_first rep hy i vm name [] = ok 0"
| "abort_first rep hy i vm name (lease # rest) =
     (if lease_vm_name lease \<noteq> name \<or> lease_vm_id lease \<noteq> Some vm \<or> lease_backend_entered lease
         \<or> lease_vm_destroyed lease
      then abort_first rep hy i vm name rest
      else bind_op (record_job_leased_prebackend_abort rep hy i vm (lease_id lease)) (\<lambda>_. ok 1))"

definition abort_unentered ::
  "reporter \<Rightarrow> (DateTime \<Rightarrow> string) \<Rightarrow> (Uuid \<Rightarrow> string) \<Rightarrow> Uuid \<Rightarrow> nat journal_op" where
  "abort_unentered rep rfc3339 hy i =
     bind_op (get_job i) (\<lambda>job.
     if \<not> rec_cleanup_pending job \<or> rec_vm_destroyed job \<or> rec_vm_allocation_aborted job then ok 0
     else case rec_vm_id job of None \<Rightarrow> ok 0
     | Some vm \<Rightarrow>
         let name = vm_name_of hy i in
         if rec_vm_name job \<noteq> Some name then ok 0
         else bind_op (map_err JState (list_host_resource_leases rfc3339 hy)) (abort_first rep hy i vm name))"

text \<open>
  The body of the loop over the finished workers. A worker whose terminal publication fails is
  pending, and its allocation is left alone.
\<close>

definition reconcile_worker ::
  "reporter \<Rightarrow> (DateTime \<Rightarrow> string) \<Rightarrow> (Uuid \<Rightarrow> string) \<Rightarrow> (bytes \<Rightarrow> string) \<Rightarrow> 'v json
    \<Rightarrow> (string \<Rightarrow> string) \<Rightarrow> (int \<Rightarrow> DateTime option) \<Rightarrow> (Uuid \<Rightarrow> DateTime)
    \<Rightarrow> Uuid \<Rightarrow> WorkerReconciliation \<Rightarrow> db \<Rightarrow> WorkerReconciliation \<times> db" where
  "reconcile_worker rep rfc3339 hy sha js envelope ft clock i report d =
     (case get_job i d of
        (Inl (JNotFound _), d) \<Rightarrow> (report, d)
      | (Inl _, d) \<Rightarrow> (report\<lparr>wr_pending := wr_pending report + 1\<rparr>, d)
      | (Inr job, d) \<Rightarrow>
          let sealed =
            (if terminal (rec_state job) then (True, report, d)
             else case try_seal rep sha js envelope i (restart_outcome ft (clock i) job)
                 (''owned worker finished without durable terminal publication; '' @
                  ''execution will not be resubmitted'') d of
               (Inr _, d) \<Rightarrow> (True, report\<lparr>wr_reconciled := wr_reconciled report + 1\<rparr>, d)
             | (Inl e, d) \<Rightarrow>
                 (case (e, fst (get_job i d)) of
                    (Conflict _, Inr job) \<Rightarrow>
                      (if terminal (rec_state job) then (True, report, d)
                       else (False, report\<lparr>wr_pending := wr_pending report + 1\<rparr>, d))
                  | _ \<Rightarrow> (False, report\<lparr>wr_pending := wr_pending report + 1\<rparr>, d))) in
          case sealed of
            (False, report, d) \<Rightarrow> (report, d)
          | (True, report, d) \<Rightarrow>
              (case abort_unentered rep rfc3339 hy i d of
                 (Inr n, d) \<Rightarrow> (report\<lparr>wr_aborts_confirmed := wr_aborts_confirmed report + n\<rparr>, d)
               | (Inl _, d) \<Rightarrow> (report\<lparr>wr_aborts_pending := wr_aborts_pending report + 1\<rparr>, d)))"

fun reconcile_workers ::
  "reporter \<Rightarrow> (DateTime \<Rightarrow> string) \<Rightarrow> (Uuid \<Rightarrow> string) \<Rightarrow> (bytes \<Rightarrow> string) \<Rightarrow> 'v json
    \<Rightarrow> (string \<Rightarrow> string) \<Rightarrow> (int \<Rightarrow> DateTime option) \<Rightarrow> (Uuid \<Rightarrow> DateTime)
    \<Rightarrow> Uuid list \<Rightarrow> WorkerReconciliation \<Rightarrow> db \<Rightarrow> WorkerReconciliation \<times> db" where
  "reconcile_workers rep rfc3339 hy sha js envelope ft clock [] report d = (report, d)"
| "reconcile_workers rep rfc3339 hy sha js envelope ft clock (i # is) report d =
     (case reconcile_worker rep rfc3339 hy sha js envelope ft clock i report d of
        (report, d) \<Rightarrow> reconcile_workers rep rfc3339 hy sha js envelope ft clock is report d)"

text \<open>The registry is the list of registered jobs with whether their worker has finished.\<close>

definition reconcile_finished_workers ::
  "reporter \<Rightarrow> (DateTime \<Rightarrow> string) \<Rightarrow> (Uuid \<Rightarrow> string) \<Rightarrow> (bytes \<Rightarrow> string) \<Rightarrow> 'v json
    \<Rightarrow> (string \<Rightarrow> string) \<Rightarrow> (int \<Rightarrow> DateTime option) \<Rightarrow> (Uuid \<Rightarrow> DateTime)
    \<Rightarrow> (Uuid \<times> bool) list \<Rightarrow> db \<Rightarrow> WorkerReconciliation \<times> (Uuid \<times> bool) list \<times> db" where
  "reconcile_finished_workers rep rfc3339 hy sha js envelope ft clock registry d =
     (case reconcile_workers rep rfc3339 hy sha js envelope ft clock (map fst (filter snd registry))
         \<lparr>wr_reconciled = 0, wr_pending = 0, wr_aborts_confirmed = 0, wr_aborts_pending = 0\<rparr> d of
        (report, d) \<Rightarrow>
          (report, filter (\<lambda>(i, finished). \<not> finished \<or> \<not> worker_ownership_resolved i d) registry, d))"

subsection \<open>The JSON library\<close>

text \<open>
  What the journal's envelopes need of \<open>serde_json\<close>, for values within its limit on nesting:
  compact text reads back as the value; setting and removing a field of an object gives an object;
  a field that was just set can be removed again; and the size of a compact object grows by at
  most the key, its quotes, a colon, a comma and the text of the field's value. A string is at most
  six bytes per byte (an escape) and two quotes; a Boolean is at most five bytes.
\<close>

definition json_lawful :: "'v json \<Rightarrow> bool" where
  "json_lawful js \<longleftrightarrow>
     (\<forall>v. json_from_str js (json_to_string js v) = Some v)
   \<and> (\<forall>v k w. json_is_object js v \<longrightarrow> json_is_object js (json_set js v k w)
        \<and> length (json_to_string js (json_set js v k w))
            \<le> length (json_to_string js v) + length k + length (json_to_string js w) + 4)
   \<and> (\<forall>v k w. json_is_object js v \<and> \<not> json_has js v k \<longrightarrow> json_remove js (json_set js v k w) k = v)
   \<and> (\<forall>s. length (json_to_string js (json_of_string js s)) \<le> 6 * length s + 2)
   \<and> (\<forall>b. length (json_to_string js (json_of_bool js b)) \<le> 5)"

text \<open>The text of an envelope: a small object without the fields the journal owns.\<close>

definition envelope_ok :: "'v json \<Rightarrow> string \<Rightarrow> bool" where
  "envelope_ok js text \<longleftrightarrow> length text \<le> 8192 \<and>
     (case json_from_str js text of None \<Rightarrow> False
      | Some v \<Rightarrow> json_is_object js v \<and> length (json_to_string js v) \<le> 8192
          \<and> \<not> list_ex (json_has js v) [''guest_result'', ''guest_result_sha256'', ''guest_result_body_truncated''])"

text \<open>Every manifest in the journal is a bounded JSON object.\<close>

definition manifest_ok :: "'v json \<Rightarrow> string option \<Rightarrow> bool" where
  "manifest_ok js m \<longleftrightarrow> (case m of None \<Rightarrow> True | Some t \<Rightarrow> bounded_json js t MAX_MANIFEST_BYTES = Inr ())"

definition manifests_ok :: "'v json \<Rightarrow> db \<Rightarrow> bool" where
  "manifests_ok js d \<longleftrightarrow> (\<forall>r \<in> set (jobs d). manifest_ok js (job_manifest r))"

lemma bounded_json_Inr:
  "bounded_json js t n = Inr u \<longleftrightarrow>
     length t \<le> n \<and> (\<exists>v. json_from_str js t = Some v \<and> json_is_object js v)"
  by (auto simp: bounded_json_def split: option.splits)

lemma merge_receipt_bounded:
  assumes law: "json_lawful js" and sha: "\<forall>bs. length (sha bs) = 64"
    and env: "envelope_ok js env" and staged: "manifest_ok js staged"
  shows "\<exists>m. merge_receipt sha js env staged = Inr m \<and> bounded_json js m MAX_MANIFEST_BYTES = Inr ()"
proof -
  obtain v where v: "json_from_str js env = Some v" "json_is_object js v" "length (json_to_string js v) \<le> 8192"
    "\<not> json_has js v ''guest_result''"
    using env by (auto simp: envelope_ok_def split: option.splits)
  note law' = law [unfolded json_lawful_def]
  have readback: "\<And>x. json_from_str js (json_to_string js x) = Some x" using law' by blast
  have setobj: "\<And>x k w. json_is_object js x \<Longrightarrow> json_is_object js (json_set js x k w)" using law' by blast
  have setlen: "\<And>x k w. json_is_object js x \<Longrightarrow> length (json_to_string js (json_set js x k w))
            \<le> length (json_to_string js x) + length k + length (json_to_string js w) + 4" using law' by blast
  have removed: "\<And>x k w. json_is_object js x \<Longrightarrow> \<not> json_has js x k \<Longrightarrow> json_remove js (json_set js x k w) k = x"
    using law' by blast
  have strlen: "\<And>s. length (json_to_string js (json_of_string js s)) \<le> 6 * length s + 2"
    and boollen: "\<And>b. length (json_to_string js (json_of_bool js b)) \<le> 5" using law' by blast+
  show ?thesis
  proof (cases staged)
    case None
    then show ?thesis using v readback by (simp add: merge_receipt_def bounded_json_Inr MAX_MANIFEST_BYTES_def)
  next
    case (Some t)
    then obtain g where g: "json_from_str js t = Some g"
      using staged by (auto simp: manifest_ok_def bounded_json_Inr)
    let ?merged = "json_set js v ''guest_result'' g"
    show ?thesis
    proof (cases "length (json_to_string js ?merged) > MAX_MANIFEST_BYTES")
      case False
      then show ?thesis using Some g v readback setobj
        by (simp add: merge_receipt_def bounded_json_Inr Let_def)
    next
      case True
      let ?hash = "json_of_string js (spec_digest sha (bytes_of t))"
      let ?one = "json_set js v ''guest_result_sha256'' ?hash"
      let ?two = "json_set js ?one ''guest_result_body_truncated'' (json_of_bool js True)"
      have one: "json_is_object js ?one" by (rule setobj [OF v(2)])
      have "length (json_to_string js ?hash) \<le> 428"
        using strlen [of "spec_digest sha (bytes_of t)"] by (simp add: spec_digest_def sha)
      then have "length (json_to_string js ?one) \<le> 8192 + 19 + 428 + 4"
        using setlen [OF v(2), of "''guest_result_sha256''" ?hash] v(3) by simp
      then have "length (json_to_string js ?two) \<le> 8192 + 19 + 428 + 4 + 27 + 5 + 4"
        using setlen [OF one, of "''guest_result_body_truncated''" "json_of_bool js True"] boollen [of True] by simp
      then have "length (json_to_string js ?two) \<le> MAX_MANIFEST_BYTES" by (simp add: MAX_MANIFEST_BYTES_def)
      moreover have "merge_receipt sha js env staged = Inr (json_to_string js ?two)"
        using True Some g v(1) removed [OF v(2,4)] by (simp add: merge_receipt_def Let_def)
      ultimately show ?thesis using readback setobj [OF one] by (simp add: bounded_json_Inr)
    qed
  qed
qed

subsection \<open>A failure can always be published\<close>

lemma update_job_succeeds:
  assumes ok: "store_ok d" and r: "r \<in> set (jobs d)"
    and f: "job_id (f r) = job_id r" "job_submission_key (f r) = job_submission_key r"
      "job_session_id (f r) = job_session_id r" "job_vm_id (f r) = job_vm_id r" "job_vm_name (f r) = job_vm_name r"
      "job_cleanup_pending (f r) = job_cleanup_pending r"
    and triggers: "raised (job_update_triggers cols r (f r)) = []" and checks: "raised (job_checks (f r)) = []"
  shows "update_job rep cols (\<lambda>j. job_id j = job_id r) f d
    = (Inr (count_rows (\<lambda>j. job_id j = job_id r) (jobs d)), d\<lparr>jobs := put_job (f r) (jobs d)\<rparr>)"
proof -
  have u: "unique_on job_id (jobs d)" "unique_on job_submission_key (jobs d)" "unique_on job_session_id (jobs d)"
    "unique_some job_vm_id (jobs d)" "unique_some job_pending_name (jobs d)"
    using ok by (simp_all add: store_ok_def journal_ok_def)
  have only: "j = r" if "j \<in> set (jobs d)" "job_id j = job_id r" for j
    using unique_onD [OF u(1) that(1) r that(2)] .
  have put: "update_rows (\<lambda>j. job_id j = job_id r) f (jobs d) = put_job (f r) (jobs d)"
    by (rule update_rows_by_id [where f = f, OF u(1) r f(1)])
  have "job_update_triggers cols j (f j) = job_update_triggers cols r (f r)"
    if "j \<in> set (filter (\<lambda>j. job_id j = job_id r) (jobs d))" for j
    using only [of j] that by simp
  then have t: "raised (concat (map (\<lambda>j. job_update_triggers cols j (f j))
      (filter (\<lambda>j. job_id j = job_id r) (jobs d)))) = []"
    unfolding raised_concat using triggers by simp
  have same: "job_id (f j) = job_id j" "job_submission_key (f j) = job_submission_key j"
    "job_session_id (f j) = job_session_id j" "job_vm_id (f j) = job_vm_id j"
    "job_pending_name (f j) = job_pending_name j" "raised (job_checks (f j)) = []"
    if "j \<in> set (jobs d)" "job_id j = job_id r" for j
    using only [OF that] f checks by (simp_all add: job_pending_name_def)
  have "raised (jobs_constraints (update_rows (\<lambda>j. job_id j = job_id r) f (jobs d))) = []"
    unfolding raised_jobs_constraints
  proof (intro conjI ballI)
    fix j assume "j \<in> set (update_rows (\<lambda>j. job_id j = job_id r) f (jobs d))"
    then show "raised (job_checks j) = []"
      using same(6) store_ok_jobs(3) [OF ok] by (auto simp: set_update_rows)
  qed (intro unique_on_update unique_some_update u same; assumption)+
  then show ?thesis using t put by (simp add: update_job_Inr)
qed

text \<open>The row of a job after a failure was published for it.\<close>

definition sealed_row :: "JobState \<Rightarrow> string \<Rightarrow> job_row \<Rightarrow> job_row" where
  "sealed_row st m r = r\<lparr>job_state := job_as_str st, job_collection := ''failed'', job_manifest := Some m\<rparr>"

lemma sealed_row_simps [simp]:
  "job_id (sealed_row st m r) = job_id r" "job_state (sealed_row st m r) = job_as_str st"
  "job_vm_id (sealed_row st m r) = job_vm_id r" "job_manifest (sealed_row st m r) = Some m"
  by (simp_all add: sealed_row_def)

definition failure_state :: "JobState \<Rightarrow> bool" where
  "failure_state st \<longleftrightarrow> terminal st \<and> st \<notin> {JobCompleted, JobCommandFailed}"

lemma failure_state_as_str:
  "failure_state st \<Longrightarrow> job_as_str st \<notin> {''accepted'', ''preparing'', ''running'', ''completed'', ''command_failed'', ''deleted''}"
  by (cases st) (auto simp: failure_state_def terminal_def)

lemma finish_failure_settles:
  assumes law: "json_lawful js" and sha: "\<forall>bs. length (sha bs) = 64" and env: "envelope_ok js env"
    and ok: "store_ok d" and inv: "journal_inv (journal_of d)" and man: "manifests_ok js d"
    and r: "r \<in> set (jobs d)" "in_progress r" and st: "failure_state st"
  obtains m rec where "finish_job_failure rep sha js (job_id r) st env d
      = (Inr rec, d\<lparr>jobs := put_job (sealed_row st m r) (jobs d)\<rparr>)"
    "bounded_json js m MAX_MANIFEST_BYTES = Inr ()"
proof -
  have alive: "\<not> is_tombstone r" using r(2) by (auto simp: in_progress_def is_tombstone_def)
  obtain job where job: "read_record r = Inr job" by (rule job_readable [OF ok inv r(1) alive])
  have got: "get_on (job_id r) d = (Inr job, d)" using get_on_found [OF ok r(1) alive] job by simp
  note rec = read_record_Inr [OF job]
  have staged: "manifest_ok js (rec_manifest job)" using man r(1) rec(9) by (simp add: manifests_ok_def)
  obtain m where m: "merge_receipt sha js env (rec_manifest job) = Inr m" "bounded_json js m MAX_MANIFEST_BYTES = Inr ()"
    using merge_receipt_bounded [OF law sha env staged] by blast
  let ?f = "\<lambda>j :: job_row. j\<lparr>job_state := job_as_str st, job_collection := collection_as_str CollFailed, job_manifest := Some m\<rparr>"
  let ?d' = "d\<lparr>jobs := put_job (sealed_row st m r) (jobs d)\<rparr>"
  have f: "?f r = sealed_row st m r" by (simp add: sealed_row_def)
  have checks: "raised (job_checks (?f r)) = []"
    using store_ok_jobs(3) [OF ok r(1)] failure_state_as_str [OF st] m(2) job_as_str_known [of st]
    by (auto simp: job_checks_def too_long_def bounded_json_Inr MAX_MANIFEST_BYTES_def known_collections_def split: if_splits)
  have "update_job rep [''state'', ''collection'', ''manifest''] (\<lambda>j. job_id j = job_id r) ?f d
      = (Inr (count_rows (\<lambda>j. job_id j = job_id r) (jobs d)), ?d')"
    using update_job_succeeds [OF ok r(1), of ?f "[''state'', ''collection'', ''manifest'']" rep] checks
    unfolding f by (simp add: job_update_triggers_def sets_any_def sealed_row_def)
  moreover have nt: "\<not> terminal (rec_state job)"
    using r(2) rec(1) terminal_as_str [of "rec_state job"] by (auto simp: in_progress_def)
  ultimately have pub: "publish_result rep sha js (job_id r) st CollFailed env True job d = (Inr (), ?d')"
    using st m by (simp add: publish_result_def failure_state_def op_simps)
  have u: "unique_on job_id (jobs d)" by (rule store_ok_jobs(1) [OF ok])
  have new: "set (jobs ?d') = insert (sealed_row st m r) (set (jobs d) - {r})"
    using set_put_job [OF u r(1), of "sealed_row st m r"] by simp
  have alive': "\<not> is_tombstone (sealed_row st m r)"
    using failure_state_as_str [OF st] by (simp add: is_tombstone_def)
  have bj: "bounded_json js env MAX_MANIFEST_BYTES = Inr ()"
    using env by (auto simp: envelope_ok_def bounded_json_Inr MAX_MANIFEST_BYTES_def split: option.splits)
  obtain v where v: "json_from_str js env = Some v"
    "\<not> list_ex (json_has js v) [''guest_result'', ''guest_result_sha256'', ''guest_result_body_truncated'']"
    using env by (auto simp: envelope_ok_def split: option.splits)
  have spec: "job_specification (sealed_row st m r) \<noteq> None" using rec(14) by (simp add: sealed_row_def)
  obtain job' where job': "read_record (sealed_row st m r) = Inr job'"
    using read_record_total [OF _ alive' spec] checks f by auto
  have "find (\<lambda>j. job_id j = job_id r \<and> job_state j \<noteq> ''deleted'') (jobs ?d') = Some (sealed_row st m r)"
  proof (rule find_Some_only)
    show "sealed_row st m r \<in> set (jobs ?d')" using new by simp
    show "job_id (sealed_row st m r) = job_id r \<and> job_state (sealed_row st m r) \<noteq> ''deleted''"
      using alive' by (simp add: is_tombstone_def)
    fix j assume "j \<in> set (jobs ?d')" "job_id j = job_id r \<and> job_state j \<noteq> ''deleted''"
    then show "j = sealed_row st m r" using new unique_onD [OF u _ r(1)] by auto
  qed
  then have got': "get_on (job_id r) ?d' = (Inr job', ?d')"
    using job' by (simp add: get_on_def op_simps jdb_val_def)
  have "finish_job_inner rep sha js (job_id r) st CollFailed env True d = (Inr job', ?d')"
    using bj got pub got' st by (simp add: finish_job_inner_def failure_state_def op_simps)
  then have "finish_job_failure rep sha js (job_id r) st env d = (Inr job', ?d')"
    using bj v st by (simp add: finish_job_failure_def failure_state_def op_simps)
  then show thesis using that m(2) by blast
qed

subsection \<open>Manifests stay bounded\<close>

named_theorems keeps_manifests \<open>operations that keep \<open>manifests_ok\<close>\<close>

lemma manifests_journal: "journal_of d' = journal_of d \<Longrightarrow> manifests_ok js d \<Longrightarrow> manifests_ok js d'"
  by (simp add: manifests_ok_def journal_of_def)

lemma manifests_update_job:
  "(\<And>j. manifest_ok js (job_manifest j) \<Longrightarrow> manifest_ok js (job_manifest (f j))) \<Longrightarrow>
    keeps (manifests_ok js) (update_job rep cols P f)"
  by (auto simp: within_def update_job_def jdb_op_def map_err_def sql_update_jobs_def statement_def manifests_ok_def
      set_update_rows split: prod.splits sum.splits if_splits)

lemma manifests_same_update:
  "(\<And>j. job_manifest (f j) = job_manifest j) \<Longrightarrow> keeps (manifests_ok js) (update_job rep cols P f)"
  by (rule manifests_update_job) simp

lemma manifests_statements [keeps_manifests]:
  "job_manifest j = None \<Longrightarrow> keeps (manifests_ok js) (sql_insert_jobs rep j)"
  "keeps (manifests_ok js) (sql_delete_jobs P)"
  "keeps (manifests_ok js) (sql_insert_job_events rep e)"
  "keeps (manifests_ok js) (sql_insert_job_artifacts rep a)"
  "keeps (manifests_ok js) (sql_delete_job_events Q)"
  "keeps (manifests_ok js) (sql_delete_job_artifacts A)"
  "keeps (manifests_ok js) (sql_update_leases rep cols L g)"
  by (auto simp: within_def statement_def manifests_ok_def sql_insert_jobs_def sql_delete_jobs_def
      sql_insert_job_events_def sql_insert_job_artifacts_def sql_delete_job_events_def
      sql_delete_job_artifacts_def sql_update_leases_def manifest_ok_def delete_rows_def Let_def)

lemma manifests_accept [keeps_manifests]:
  "keeps (manifests_ok js) (accept_job_inner rep sha js' now i s k sp dl ru b)"
  "keeps (manifests_ok js) (accept_job rep sha js' now i s k sp dl ru)"
  "keeps (manifests_ok js) (accept_job_with_budget rep sha js' now i s k sp dl ru bd obs)"
  unfolding accept_job_inner_def accept_job_def accept_job_with_budget_def admit_job_def
  by (intro within_intros keeps_manifests preorder_keeps; simp add: new_job_def)+

lemma manifests_ownership [keeps_manifests]:
  "keeps (manifests_ok js) (bind_on rep now i vm n)"
  "keeps (manifests_ok js) (reserve_job_vm_inner rep hy now i replay)"
  "keeps (manifests_ok js) (mark_job_running rep now i)"
  unfolding bind_on_def reserve_job_vm_inner_def mark_job_running_def
  by (intro within_intros keeps_manifests manifests_same_update preorder_keeps; simp)+

lemma manifests_insert_lease [keeps_manifests]:
  "keeps (manifests_ok js) (insert_host_resource_lease rep current l now n v)"
  using journal_frame_lease manifests_journal unfolding within_def by blast

lemma manifests_binding [keeps_manifests]:
  "keeps (manifests_ok js) (reserve_job_vm rep hy now i)"
  "keeps (manifests_ok js) (claim_job_vm rep hy now i)"
  "keeps (manifests_ok js) (bind_job_vm rep now i vm n)"
  "keeps (manifests_ok js) (bind_job_vm_with_lease rep current l now i vm n)"
  unfolding reserve_job_vm_def claim_job_vm_def bind_job_vm_def bind_job_vm_with_lease_def
  by (intro within_intros keeps_manifests preorder_keeps)+

lemma manifests_append_events [keeps_manifests]: "keeps (manifests_ok js) (append_events rep sha i es c)"
proof (induction es arbitrary: c)
  case Nil
  then show ?case by (simp add: within_ok preorder_keeps)
next
  case (Cons e es)
  have "keeps (manifests_ok js) (append_event rep sha i e c)"
    unfolding append_event_def by (intro within_intros keeps_manifests preorder_keeps)
  then show ?case using Cons by (simp add: within_bind preorder_keeps)
qed

lemma manifests_evidence [keeps_manifests]:
  "keeps (manifests_ok js) (append_job_events rep sha i es g)"
  "keeps (manifests_ok js) (retain_job_artifact rep sha i n p x bs)"
  unfolding append_job_events_def retain_job_artifact_def keep_artifact_def
  by (intro within_intros keeps_manifests manifests_same_update preorder_keeps; simp)+

lemma manifests_stage [keeps_manifests]: "keeps (manifests_ok js) (stage_job_manifest rep js i m)"
  unfolding stage_job_manifest_def
  by (rule within_bind_lift [OF preorder_keeps])
    (intro within_intros manifests_update_job preorder_keeps; simp add: manifest_ok_def)

lemma manifests_publish: "keeps (manifests_ok js) (publish_result rep sha js i st c m pre job)"
  unfolding publish_result_def
  by (intro within_if within_ok within_err within_bind_lift [OF preorder_keeps] preorder_keeps;
      intro within_bind manifests_update_job within_ok preorder_keeps; simp add: manifest_ok_def)

lemma manifests_finish [keeps_manifests]:
  "keeps (manifests_ok js) (finish_job_inner rep sha js i st c m pre)"
  "keeps (manifests_ok js) (finish_job rep sha js i st c m)"
  "keeps (manifests_ok js) (finish_job_failure rep sha js i st env)"
  unfolding finish_job_inner_def finish_job_def finish_job_failure_def
  by (intro within_intros manifests_publish preorder_keeps)+

lemma manifests_cleanup [keeps_manifests]:
  "keeps (manifests_ok js) (record_job_vm_destruction rep vm)"
  "keeps (manifests_ok js) (record_job_vm_allocation_abort rep i vm)"
  "keeps (manifests_ok js) (record_job_leased_prebackend_abort rep hy i vm l)"
  "keeps (manifests_ok js) (confirm_job_cleanup rep i vm)"
  "keeps (manifests_ok js) (confirm_unallocated_job_cleanup rep i n)"
  unfolding record_job_vm_destruction_def record_job_vm_allocation_abort_def
    record_job_leased_prebackend_abort_def confirm_job_cleanup_def confirm_unallocated_job_cleanup_def
  by (intro within_intros keeps_manifests manifests_same_update preorder_keeps; simp)+

lemma manifests_retention [keeps_manifests]:
  "keeps (manifests_ok js) (delete_job_evidence rep i)"
  "keeps (manifests_ok js) (expire_job_evidence rep now)"
  unfolding expire_job_evidence_def delete_job_evidence_def
  by (intro within_intros keeps_manifests manifests_update_job preorder_keeps; simp add: manifest_ok_def)+

lemma manifests_job: "job_step js sha hy d d' \<Longrightarrow> manifests_ok js d \<Longrightarrow> manifests_ok js d'"
  by (induction rule: job_step.induct) (drule keeps_manifests [THEN withinD]; blast)+

lemma manifests_step: "store_step js sha hy d d' \<Longrightarrow> manifests_ok js d \<Longrightarrow> manifests_ok js d'"
  unfolding store_step_def daemon_step_def
  using manifests_job manifests_journal [OF same_journal_catalog] manifests_journal [OF same_journal_vm]
    manifests_journal [OF same_journal_lease] manifests_journal [OF same_journal_direct] by blast

lemma manifests_steps: "(store_step js sha hy)\<^sup>*\<^sup>* d d' \<Longrightarrow> manifests_ok js d \<Longrightarrow> manifests_ok js d'"
  by (induction rule: rtranclp_induct) (auto dest: manifests_step)

lemma manifests_fresh: "manifests_ok js fresh_db"
  by (simp add: manifests_ok_def fresh_db_def)

end
