(* ===== verification/Spec2Isabelle.thy ===== *)
theory Spec2Isabelle
  imports Vm_Contracts Catalogs Pools Lease_Contracts Store_Decoding Job_Contracts
    Agent_Client Job_Result Job_Worker
begin

text \<open>
  husker runs micro-VMs for untrusted jobs. Everything it must not lose, and every decision that
  must be taken once, goes through one SQLite database, the crate \<open>husker-state\<close>: VM
  records and the context identifiers (CIDs) they hold, catalogs of images, volumes, services
  and snapshots, warm pools, the leases under which a VM is created, and the journal of
  execution jobs. This development models that crate operation by operation, and proves what
  the daemon relies on.

  \<^bold>\<open>Theories and sources\<close> (under \<open>src/crates\<close>)

  \<^item> \<open>Husker_Prelude\<close>: machine integers, text, the operations \<open>('s, 'e, 'a) op\<close> from a state to a
    result and the next state, and the calculus \<open>within\<close>/\<open>keeps\<close> by which facts of whole
    operations follow from those of their statements.
  \<^item> \<open>Husker_Types\<close>: the enumerations of \<open>husker-types/src/lib.rs\<close> with their textual forms,
    and the locale \<open>wire_enum\<close> of their contract.
  \<^item> \<open>Store_Schema\<close>, \<open>Store_Sql\<close>: records and rows, one list of rows per table, and every SQL
    statement the crate issues with the constraints, foreign keys and triggers in force at the
    supported schema version (\<open>husker-state/src/lib.rs\<close>, \<open>jobs.rs\<close>, \<open>boot_epoch.rs\<close>). When several
    constraints fail, which one SQLite names is not documented: the statements take a
    \<open>reporter\<close> that chooses, and theorems hold for every choice.
  \<^item> \<open>Store_Invariant\<close>: the schema invariant \<open>store_ok\<close>, kept by every statement.
  \<^item> \<open>Cid_Allocator\<close>, \<open>Vm_Store\<close>, \<open>Catalogs\<close>, \<open>Pools\<close> (\<open>husker-state/src/lib.rs\<close>), \<open>Leases\<close>
    (\<open>lib.rs\<close>, \<open>boot_epoch.rs\<close>), \<open>Job_Budget\<close>, \<open>Job_Journal\<close> (\<open>jobs.rs\<close>): one definition per method of
    \<open>StateStore\<close>, under its name, with its guards, error classification and transactions.
  \<^item> \<open>Named_Catalog\<close>: the locale of tables of named records, interpreted on seven tables.
    \<open>Cid_Allocator\<close> has the locale \<open>identity_source\<close> of the CID pool.
  \<^item> \<open>Vm_Contracts\<close>, \<open>Lease_Contracts\<close>, \<open>Job_Contracts\<close>: what single operations promise, on
    every branch; \<open>Job_Samples\<close> has the concrete stores the instances are evaluated on.
  \<^item> \<open>Job_Machine\<close>: the journal as an abstract machine (\<open>journal_step\<close>) with its invariant
    \<open>journal_inv\<close> and the history relation \<open>evolves\<close>; \<open>Job_Refinement\<close>: every operation
    of the journal is a sequence of its steps.
  \<^item> \<open>Store_Frames\<close>, \<open>Store_Reachability\<close>, \<open>Store_Decoding\<close>: which operations leave which part
    of the store alone; the step relations \<open>daemon_step\<close> and \<open>store_step\<close>, whose rules are all
    operations with all arguments and outcomes; the invariants of the reachable stores.
  \<^item> \<open>Agent_Protocol\<close> (\<open>husker-agent-proto/src/lib.rs\<close>): the framing of messages on buffers and
    streams, and the base64 codec. \<open>Agent_Client\<close> (\<open>husker-core/src/agent_client.rs\<close>, with the message
    types of \<open>lib.rs\<close> and \<open>sessions.rs\<close>): the host's calls to the agent of a guest.
  \<^item> \<open>Job_Spec\<close>, \<open>Job_Result\<close> (\<open>husker-agent-proto/src/job_spec.rs\<close>, \<open>job_result.rs\<close> and the path rules of
    \<open>frozen_bundle.rs\<close>): what a job is asked to do and what a guest may claim it did.
  \<^item> \<open>Job_Worker\<close> (\<open>husker-core/src/job_worker.rs\<close>): sealing, cancelling and recovering jobs.

  \<^bold>\<open>What is shown\<close>

  In every reachable store CIDs have one owner, all rows decode, the journal is within its
  limits, no VM is forgotten and no history is rewritten. The journal refines the job machine.
  The single operations are decided exactly: insertions succeed exactly when nothing clashes,
  a lease is entered once and released only with proof, submissions are idempotent,
  admission is within the budget in unbounded arithmetic, capture can be repeated, pages
  of the log are complete, expiry always completes.

  \<^bold>\<open>Conventions and bounds\<close>

  Clock readings, fresh UUIDs, SHA-256, the JSON library and the text of times and UUIDs are
  arguments; a theorem that needs something of them says so. Statements of one connection are
  serialised by the store's mutex, so a method is one step; the steps of concurrent callers
  interleave freely in the step relations. Integers are words where Rust's width matters and
  unbounded in SQLite columns, with every conversion explicit. The only fuel is that of the
  log reader \<open>read_pages\<close>: 32 pages of 128 events hold the 4096 events a job can have.

  \<^bold>\<open>Not modelled\<close>

  The schema migrations of old databases (the model starts from the newest schema), I/O
  failures of SQLite itself, \<open>husker-state/src/durable.rs\<close> (fsync of files), and the other crates:
  the CLI (\<open>husker\<close>), the REST layer (\<open>husker-api\<close>), the orchestration of VMs (\<open>husker-core\<close>), the guest
  agent and its protocol (\<open>husker-agent\<close>, \<open>husker-agent-proto\<close>), hypervisor drivers (\<open>husker-vmm\<close>),
  host networking (\<open>husker-net\<close>), images and disks (\<open>husker-oci\<close>, \<open>husker-storage\<close>,
  \<open>husker-cloudinit\<close>). They drive processes, sockets, disks and system calls.
\<close>

section \<open>The store as a whole\<close>


lemma leased_reachable: "(daemon_step js sha hy)\<^sup>*\<^sup>* fresh_db leased_db"
  using lease_step.begin_lease [OF sample_begin [of hd]] unfolding daemon_step_def by blast


lemma listing_total:
  assumes "decodes f rows" "set (g d) \<subseteq> set rows"
  shows "\<exists>xs. bind_op (query g) (\<lambda>rows. db_val (collect_results (map f rows))) d = (Inr xs, d)"
  using collect_decodes [OF decodes_set_mono [OF assms]] by (auto simp: op_simps)


lemma store_steps_of_daemon: "(daemon_step js sha hy)\<^sup>*\<^sup>* d d' \<Longrightarrow> (store_step js sha hy)\<^sup>*\<^sup>* d d'"
  by (rule rtranclp_mono [THEN predicate2D]) (auto simp: store_step_def)

lemmas leased_store_reachable = store_steps_of_daemon [OF leased_reachable]


section \<open>The journal over time\<close>

text \<open>
  C1: The journal operations implement the job machine. Every step of the store, successful
  or failed, is on the journal's tables a sequence of the elementary steps \<open>journal_step\<close>: accept a
  job, change one job along the allowed moves of \<open>job_update\<close>, capture one event, retain one
  artifact, delete a finished job's evidence, or drop tombstones past their deadline. Operations
  of the other components are no step at all.
\<close>

theorem store_refines_job_machine:
  assumes "store_ok d" "store_step js sha hy d d'"
  shows "journal_step\<^sup>*\<^sup>* (journal_of d) (journal_of d')"
  by (rule store_step_refines [OF assms(2,1)])

theorem store_refines_job_machine_witness:
  "journal_step\<^sup>*\<^sup>* (journal_of (job_db running_row [])) (journal_of captured_db)"
proof (rule store_refines_job_machine [OF sample_dbs_ok(3)])
  show "store_step sample_json sample_sha sample_hyphenated (job_db running_row []) captured_db"
    unfolding store_step_def daemon_step_def
    using job_step.append_job_events [OF sample_capture, of sample_json sample_hyphenated] by blast
qed

text \<open>
  C4: The journal stays within its limits. In every reachable state there are at most 4096
  submission receipts, 64 retained jobs and 16 execution reservations; the captured events of a
  job are numbered 1, 2, 3 and so on up to its cursor without a gap, at most 4096; the
  bytes retained for it are counted exactly and are at most 4 MiB; once an event was dropped for
  size every later one is dropped too and the output is marked truncated; and its artifacts
  have distinct indices and paths and at most 16 MiB in total.
\<close>

theorem journal_within_limits:
  assumes "(store_step js sha hy)\<^sup>*\<^sup>* fresh_db d"
  shows "length (jobs d) \<le> MAX_SUBMISSION_RECEIPTS
    \<and> length (filter (\<lambda>j. job_state j \<noteq> ''deleted'') (jobs d)) \<le> MAX_RETAINED_JOBS
    \<and> length (filter active_row (jobs d)) \<le> MAX_ACTIVE_JOBS
    \<and> list_all (\<lambda>r. log_inv r (log_of (job_id r) (job_events d))
        \<and> kept_inv r (kept_of (job_id r) (job_artifacts d))) (jobs d)"
proof -
  have inv: "journal_inv (journal_of d)" by (rule reachable_journal [OF assms])
  have "active_row = reserved_row"
    by (auto simp: active_row_def reserved_row_def in_progress_def fun_eq_iff)
  then show ?thesis
    using inv by (simp add: journal_inv_def journal_of_def capacity_inv_def count_rows_def is_tombstone_def
        list_all_iff)
qed

theorem journal_within_limits_witness:
  "length (jobs leased_db) \<le> MAX_SUBMISSION_RECEIPTS"
  using journal_within_limits [OF leased_store_reachable [of sample_json sample_sha sample_hyphenated]]
  by blast


lemma accepted_reachable: "(store_step sample_json sample_sha sample_hyphenated)\<^sup>*\<^sup>* fresh_db (job_db accepted_row [])"
proof -
  obtain job where "accept_job_with_budget hd sample_sha sample_json 0 60 61 ''key'' ''{}'' sample_deadline
     sample_retention sample_budget (Inr sample_storage) fresh_db = (Inr (job, True), job_db accepted_row [])"
    using sample_admission by blast
  from job_step.accept_job_with_budget [OF this, of sample_hyphenated] show ?thesis
    unfolding store_step_def daemon_step_def by blast
qed


text \<open>
  C5: No VM is forgotten. In every reachable state a job that was bound to a VM generation and no
  longer has its cleanup pending has the receipt that the VM was destroyed or never allocated, and
  never both receipts; and a running or preparing job has its cleanup pending.
\<close>

theorem vm_never_forgotten:
  assumes "(store_step js sha hy)\<^sup>*\<^sup>* fresh_db d" "r \<in> set (jobs d)"
  shows "(job_vm_id r \<noteq> None \<and> \<not> job_cleanup_pending r \<longrightarrow>
          job_vm_destroyed r \<or> job_vm_allocation_aborted r)
    \<and> \<not> (job_vm_destroyed r \<and> job_vm_allocation_aborted r)
    \<and> (job_state r \<in> {''preparing'', ''running''} \<longrightarrow> job_cleanup_pending r)"
  using journal_row [OF reachable_journal [OF assms(1)] assms(2)] unfolding row_inv_def by blast

theorem vm_never_forgotten_witness:
  "\<not> (job_vm_destroyed accepted_row \<and> job_vm_allocation_aborted accepted_row)"
  using vm_never_forgotten [OF accepted_reachable, of accepted_row] by (simp add: job_db_def)

end
